(* ===== verification/Prelude.thy ===== *)
theory Prelude
  imports Main "HOL-Library.Word" "HOL-Library.Monad_Syntax" "HOL-Library.AList"
begin

text \<open>
  What every other theory shares: the machine integer types, the three outcomes a Rust
  function of the gateway can have (a value, an \<open>io::Error\<close>, a panic), the collections of
  rewrite rules the component proofs use, and the generic lemmas on lists, options, words
  and folds.

  Outcomes.  A Rust function that returns \<open>Result<T, io::Error>\<close> and that may panic is a
  HOL function into \<open>(io_error + 'a) option\<close>: \<open>None\<close> is the panic (the task that runs the
  function is torn down), \<open>Some (Inl e)\<close> is \<open>Err(e)\<close> and \<open>Some (Inr v)\<close> is \<open>Ok(v)\<close>.
  The \<open>do\<close> notation of the option monad sequences the operations that may panic, with the
  buffer, the JSON object and the global state passed explicitly.

  Unsigned arithmetic that overflows wraps around, as in a release build.
\<close>

unbundle bit_operations_syntax

type_synonym u8 = "8 word"
type_synonym u16 = "16 word"
type_synonym u32 = "32 word"
type_synonym u64 = "64 word"

text \<open>The \<open>std::io::ErrorKind\<close> of an error; its message text is not modelled.\<close>

datatype io_error =
    NotFound
  | Other
  | InvalidInput
  | InvalidData
  | PermissionDenied
  | ConnectionAborted
  | TimedOut
  | AlreadyExists
  | NotConnected

type_synonym 'a res = "(io_error + 'a) option"

abbreviation (input) Panic :: "'a option" where
  "Panic \<equiv> None"

abbreviation (input) Ok :: "'a \<Rightarrow> 'a res" where
  "Ok v \<equiv> Some (Inr v)"

abbreviation (input) Err :: "io_error \<Rightarrow> 'a res" where
  "Err e \<equiv> Some (Inl e)"

named_theorems wire_simps "evaluation of the buffer readers and writers"
named_theorems json_simps "evaluation of JSON object access"
named_theorems frame_simps "lengths of what the encoders append"

subsection \<open>Options\<close>

lemma bind_Some_pairE:
  assumes "Option.bind m f = Some y"
  obtains x where "m = Some x" and "f x = Some y"
  using assms by (cases m) auto

lemma bind_eq_None [simp]: "(Option.bind m f = None) = (m = None \<or> (\<exists>x. m = Some x \<and> f x = None))"
  by (cases m) auto

lemma bind_eq_Some: "(Option.bind m f = Some y) = (\<exists>x. m = Some x \<and> f x = Some y)"
  by (cases m) auto

lemma bind_map_option: "Option.bind (map_option g m) f = Option.bind m (\<lambda>x. f (g x))"
  by (cases m) auto

subsection \<open>Loops over an index range\<close>

text \<open>
  \<open>for i in 0..n { body }\<close> with the variables the body assigns as the state: the body is run
  for each index in turn, and a panic in it ends the loop.
\<close>

primrec for_each :: "'a list \<Rightarrow> ('a \<Rightarrow> 's \<Rightarrow> 's option) \<Rightarrow> 's \<Rightarrow> 's option" where
  "for_each [] body s = Some s"
| "for_each (x # xs) body s = Option.bind (body x s) (for_each xs body)"

lemma for_each_append:
  "for_each (xs @ ys) body s = Option.bind (for_each xs body s) (for_each ys body)"
  by (induction xs arbitrary: s) (auto split: Option.bind_splits)

text \<open>An invariant of the body is an invariant of the loop.\<close>

lemma for_each_invariant:
  assumes "for_each xs body s = Some t"
    and "P 0 s"
    and "\<And>i s s'. i < length xs \<Longrightarrow> P i s \<Longrightarrow> body (xs ! i) s = Some s' \<Longrightarrow> P (Suc i) s'"
  shows "P (length xs) t"
  using assms
proof (induction xs arbitrary: t rule: rev_induct)
  case Nil
  then show ?case by simp
next
  case (snoc x xs)
  from snoc.prems(1) obtain u where u: "for_each xs body s = Some u" and t: "body x u = Some t"
    by (auto simp: for_each_append bind_eq_Some)
  have "P (length xs) u"
    by (rule snoc.IH [OF u snoc.prems(2)]) (simp add: snoc.prems(3) nth_append)
  then have "P (Suc (length xs)) t"
    using snoc.prems(3) [of "length xs" u t] t by simp
  then show ?case by simp
qed

text \<open>A body that cannot panic under an invariant gives a loop that cannot.\<close>

lemma for_each_total:
  assumes "P 0 s"
    and "\<And>i s. i < length xs \<Longrightarrow> P i s \<Longrightarrow> \<exists>s'. body (xs ! i) s = Some s' \<and> P (Suc i) s'"
  shows "\<exists>t. for_each xs body s = Some t \<and> P (length xs) t"
  using assms
proof (induction xs rule: rev_induct)
  case Nil
  then show ?case by simp
next
  case (snoc x xs)
  have "\<exists>t. for_each xs body s = Some t \<and> P (length xs) t"
    by (rule snoc.IH [OF snoc.prems(1)])
      (use snoc.prems(2) in \<open>simp add: nth_append split: if_splits, metis less_Suc_eq\<close>)
  then obtain u where u: "for_each xs body s = Some u" and P: "P (length xs) u" by blast
  obtain t where "body x u = Some t" and "P (Suc (length xs)) t"
    using snoc.prems(2) [of "length xs" u] P by auto
  with u show ?case by (auto simp: for_each_append)
qed

subsection \<open>Bit fields of words\<close>

text \<open>
  The field below position \<open>k + j\<close> is put back by shifting what is above it: the step the
  message id packing takes for every field.
\<close>

lemma refill_field:
  fixes m :: "'a::len word"
  shows "push_bit k (drop_bit (k + j) m) OR take_bit k (drop_bit j m) = drop_bit j m"
proof (rule bit_word_eqI)
  fix n
  assume "n < LENGTH('a)"
  then show "bit (push_bit k (drop_bit (k + j) m) OR take_bit k (drop_bit j m)) n = bit (drop_bit j m) n"
    by (cases "n < k") (auto simp: bit_simps ac_simps)
qed

lemma and_mask_take_bit:
  fixes w :: "'a::len word"
  shows "w AND 0x1F = take_bit 5 w" "w AND 0x3F = take_bit 6 w"
    "w AND 0xFFFF = take_bit 16 w" "w AND 0x3FFFFF = take_bit 22 w"
    "w AND 0xF = take_bit 4 w"
  by (simp_all add: take_bit_eq_mask mask_numeral)

lemma unat_bound: "unat (w :: 'a::len word) < 2 ^ LENGTH('a)"
  by (rule unsigned_less)

lemma unat_take_bit_less:
  fixes w :: "'a::len word"
  shows "unat (take_bit n w) < 2 ^ n"
  by (simp add: unsigned_take_bit_eq take_bit_nat_eq_self_iff)

end
