(* ===== verification/Bytes.thy ===== *)
theory Bytes
  imports Prelude
begin

text \<open>
  Byte buffers and text.  A \<open>BytesMut\<close> is the list of the bytes it holds, a Rust string the
  list of its UTF-8 bytes, one \<open>char\<close> per byte.  The readers return \<open>None\<close> where the Rust
  call panics (too few bytes left, an index that is no character boundary), the writers
  append in network byte order.  The second half holds the parts of the standard library
  the gateway's text handling uses: UTF-8 validation, slicing, parsing and printing of
  unsigned integers, and the two padding helpers of \<open>implements.rs\<close>.
\<close>

type_synonym buf = "u8 list"

subsection \<open>Integers in network byte order\<close>

primrec be_bytes :: "nat \<Rightarrow> nat \<Rightarrow> buf" where
  "be_bytes 0 n = []"
| "be_bytes (Suc k) n = be_bytes k (n div 256) @ [of_nat (n mod 256)]"

definition be_nat :: "buf \<Rightarrow> nat" where
  "be_nat bs = foldl (\<lambda>a b. a * 256 + unat b) 0 bs"

lemma length_be_bytes [simp, frame_simps]: "length (be_bytes k n) = k"
  by (induction k arbitrary: n) auto

lemma be_nat_Nil [simp]: "be_nat [] = 0"
  by (simp add: be_nat_def)

lemma be_nat_snoc [simp]: "be_nat (bs @ [b]) = be_nat bs * 256 + unat b"
  by (simp add: be_nat_def)

lemma be_nat_be_bytes [simp]: "be_nat (be_bytes k n) = n mod 256 ^ k"
proof (induction k arbitrary: n)
  case 0
  then show ?case by simp
next
  case (Suc k)
  have "unat (of_nat (n mod 256) :: u8) = n mod 256"
    by (simp add: unat_of_nat)
  then show ?case
    by (simp add: Suc.IH mod_mult2_eq algebra_simps)
qed

lemma be_nat_less: "be_nat bs < 256 ^ length bs"
proof (induction bs rule: rev_induct)
  case Nil
  then show ?case by simp
next
  case (snoc b bs)
  have "unat b < 256" using unat_bound [of b] by simp
  with snoc show ?case by simp
qed

lemma be_bytes_be_nat [simp]: "be_bytes (length bs) (be_nat bs) = bs"
proof (induction bs rule: rev_induct)
  case Nil
  then show ?case by simp
next
  case (snoc b bs)
  have "unat b < 256" using unat_bound [of b] by simp
  with snoc show ?case by simp
qed

subsection \<open>Writers\<close>

definition put_u8 :: "buf \<Rightarrow> u8 \<Rightarrow> buf" where
  "put_u8 dst v = dst @ [v]"

definition put_u16 :: "buf \<Rightarrow> u16 \<Rightarrow> buf" where
  "put_u16 dst v = dst @ be_bytes 2 (unat v)"

definition put_u32 :: "buf \<Rightarrow> u32 \<Rightarrow> buf" where
  "put_u32 dst v = dst @ be_bytes 4 (unat v)"

definition put_u64 :: "buf \<Rightarrow> u64 \<Rightarrow> buf" where
  "put_u64 dst v = dst @ be_bytes 8 (unat v)"

lemmas put_defs [wire_simps, frame_simps] = put_u8_def put_u16_def put_u32_def put_u64_def

subsection \<open>Readers\<close>

definition split_to :: "buf \<Rightarrow> nat \<Rightarrow> (buf \<times> buf) option" where
  "split_to b n = (if n \<le> length b then Some (take n b, drop n b) else None)"

definition advance :: "buf \<Rightarrow> nat \<Rightarrow> buf option" where
  "advance b n = (if n \<le> length b then Some (drop n b) else None)"

definition get_u8 :: "buf \<Rightarrow> (u8 \<times> buf) option" where
  "get_u8 b = (case b of [] \<Rightarrow> None | x # r \<Rightarrow> Some (x, r))"

definition get_be :: "nat \<Rightarrow> buf \<Rightarrow> ('a::len word \<times> buf) option" where
  "get_be n b = (if n \<le> length b then Some (of_nat (be_nat (take n b)), drop n b) else None)"

definition get_u16 :: "buf \<Rightarrow> (u16 \<times> buf) option" where
  "get_u16 b = get_be 2 b"

definition get_u32 :: "buf \<Rightarrow> (u32 \<times> buf) option" where
  "get_u32 b = get_be 4 b"

definition get_u64 :: "buf \<Rightarrow> (u64 \<times> buf) option" where
  "get_u64 b = get_be 8 b"

lemma split_to_append [simp, wire_simps]: "length f = n \<Longrightarrow> split_to (f @ r) n = Some (f, r)"
  by (auto simp: split_to_def)

lemma advance_append [simp, wire_simps]: "length f = n \<Longrightarrow> advance (f @ r) n = Some r"
  by (auto simp: advance_def)

lemma advance_0 [simp, wire_simps]: "advance b 0 = Some b"
  by (simp add: advance_def)

lemma advance_Cons [simp, wire_simps]: "0 < n \<Longrightarrow> advance (x # r) n = advance r (n - 1)"
  by (auto simp: advance_def drop_Cons')

lemma advance_prefix [wire_simps]:
  "length f \<le> n \<Longrightarrow> advance (f @ r) n = advance r (n - length f)"
  by (auto simp: advance_def)

lemma get_u8_Cons [simp, wire_simps]: "get_u8 (x # r) = Some (x, r)"
  by (simp add: get_u8_def)

lemma get_be_append [simp]:
  "length f = n \<Longrightarrow> get_be n (f @ r) = Some (of_nat (be_nat f), r)"
  by (auto simp: get_be_def)

lemma get_u16_put [simp, wire_simps]: "get_u16 (be_bytes 2 (unat (v :: u16)) @ r) = Some (v, r)"
  using unat_bound [of v] by (simp add: get_u16_def)

lemma get_u32_put [simp, wire_simps]: "get_u32 (be_bytes 4 (unat (v :: u32)) @ r) = Some (v, r)"
  using unat_bound [of v] by (simp add: get_u32_def)

lemma get_u64_put [simp, wire_simps]: "get_u64 (be_bytes 8 (unat (v :: u64)) @ r) = Some (v, r)"
  using unat_bound [of v] by (simp add: get_u64_def)

lemma get_u8_None [simp]: "get_u8 b = None \<longleftrightarrow> b = []"
  by (cases b) (auto simp: get_u8_def)

lemma get_u32_None [simp]: "get_u32 b = None \<longleftrightarrow> length b < 4"
  by (auto simp: get_u32_def get_be_def)

lemma get_u64_None [simp]: "get_u64 b = None \<longleftrightarrow> length b < 8"
  by (auto simp: get_u64_def get_be_def)

lemma advance_None [simp]: "advance b n = None \<longleftrightarrow> length b < n"
  by (auto simp: advance_def)

lemma split_to_None [simp]: "split_to b n = None \<longleftrightarrow> length b < n"
  by (auto simp: split_to_def)

text \<open>What a successful read leaves.\<close>

lemma get_u8_length: "get_u8 b = Some (v, r) \<Longrightarrow> length b = length r + 1"
  by (auto simp: get_u8_def split: list.splits)

lemma get_u16_length: "get_u16 b = Some (v, r) \<Longrightarrow> length b = length r + 2"
  by (auto simp: get_u16_def get_be_def split: if_splits)

lemma get_u32_length: "get_u32 b = Some (v, r) \<Longrightarrow> length b = length r + 4"
  by (auto simp: get_u32_def get_be_def split: if_splits)

lemma get_u64_length: "get_u64 b = Some (v, r) \<Longrightarrow> length b = length r + 8"
  by (auto simp: get_u64_def get_be_def split: if_splits)

lemma advance_length: "advance b n = Some r \<Longrightarrow> length b = length r + n"
  by (auto simp: advance_def split: if_splits)

lemma split_to_length: "split_to b n = Some (f, r) \<Longrightarrow> length f = n \<and> length b = length r + n"
  by (auto simp: split_to_def split: if_splits)

lemmas read_lengths =
  get_u8_length get_u16_length get_u32_length get_u64_length advance_length split_to_length

subsection \<open>Strings as bytes\<close>

definition as_bytes :: "string \<Rightarrow> buf" where
  "as_bytes s = map (\<lambda>c. of_nat (of_char c)) s"

definition from_bytes :: "buf \<Rightarrow> string" where
  "from_bytes b = map (\<lambda>x. char_of (unat x)) b"

lemma unat_byte_of_char: "unat (of_nat (of_char c) :: u8) = of_char c"
  by (simp add: unat_of_nat)

lemma from_bytes_as_bytes [simp]: "from_bytes (as_bytes s) = s"
  by (simp add: from_bytes_def as_bytes_def comp_def unat_byte_of_char)

lemma as_bytes_from_bytes [simp]: "as_bytes (from_bytes b) = b"
proof -
  have "(of_nat (of_char (char_of (unat x) :: char)) :: u8) = x" for x :: u8
    using unat_bound [of x] by simp
  then show ?thesis by (simp add: from_bytes_def as_bytes_def comp_def)
qed

lemma length_as_bytes [simp, frame_simps]: "length (as_bytes s) = length s"
  by (simp add: as_bytes_def)

lemma length_from_bytes [simp]: "length (from_bytes b) = length b"
  by (simp add: from_bytes_def)

lemma as_bytes_simps [simp]:
  "as_bytes [] = []"
  "as_bytes (c # s) = of_nat (of_char c) # as_bytes s"
  "as_bytes (s @ t) = as_bytes s @ as_bytes t"
  by (simp_all add: as_bytes_def)

lemma from_bytes_append [simp]: "from_bytes (a @ b) = from_bytes a @ from_bytes b"
  by (simp add: from_bytes_def)

lemma from_bytes_replicate_0 [simp]: "from_bytes (replicate n 0) = replicate n (CHR 0x00)"
  by (simp add: from_bytes_def char_of_def)

lemma as_bytes_take: "as_bytes (take n s) = take n (as_bytes s)"
  by (simp add: as_bytes_def take_map)

subsection \<open>Character boundaries and slices\<close>

text \<open>A byte \<open>0b10xxxxxx\<close> continues a character; an index in front of it is no boundary.\<close>

definition is_cont :: "nat \<Rightarrow> bool" where
  "is_cont b \<longleftrightarrow> 128 \<le> b \<and> b < 192"

definition char_boundary :: "string \<Rightarrow> nat \<Rightarrow> bool" where
  "char_boundary s i \<longleftrightarrow> i \<le> length s \<and> (i = 0 \<or> i = length s \<or> \<not> is_cont (of_char (s ! i)))"

definition str_slice :: "string \<Rightarrow> nat \<Rightarrow> nat \<Rightarrow> string option" where
  "str_slice s a b =
     (if a \<le> b \<and> char_boundary s a \<and> char_boundary s b then Some (take (b - a) (drop a s)) else None)"

definition split_at :: "string \<Rightarrow> nat \<Rightarrow> (string \<times> string) option" where
  "split_at s n = (if char_boundary s n then Some (take n s, drop n s) else None)"

definition ascii :: "string \<Rightarrow> bool" where
  "ascii s \<longleftrightarrow> (\<forall>c \<in> set s. of_char c < (128 :: nat))"

lemma ascii_simps [simp]:
  "ascii []"
  "ascii (c # s) \<longleftrightarrow> of_char c < (128 :: nat) \<and> ascii s"
  "ascii (s @ t) \<longleftrightarrow> ascii s \<and> ascii t"
  by (auto simp: ascii_def)

lemma ascii_char_boundary: "ascii s \<Longrightarrow> i \<le> length s \<Longrightarrow> char_boundary s i"
proof (cases "i < length s")
  case True
  assume "ascii s"
  with True have "of_char (s ! i) < (128 :: nat)" by (auto simp: ascii_def)
  with True show ?thesis by (simp add: char_boundary_def is_cont_def)
qed (simp add: char_boundary_def)

lemma split_at_append: "ascii (s @ t) \<Longrightarrow> length s = n \<Longrightarrow> split_at (s @ t) n = Some (s, t)"
  using ascii_char_boundary [of "s @ t" n] by (auto simp: split_at_def)

subsection \<open>UTF-8 validation (\<open>std::str::from_utf8\<close>)\<close>

definition utf8_width :: "nat \<Rightarrow> nat" where
  "utf8_width b =
     (if b < 128 then 1
      else if 0xC2 \<le> b \<and> b \<le> 0xDF then 2
      else if 0xE0 \<le> b \<and> b \<le> 0xEF then 3
      else if 0xF0 \<le> b \<and> b \<le> 0xF4 then 4
      else 0)"

definition utf8_second_ok :: "nat \<Rightarrow> nat \<Rightarrow> bool" where
  "utf8_second_ok b c =
     (if b = 0xE0 then 0xA0 \<le> c \<and> c \<le> 0xBF
      else if b = 0xED then 0x80 \<le> c \<and> c \<le> 0x9F
      else if b = 0xF0 then 0x90 \<le> c \<and> c \<le> 0xBF
      else if b = 0xF4 then 0x80 \<le> c \<and> c \<le> 0x8F
      else is_cont c)"

fun utf8_valid :: "nat list \<Rightarrow> bool" where
  "utf8_valid [] = True"
| "utf8_valid (b # r) =
     (let n = utf8_width b - 1 in
      utf8_width b \<noteq> 0 \<and> n \<le> length r \<and>
      (n = 0 \<or> utf8_second_ok b (hd r)) \<and>
      list_all is_cont (take n r) \<and>
      utf8_valid (drop n r))"

definition from_utf8 :: "buf \<Rightarrow> string option" where
  "from_utf8 b = (if utf8_valid (map unat b) then Some (from_bytes b) else None)"

text \<open>The bytes of a Rust string are valid UTF-8.\<close>

definition valid_str :: "string \<Rightarrow> bool" where
  "valid_str s \<longleftrightarrow> utf8_valid (map of_char s)"

lemma from_utf8_as_bytes: "valid_str s \<Longrightarrow> from_utf8 (as_bytes s) = Some s"
  by (simp add: from_utf8_def valid_str_def as_bytes_def comp_def unat_byte_of_char)
    (simp add: from_bytes_def comp_def unat_byte_of_char)

lemma ascii_valid_str: "ascii s \<Longrightarrow> valid_str s"
  by (induction s) (auto simp: valid_str_def utf8_width_def)

subsection \<open>Fixed-length text fields\<close>

definition FILL_ZERO :: buf where
  "FILL_ZERO = replicate 200 0"

text \<open>The slice \<open>FILL_ZERO[0..n]\<close>, out of range beyond 200 bytes.\<close>

definition fill_zero :: "nat \<Rightarrow> buf option" where
  "fill_zero n = (if n \<le> length FILL_ZERO then Some (take n FILL_ZERO) else None)"

lemma fill_zero_Some [simp]: "n \<le> 200 \<Longrightarrow> fill_zero n = Some (replicate n 0)"
  by (simp add: fill_zero_def FILL_ZERO_def min_def)

definition fill_bytes_zero :: "buf \<Rightarrow> string \<Rightarrow> nat \<Rightarrow> buf option" where
  "fill_bytes_zero dst sl n =
     (if n \<le> length sl
      then do { s \<leftarrow> str_slice sl 0 n; Some (dst @ as_bytes s) }
      else do { z \<leftarrow> fill_zero (n - length sl); Some (dst @ as_bytes sl @ z) })"

text \<open>
  \<open>copy_to_bytes\<close> takes \<open>len\<close> bytes off the buffer, or nothing when there are fewer; it never
  panics.  \<open>load_utf8_string\<close> drops the trailing NUL characters.
\<close>

definition copy_to_bytes :: "buf \<Rightarrow> nat \<Rightarrow> buf \<times> buf" where
  "copy_to_bytes b n = (if n \<le> length b then (take n b, drop n b) else ([], b))"

definition trim_nul :: "string \<Rightarrow> string" where
  "trim_nul s = rev (dropWhile (\<lambda>c. c = CHR 0x00) (rev s))"

definition load_utf8_string :: "buf \<Rightarrow> nat \<Rightarrow> string \<times> buf" where
  "load_utf8_string b n = (let (s, b) = copy_to_bytes b n in (trim_nul (from_bytes s), b))"

text \<open>The field \<open>fill_bytes_zero\<close> appends, by itself.\<close>

definition field :: "string \<Rightarrow> nat \<Rightarrow> buf" where
  "field s n = as_bytes (take n s) @ replicate (n - length s) 0"

lemma length_field [simp, frame_simps]: "length (field s n) = n"
  by (simp add: field_def)

lemma fill_bytes_zero_field:
  "n \<le> 200 \<Longrightarrow>
   fill_bytes_zero dst s n = (if length s < n \<or> char_boundary s n then Some (dst @ field s n) else None)"
  by (auto simp: fill_bytes_zero_def str_slice_def field_def char_boundary_def)

lemma fill_bytes_zero_SomeD:
  "fill_bytes_zero dst s n = Some dst' \<Longrightarrow> n \<le> 200 \<Longrightarrow> dst' = dst @ field s n"
  by (simp add: fill_bytes_zero_field split: if_splits)

lemma copy_to_bytes_append [simp, wire_simps]: "length f = n \<Longrightarrow> copy_to_bytes (f @ r) n = (f, r)"
  by (auto simp: copy_to_bytes_def)

lemma load_utf8_string_append [simp, wire_simps]:
  "length f = n \<Longrightarrow> load_utf8_string (f @ r) n = (trim_nul (from_bytes f), r)"
  by (simp add: load_utf8_string_def)

lemma load_utf8_string_length:
  "load_utf8_string b n = (s, r) \<Longrightarrow> length r = (if n \<le> length b then length b - n else length b)"
  by (auto simp: load_utf8_string_def copy_to_bytes_def split: if_splits)

definition no_trailing_nul :: "string \<Rightarrow> bool" where
  "no_trailing_nul s \<longleftrightarrow> s = [] \<or> last s \<noteq> CHR 0x00"

lemma dropWhile_replicate: "dropWhile (\<lambda>c. c = x) (replicate n x @ s) = dropWhile (\<lambda>c. c = x) s"
  by (induction n) auto

lemma trim_nul_replicate [simp]: "trim_nul (s @ replicate n (CHR 0x00)) = trim_nul s"
  by (simp add: trim_nul_def dropWhile_replicate)

lemma trim_nul_id [simp]: "no_trailing_nul s \<Longrightarrow> trim_nul s = s"
  by (cases s rule: rev_cases) (auto simp: trim_nul_def no_trailing_nul_def)

lemma trim_nul_field: "trim_nul (from_bytes (field s n)) = trim_nul (take n s)"
  by (simp add: field_def del: as_bytes_simps)

text \<open>A text field that fits is read back as it was written.\<close>

lemma field_roundtrip [simp, wire_simps]:
  "length s \<le> n \<Longrightarrow> no_trailing_nul s \<Longrightarrow> trim_nul (from_bytes (field s n)) = s"
  by (simp add: trim_nul_field)

end
