(* ===== verification/Text.thy ===== *)
theory Text
  imports Bytes
begin

text \<open>
  Printing and parsing of unsigned integers as the standard library does it:
  \<open>format!("{:010}", n)\<close>, \<open>format!("{:08X}", n)\<close> and \<open>str::parse::<u64>()\<close>, with the laws
  the message id conversions rest on: a padded print of a number that fits its width is
  its digits, and parsing digits gives the number back.
\<close>

subsection \<open>Digits\<close>

function radix_digits :: "nat \<Rightarrow> nat \<Rightarrow> nat list" where
  "radix_digits b n = (if n < b \<or> b < 2 then [n] else radix_digits b (n div b) @ [n mod b])"
  by pat_completeness auto
termination
  by (relation "measure snd") (auto intro: div_less_dividend)

declare radix_digits.simps [simp del]

definition digit_char :: "nat \<Rightarrow> char" where
  "digit_char d = char_of (if d < 10 then 48 + d else 55 + d)"

definition pad_zero :: "nat \<Rightarrow> string \<Rightarrow> string" where
  "pad_zero w s = replicate (w - length s) (CHR ''0'') @ s"

text \<open>\<open>{:0w}\<close> and \<open>{:0wX}\<close>.\<close>

definition fmt_dec :: "nat \<Rightarrow> nat \<Rightarrow> string" where
  "fmt_dec w n = pad_zero w (map digit_char (radix_digits 10 n))"

definition fmt_hex :: "nat \<Rightarrow> nat \<Rightarrow> string" where
  "fmt_hex w n = pad_zero w (map digit_char (radix_digits 16 n))"

text \<open>The \<open>k\<close> lowest digits of a number, most significant first.\<close>

primrec low_digits :: "nat \<Rightarrow> nat \<Rightarrow> nat \<Rightarrow> nat list" where
  "low_digits b 0 n = []"
| "low_digits b (Suc k) n = low_digits b k (n div b) @ [n mod b]"

lemma length_low_digits [simp]: "length (low_digits b k n) = k"
  by (induction k arbitrary: n) auto

lemma low_digits_Nil [simp]: "low_digits b k n = [] \<longleftrightarrow> k = 0"
  by (cases k) simp_all

lemma low_digits_less: "0 < b \<Longrightarrow> d \<in> set (low_digits b k n) \<Longrightarrow> d < b"
  by (induction k arbitrary: n) auto

lemma low_digits_0: "low_digits b k 0 = replicate k 0"
  by (induction k) (simp_all add: replicate_append_same)

lemma digit_char_0: "digit_char 0 = CHR ''0''"
  by (simp add: digit_char_def char_of_eq_iff)

lemma low_digits_pad:
  assumes "1 < b" and "n < b ^ k" and "0 < k"
  shows "map digit_char (low_digits b k n) = pad_zero k (map digit_char (radix_digits b n))
    \<and> length (radix_digits b n) \<le> k"
  using assms(2,3)
proof (induction k arbitrary: n)
  case 0
  then show ?case by simp
next
  case (Suc k)
  show ?case
  proof (cases "n < b")
    case True
    then show ?thesis
      using assms(1)
      by (simp add: radix_digits.simps [of b n] low_digits_0 pad_zero_def digit_char_0)
  next
    case False
    with Suc.prems assms(1) have k: "0 < k" and n: "n div b < b ^ k"
      by (auto simp: less_mult_imp_div_less mult.commute intro: gr0I)
    from False assms(1) have rd: "radix_digits b n = radix_digits b (n div b) @ [n mod b]"
      by (simp add: radix_digits.simps [of b n])
    show ?thesis
      using Suc.IH [OF n k] by (simp add: rd pad_zero_def)
  qed
qed

lemma fmt_dec_digits: "n < 10 ^ k \<Longrightarrow> 0 < k \<Longrightarrow> fmt_dec k n = map digit_char (low_digits 10 k n)"
  using low_digits_pad [of 10 n k] by (simp add: fmt_dec_def)

lemma fmt_hex_digits: "n < 16 ^ k \<Longrightarrow> 0 < k \<Longrightarrow> fmt_hex k n = map digit_char (low_digits 16 k n)"
  using low_digits_pad [of 16 n k] by (simp add: fmt_hex_def)

lemma of_char_digit_char:
  "d < 16 \<Longrightarrow> of_char (digit_char d) = (if d < 10 then 48 + d else 55 + d :: nat)"
  by (simp add: digit_char_def)

lemma ascii_digits: "\<forall>d \<in> set ds. d < 16 \<Longrightarrow> ascii (map digit_char ds)"
  by (induction ds) (auto simp: of_char_digit_char)

lemma ascii_low_digits: "0 < b \<Longrightarrow> b \<le> 16 \<Longrightarrow> ascii (map digit_char (low_digits b k n))"
  by (rule ascii_digits) (auto dest: low_digits_less)

subsection \<open>Parsing\<close>

fun dec_value :: "nat \<Rightarrow> string \<Rightarrow> nat option" where
  "dec_value a [] = Some a"
| "dec_value a (c # s) =
     (if 48 \<le> (of_char c :: nat) \<and> (of_char c :: nat) \<le> 57
      then dec_value (10 * a + (of_char c - 48)) s
      else None)"

text \<open>
  \<open>str::parse\<close> for an unsigned type of \<open>w\<close> bits: an optional plus sign, then at least one
  digit and nothing else, and no overflow.
\<close>

definition parse_uint :: "nat \<Rightarrow> string \<Rightarrow> nat option" where
  "parse_uint w s =
     (let digits = (if s \<noteq> [] \<and> hd s = CHR ''+'' then tl s else s) in
      if digits = [] then None
      else case dec_value 0 digits of
             None \<Rightarrow> None
           | Some v \<Rightarrow> if v < 2 ^ w then Some v else None)"

text \<open>\<open>s.parse().unwrap_or(0)\<close>\<close>

definition parse_or_0 :: "string \<Rightarrow> 'a::len word" where
  "parse_or_0 s = (case parse_uint LENGTH('a) s of Some v \<Rightarrow> of_nat v | None \<Rightarrow> 0)"

definition digits_value :: "nat \<Rightarrow> nat list \<Rightarrow> nat" where
  "digits_value b ds = foldl (\<lambda>a d. b * a + d) 0 ds"

lemma digits_value_low: "digits_value b (low_digits b k n) = n mod b ^ k"
proof (induction k arbitrary: n)
  case 0
  then show ?case by (simp add: digits_value_def)
next
  case (Suc k)
  have "digits_value b (low_digits b (Suc k) n) = b * digits_value b (low_digits b k (n div b)) + n mod b"
    by (simp add: digits_value_def)
  also have "\<dots> = n mod b ^ Suc k"
    by (simp add: Suc.IH mod_mult2_eq algebra_simps)
  finally show ?case .
qed

lemma dec_value_digits:
  "\<forall>d \<in> set ds. d < 10 \<Longrightarrow> dec_value a (map digit_char ds) = Some (foldl (\<lambda>a d. 10 * a + d) a ds)"
  by (induction ds arbitrary: a) (auto simp: of_char_digit_char)

lemma digit_char_not_plus: "d < 10 \<Longrightarrow> digit_char d \<noteq> CHR ''+''"
proof
  assume "d < 10" and "digit_char d = CHR ''+''"
  then have "(of_char (CHR ''+'') :: nat) = 48 + d"
    using of_char_digit_char [of d] by simp
  then show False by simp
qed

text \<open>Parsing the lowest \<open>k\<close> decimal digits of a number that has no more gives the number.\<close>

lemma parse_uint_low_digits:
  assumes "n < 10 ^ k" and "n < 2 ^ w" and "0 < k"
  shows "parse_uint w (map digit_char (low_digits 10 k n)) = Some n"
proof -
  let ?ds = "low_digits 10 k n"
  have ds: "\<forall>d \<in> set ?ds. d < 10" using low_digits_less [of 10] by simp
  have ne: "?ds \<noteq> []" using assms(3) by (cases k) auto
  have "hd (map digit_char ?ds) \<noteq> CHR ''+''"
    using ne ds by (cases ?ds) (auto simp: digit_char_not_plus)
  moreover have "dec_value 0 (map digit_char ?ds) = Some n"
    using dec_value_digits [OF ds, of 0] digits_value_low [of 10 k n] assms(1)
    by (simp add: digits_value_def)
  ultimately show ?thesis
    using ne assms(2) by (simp add: parse_uint_def Let_def)
qed

lemma parse_or_0_low_digits:
  "n < 10 ^ k \<Longrightarrow> n < 2 ^ LENGTH('a::len) \<Longrightarrow> 0 < k \<Longrightarrow>
   parse_or_0 (map digit_char (low_digits 10 k n)) = (of_nat n :: 'a word)"
  by (simp add: parse_or_0_def parse_uint_low_digits)

end
