(* ===== verification/World.thy ===== *)
theory World
  imports Bytes
begin

text \<open>
  The global state of \<open>global.rs\<close> the protocol code reads and writes: the atomic counter
  \<open>SEQUENCE\<close>, the random gateway number \<open>ISMG_ID\<close>, and the wall clock
  (\<open>chrono::Local::now()\<close>), which is an arbitrary function of how often it has been read.
  A definition that uses them takes the \<open>world\<close> and returns it updated.

  The counter is advanced by one atomic \<open>fetch_add\<close>, so the calls of all threads fall into
  one order; the lemmas of the locale \<open>counter\<close> hold for every such order.
\<close>

record local_time =
  month :: u32
  day :: u32
  hour :: u32
  minute :: u32
  second :: u32

record world =
  sequence :: u32
  ismg_id :: u32
  clock :: "nat \<Rightarrow> local_time"
  reads :: nat

text \<open>
  The globals when the program starts: \<open>SEQUENCE\<close> and \<open>ISMG_ID\<close> are two random numbers, the second cut
  to six digits.
\<close>

definition new_world :: "u32 \<Rightarrow> u32 \<Rightarrow> (nat \<Rightarrow> local_time) \<Rightarrow> world" where
  "new_world seq rnd time = \<lparr>sequence = seq, ismg_id = rnd mod 1000000, clock = time, reads = 0\<rparr>"

lemma new_world_ismg: "unat (ismg_id (new_world seq rnd time)) < 1000000"
  by (simp add: new_world_def unat_mod)

text \<open>
  What the documentation of \<open>chrono\<close> says of the fields of a time: the hypothesis of the
  properties that need it.
\<close>

definition time_ok :: "local_time \<Rightarrow> bool" where
  "time_ok t \<longleftrightarrow> 1 \<le> month t \<and> month t \<le> 12 \<and> 1 \<le> day t \<and> day t \<le> 31 \<and>
     hour t \<le> 23 \<and> minute t \<le> 59 \<and> second t \<le> 59"

definition clock_ok :: "world \<Rightarrow> bool" where
  "clock_ok w \<longleftrightarrow> (\<forall>n. time_ok (clock w n))"

definition local_now :: "world \<Rightarrow> local_time \<times> world" where
  "local_now w = (clock w (reads w), w\<lparr>reads := Suc (reads w)\<rparr>)"

subsection \<open>The sequence counter\<close>

definition norm_step :: "u32 \<Rightarrow> u32" where
  "norm_step step = (if step = 0 then 1 else step)"

definition get_sequence_id :: "u32 \<Rightarrow> world \<Rightarrow> u32 \<times> world" where
  "get_sequence_id step w =
     (let step = (if step = 0 then 1 else step)
      in (sequence w, w\<lparr>sequence := sequence w + step\<rparr>))"

lemma get_sequence_id_eq:
  "get_sequence_id n w = (sequence w, w\<lparr>sequence := sequence w + norm_step n\<rparr>)"
  by (simp add: get_sequence_id_def norm_step_def)

text \<open>
  The contract of an id source: an allocation returns the current id and moves on by the
  size of the block asked for (at least one).
\<close>

locale counter =
  fixes alloc :: "u32 \<Rightarrow> 's \<Rightarrow> u32 \<times> 's"
    and cur :: "'s \<Rightarrow> u32"
  assumes alloc_id: "fst (alloc n s) = cur s"
    and alloc_cur: "cur (snd (alloc n s)) = cur s + norm_step n"
begin

fun alloc_all :: "u32 list \<Rightarrow> 's \<Rightarrow> u32 list \<times> 's" where
  "alloc_all [] s = ([], s)"
| "alloc_all (n # ns) s =
     (let (i, s') = alloc n s; (is, t) = alloc_all ns s' in (i # is, t))"

definition block :: "u32 \<Rightarrow> u32 \<Rightarrow> u32 list" where
  "block i n = map (\<lambda>k. i + of_nat k) [0..<unat (norm_step n)]"

lemma blocks_consecutive:
  "concat (map2 block (fst (alloc_all ns s)) ns) =
   map (\<lambda>k. cur s + of_nat k) [0..<sum_list (map (\<lambda>n. unat (norm_step n)) ns)]"
proof (induction ns arbitrary: s)
  case Nil
  then show ?case by simp
next
  case (Cons n ns)
  obtain i s' where a: "alloc n s = (i, s')" by fastforce
  have i: "i = cur s" and c: "cur s' = cur s + norm_step n"
    using alloc_id [of n s] alloc_cur [of n s] a by simp_all
  let ?m = "unat (norm_step n)" and ?r = "sum_list (map (\<lambda>n. unat (norm_step n)) ns)"
  have "map (\<lambda>k. cur s' + of_nat k) [0..<?r] = map (\<lambda>k. cur s + of_nat k) [?m..<?m + ?r]"
    by (rule nth_equalityI) (simp_all add: c algebra_simps)
  then have "concat (map2 block (fst (alloc_all ns s')) ns) =
      map (\<lambda>k. cur s + of_nat k) [?m..<?m + ?r]"
    by (simp add: Cons.IH)
  moreover have "[0..<?m + ?r] = [0..<?m] @ [?m..<?m + ?r]"
    by (rule upt_add_eq_append) simp
  ultimately show ?case
    by (cases "alloc_all ns s'") (simp add: a i block_def)
qed

text \<open>No two allocations share an id until the counter has gone once around.\<close>

lemma blocks_distinct:
  assumes "sum_list (map (\<lambda>n. unat (norm_step n)) ns) \<le> 2 ^ 32"
  shows "distinct (concat (map2 block (fst (alloc_all ns s)) ns))"
proof -
  let ?t = "sum_list (map (\<lambda>n. unat (norm_step n)) ns)"
  have "inj_on (\<lambda>k. cur s + of_nat k) {0..<?t}"
  proof (rule inj_onI)
    fix x y
    assume "x \<in> {0..<?t}" "y \<in> {0..<?t}" and eq: "cur s + of_nat x = cur s + of_nat y"
    then have "x < 2 ^ 32" "y < 2 ^ 32" using assms by auto
    moreover have "(of_nat x :: u32) = of_nat y" using eq by simp
    ultimately show "x = y" by (simp add: word_of_nat_eq_iff take_bit_nat_eq_self)
  qed
  then show ?thesis
    by (simp add: blocks_consecutive distinct_map)
qed

end

interpretation seq: counter get_sequence_id sequence
  by unfold_locales (simp_all add: get_sequence_id_eq)

lemma local_now_simps [simp]:
  "sequence (snd (local_now w)) = sequence w"
  "ismg_id (snd (local_now w)) = ismg_id w"
  "clock (snd (local_now w)) = clock w"
  by (simp_all add: local_now_def)

lemma get_sequence_id_simps [simp]:
  "fst (get_sequence_id n w) = sequence w"
  "sequence (snd (get_sequence_id n w)) = sequence w + norm_step n"
  "ismg_id (snd (get_sequence_id n w)) = ismg_id w"
  "clock (snd (get_sequence_id n w)) = clock w"
  "reads (snd (get_sequence_id n w)) = reads w"
  by (simp_all add: get_sequence_id_eq)

text \<open>C33: the ids handed out by \<open>get_sequence_id\<close>, in whatever order the calls of the threads fall,
  form blocks that do not overlap until the counter has gone once around.\<close>

theorem sequence_blocks_distinct:
  assumes "sum_list (map (\<lambda>n. unat (norm_step n)) ns) \<le> 2 ^ 32"
  shows "distinct (concat (map2 seq.block (fst (seq.alloc_all ns w)) ns))"
  by (rule seq.blocks_distinct [OF assms])

definition demo_world :: world where
  "demo_world = \<lparr>sequence = 7, ismg_id = 123456,
     clock = (\<lambda>_. \<lparr>month = 12, day = 31, hour = 23, minute = 59, second = 58\<rparr>), reads = 0\<rparr>"

lemma demo_clock_ok: "clock_ok demo_world"
  by (simp add: clock_ok_def demo_world_def time_ok_def)

lemma sequence_blocks_distinct_witness:
  "distinct (concat (map2 seq.block (fst (seq.alloc_all [1, 0, 5] demo_world)) [1, 0, 5]))"
  by (rule sequence_blocks_distinct) (simp add: norm_step_def)

end
