(* ===== verification/MsgId.thy ===== *)
theory MsgId
  imports Text World
begin

text \<open>
  The message ids of \<open>protocol/implements.rs\<close>.  CMPP packs month, day, hour, minute, second,
  gateway number and sequence into 64 bits and shows them as 22 decimal digits; SGIP shows a
  node number and a 64-bit sequence as hexadecimal and decimal digits; SMGP shows ten bytes
  as hexadecimal digits.  \<open>get_time\<close> is the time stamp \<open>MMDDhhmmss\<close> as a number.
\<close>

subsection \<open>Time\<close>

definition get_time :: "world \<Rightarrow> u32 \<times> world" where
  "get_time w =
     (let (local, w) = local_now w;
          time = month local;
          time = time * 100 + day local;
          time = time * 100 + hour local;
          time = time * 100 + minute local;
          time = time * 100 + second local
      in (time, w))"

lemma get_time_simps [simp]:
  "sequence (snd (get_time w)) = sequence w"
  "ismg_id (snd (get_time w)) = ismg_id w"
  "clock (snd (get_time w)) = clock w"
  by (simp_all add: get_time_def local_now_def Let_def)

subsection \<open>CMPP\<close>

definition create_cmpp_msg_id :: "u32 \<Rightarrow> world \<Rightarrow> u64 \<times> world" where
  "create_cmpp_msg_id len w =
     (let (date, w) = local_now w;
          result = (ucast (month date) :: u64);
          result = push_bit 5 result OR ucast (day date AND 0x1F);
          result = push_bit 5 result OR ucast (hour date AND 0x1F);
          result = push_bit 6 result OR ucast (minute date AND 0x3F);
          result = push_bit 6 result OR ucast (second date AND 0x3F);
          result = push_bit 22 result OR (ucast (ismg_id w) AND 0x3FFFFF);
          (seq, w) = get_sequence_id len w
      in (push_bit 16 result OR ucast (seq AND 0xFFFF), w))"

text \<open>One \<open>for\<close> loop of \<open>cmpp_msg_id_u64_to_str\<close>: digits of \<open>d\<close> leftwards from \<open>us[ind]\<close>.\<close>

fun write_digits :: "nat \<Rightarrow> buf \<Rightarrow> nat \<Rightarrow> u64 \<Rightarrow> buf \<times> nat" where
  "write_digits 0 us ind d = (us, ind)"
| "write_digits (Suc k) us ind d =
     write_digits k (us[ind := 0x30 + ucast (d mod 10)]) (ind - 1) (d div 10)"

definition cmpp_msg_id_u64_to_str :: "u64 \<Rightarrow> string" where
  "cmpp_msg_id_u64_to_str msg_id =
     (let us = replicate 22 0x30;
          (us, ind) = write_digits 5 us 21 (msg_id AND 0xFFFF);
          msg_id = drop_bit 16 msg_id;
          (us, ind) = write_digits 7 us ind (msg_id AND 0x3FFFFF);
          msg_id = drop_bit 22 msg_id;
          (us, ind) = write_digits 2 us ind (msg_id AND 0x3F);
          msg_id = drop_bit 6 msg_id;
          (us, ind) = write_digits 2 us ind (msg_id AND 0x3F);
          msg_id = drop_bit 6 msg_id;
          (us, ind) = write_digits 2 us ind (msg_id AND 0x1F);
          msg_id = drop_bit 5 msg_id;
          (us, ind) = write_digits 2 us ind (msg_id AND 0x1F);
          msg_id = drop_bit 5 msg_id;
          (us, ind) = write_digits 2 us ind (msg_id AND 0x1F)
      in from_bytes us)"

definition cmpp_msg_id_str_to_u64 :: "string \<Rightarrow> world \<Rightarrow> (u64 \<times> world) option" where
  "cmpp_msg_id_str_to_u64 msg_id w =
     (if msg_id = [] then Some (create_cmpp_msg_id 1 w)
      else do {
        (month, dd) \<leftarrow> split_at msg_id 2;
        let month = (parse_or_0 month :: u64);
        (day, dd) \<leftarrow> split_at dd 2;
        let day = (parse_or_0 day :: u64);
        (hour, dd) \<leftarrow> split_at dd 2;
        let hour = (parse_or_0 hour :: u64);
        (minute, dd) \<leftarrow> split_at dd 2;
        let minute = (parse_or_0 minute :: u64);
        (second, dd) \<leftarrow> split_at dd 2;
        let second = (parse_or_0 second :: u64);
        (ismg, seq) \<leftarrow> split_at dd 7;
        let ismg = (parse_or_0 ismg :: u64);
        let seq = (parse_or_0 seq :: u64);
        let result = month;
        let result = push_bit 5 result OR (day AND 0x1F);
        let result = push_bit 5 result OR (hour AND 0x1F);
        let result = push_bit 6 result OR (minute AND 0x3F);
        let result = push_bit 6 result OR (second AND 0x3F);
        let result = push_bit 22 result OR (ismg AND 0x3FFFFF);
        Some (push_bit 16 result OR seq, w)
      })"

text \<open>The digits \<open>write_digits\<close> leaves in the buffer.\<close>

definition dec_bytes :: "nat \<Rightarrow> u64 \<Rightarrow> buf" where
  "dec_bytes k d = map (\<lambda>n. 0x30 + of_nat n) (low_digits 10 k (unat d))"

lemma ucast_digit: "(ucast (d mod 10 :: u64) :: u8) = of_nat (unat d mod 10)"
proof -
  have "unat (d mod 10) = unat d mod 10" by (simp add: unat_mod)
  then show ?thesis by (metis of_nat_unat)
qed

lemma write_digits_mid:
  assumes "length mid = k"
  shows "write_digits k (pre @ mid @ post) (length pre + k - 1) d =
    (pre @ dec_bytes k d @ post, length pre - 1)"
  using assms
proof (induction k arbitrary: mid post d)
  case 0
  then show ?case by (simp add: dec_bytes_def)
next
  case (Suc k)
  then obtain mid' x where mid: "mid = mid' @ [x]" and len: "length mid' = k"
    by (cases mid rule: rev_cases) auto
  let ?c = "0x30 + ucast (d mod 10) :: u8"
  have "(pre @ mid @ post)[length pre + k := ?c] = pre @ mid' @ ?c # post"
    by (simp add: mid len [symmetric] list_update_append)
  then show ?case
    using Suc.IH [OF len, of "?c # post" "d div 10"]
    by (simp add: dec_bytes_def ucast_digit unat_div)
qed

lemma length_dec_bytes [simp]: "length (dec_bytes k d) = k"
  by (simp add: dec_bytes_def)

lemma from_bytes_dec_bytes: "from_bytes (dec_bytes k d) = map digit_char (low_digits 10 k (unat d))"
proof -
  have "char_of (unat (0x30 + of_nat n :: u8)) = digit_char n" if "n < 10" for n
  proof -
    have "unat (0x30 + of_nat n :: u8) = 48 + n"
      using that by (simp add: unat_word_ariths unat_of_nat)
    with that show ?thesis by (simp add: digit_char_def)
  qed
  then show ?thesis
    using low_digits_less [of 10] by (simp add: from_bytes_def dec_bytes_def)
qed

text \<open>The text of an id: its seven bit fields, each as many decimal digits as it can need.\<close>

abbreviation dec :: "nat \<Rightarrow> u64 \<Rightarrow> string" where
  "dec k d \<equiv> map digit_char (low_digits 10 k (unat d))"

lemma cmpp_msg_id_u64_to_str_fields:
  "cmpp_msg_id_u64_to_str m =
   dec 2 (take_bit 5 (drop_bit 60 m)) @ dec 2 (take_bit 5 (drop_bit 55 m)) @
   dec 2 (take_bit 5 (drop_bit 50 m)) @ dec 2 (take_bit 6 (drop_bit 44 m)) @
   dec 2 (take_bit 6 (drop_bit 38 m)) @ dec 7 (take_bit 22 (drop_bit 16 m)) @
   dec 5 (take_bit 16 m)"
proof -
  have r: "replicate 22 (0x30 :: u8) = replicate 17 0x30 @ replicate 5 0x30 @ []"
    by (simp flip: replicate_add)
  have w1: "write_digits 5 (replicate 22 0x30) 21 d = (replicate 17 0x30 @ dec_bytes 5 d @ [], 16)" for d
    using write_digits_mid [of "replicate 5 0x30" 5 "replicate 17 0x30" "[]" d] by (simp add: r)
  have w: "write_digits k (replicate (j + k) 0x30 @ post) (j + k - 1) d =
      (replicate j 0x30 @ dec_bytes k d @ post, j - 1)" for j k post d
    using write_digits_mid [of "replicate k 0x30" k "replicate j 0x30" post d]
    by (simp add: replicate_add)
  have w2: "write_digits 2 (replicate 2 0x30 @ post) (Suc 0) d = (dec_bytes 2 d @ post, 0)" for post d
    using w [of 2 0 post d] by (simp add: numeral_2_eq_2)
  show ?thesis
    using w [of 7 10] w [of 2 8] w [of 2 6] w [of 2 4] w [of 2 2]
    by (simp add: w2 cmpp_msg_id_u64_to_str_def w1 and_mask_take_bit drop_bit_drop_bit from_bytes_dec_bytes)
qed

subsection \<open>The CMPP id and its text\<close>

lemma ascii_dec [simp]: "ascii (dec k d)"
  by (rule ascii_low_digits) simp_all

lemma cmpp_msg_id_u64_to_str_shape:
  "length (cmpp_msg_id_u64_to_str m) = 22" "ascii (cmpp_msg_id_u64_to_str m)"
  by (simp_all add: cmpp_msg_id_u64_to_str_fields)

lemma parse_field:
  fixes m :: u64
  assumes "2 ^ n \<le> (10::nat) ^ k" and "n \<le> 64" and "0 < k"
  shows "(parse_or_0 (dec k (take_bit n m)) :: u64) = take_bit n m"
proof -
  have "unat (take_bit n m) < 2 ^ n" by (rule unat_take_bit_less)
  moreover have "unat (take_bit n m) < 2 ^ 64" using unat_bound [of "take_bit n m"] by simp
  ultimately show ?thesis
    using assms by (simp add: parse_or_0_low_digits)
qed

lemma split_at_dec:
  "length s = n \<Longrightarrow> ascii s \<Longrightarrow> ascii t \<Longrightarrow> split_at (s @ t) n = Some (s, t)"
  by (rule split_at_append) simp_all

lemma cmpp_month_field: "take_bit 5 (drop_bit 60 (m :: u64)) = drop_bit 60 m"
  by (rule bit_word_eqI) (auto simp: bit_simps dest: bit_imp_le_length)

text \<open>Taking an id apart into its text and reading the text gives the id.\<close>

lemma cmpp_msg_id_roundtrip:
  "cmpp_msg_id_str_to_u64 (cmpp_msg_id_u64_to_str m) w = Some (m, w)"
proof -
  have ne: "cmpp_msg_id_u64_to_str m \<noteq> []"
    using cmpp_msg_id_u64_to_str_shape(1) [of m] by auto
  have fill: "push_bit 5 (take_bit 5 (drop_bit 60 m)) OR take_bit 5 (drop_bit 55 m) = drop_bit 55 m"
    "push_bit 5 (drop_bit 55 m) OR take_bit 5 (drop_bit 50 m) = drop_bit 50 m"
    "push_bit 6 (drop_bit 50 m) OR take_bit 6 (drop_bit 44 m) = drop_bit 44 m"
    "push_bit 6 (drop_bit 44 m) OR take_bit 6 (drop_bit 38 m) = drop_bit 38 m"
    "push_bit 22 (drop_bit 38 m) OR take_bit 22 (drop_bit 16 m) = drop_bit 16 m"
    "push_bit 16 (drop_bit 16 m) OR take_bit 16 m = m"
    using refill_field [of 5 55 m] refill_field [of 5 50 m] refill_field [of 6 44 m]
      refill_field [of 6 38 m] refill_field [of 22 16 m] refill_field [of 16 0 m]
    by (simp_all add: cmpp_month_field)
  have parse: "(parse_or_0 (dec 2 (take_bit 5 x)) :: u64) = take_bit 5 x"
    "(parse_or_0 (dec 2 (take_bit 6 x)) :: u64) = take_bit 6 x"
    "(parse_or_0 (dec 7 (take_bit 22 x)) :: u64) = take_bit 22 x"
    "(parse_or_0 (dec 5 (take_bit 16 x)) :: u64) = take_bit 16 x" for x :: u64
    by (simp_all add: parse_field)
  show ?thesis
    using ne
    by (simp add: cmpp_msg_id_str_to_u64_def cmpp_msg_id_u64_to_str_fields split_at_dec
        parse and_mask_take_bit fill del: push_bit_or push_bit_push_bit)
qed

subsection \<open>The id \<open>create_cmpp_msg_id\<close> makes\<close>

lemma pack_drop:
  fixes r x :: u64
  assumes "take_bit k x = x" and "take_bit n r = r" and "n + k \<le> 64"
  shows "drop_bit k (push_bit k r OR x) = r"
proof (rule bit_word_eqI)
  fix i
  assume "i < LENGTH(64)"
  have x: "\<not> bit x (k + i)" using assms(1) by (metis bit_take_bit_iff not_add_less1)
  have r: "bit r i \<longleftrightarrow> i < n \<and> bit r i" using assms(2) by (metis bit_take_bit_iff)
  show "bit (drop_bit k (push_bit k r OR x)) i = bit r i"
    using x r assms(3) by (auto simp: bit_simps)
qed

lemma pack_take:
  fixes r x :: u64
  shows "take_bit k x = x \<Longrightarrow> take_bit k (push_bit k r OR x) = x"
  by (simp add: take_bit_push_bit)

lemma pack_bound:
  fixes r x :: u64
  assumes "take_bit k x = x" and "take_bit n r = r"
  shows "take_bit (n + k) (push_bit k r OR x) = push_bit k r OR x"
proof (rule bit_word_eqI)
  fix i
  have x: "bit x i \<longleftrightarrow> i < k \<and> bit x i" using assms(1) by (metis bit_take_bit_iff)
  have r: "bit r (i - k) \<longleftrightarrow> i - k < n \<and> bit r (i - k)" using assms(2) by (metis bit_take_bit_iff)
  show "bit (take_bit (n + k) (push_bit k r OR x)) i = bit (push_bit k r OR x) i"
    using x r by (auto simp: bit_simps)
qed

lemma unat_ucast_u64 [simp]: "unat (ucast (v :: u32) :: u64) = unat v"
proof -
  have "unat v < 2 ^ 64" using unat_bound [of v] by simp
  then show ?thesis by (simp add: unsigned_ucast_eq unsigned_take_bit_eq take_bit_nat_eq_self)
qed

lemma take_bit_small: "unat (v :: 'a::len word) < 2 ^ k \<Longrightarrow> take_bit k v = v"
  by (simp add: word_unat_eq_iff unsigned_take_bit_eq take_bit_nat_eq_self)

lemma take_bit_ucast_small: "unat (v :: u32) < 2 ^ k \<Longrightarrow> take_bit k (ucast v :: u64) = ucast v"
  by (rule take_bit_small) simp

lemma drop_bit_steps:
  fixes m :: u64
  shows "drop_bit 38 m = drop_bit 22 (drop_bit 16 m)" "drop_bit 44 m = drop_bit 6 (drop_bit 38 m)"
    "drop_bit 50 m = drop_bit 6 (drop_bit 44 m)" "drop_bit 55 m = drop_bit 5 (drop_bit 50 m)"
    "drop_bit 60 m = drop_bit 5 (drop_bit 55 m)"
  by (simp_all add: drop_bit_drop_bit)

text \<open>
  With a clock that keeps to the calendar and a six-digit gateway number the text of a fresh
  id is \<open>MMDDhhmmss\<close>, the gateway number on seven digits and the sequence on five.
\<close>

definition stamp :: "local_time \<Rightarrow> string" where
  "stamp t = fmt_dec 2 (unat (month t)) @ fmt_dec 2 (unat (day t)) @ fmt_dec 2 (unat (hour t)) @
     fmt_dec 2 (unat (minute t)) @ fmt_dec 2 (unat (second t))"

lemma cmpp_fresh_id_text:
  assumes "clock_ok w" and "unat (ismg_id w) < 1000000"
  shows "cmpp_msg_id_u64_to_str (fst (create_cmpp_msg_id n w)) =
    stamp (clock w (reads w)) @ fmt_dec 7 (unat (ismg_id w)) @
    fmt_dec 5 (unat (sequence w) mod 2 ^ 16)"
proof -
  define t where "t = clock w (reads w)"
  have ok: "time_ok t" using assms(1) by (simp add: clock_ok_def t_def)
  have b: "unat (month t) \<le> 12" "unat (day t) \<le> 31" "unat (hour t) \<le> 23"
    "unat (minute t) \<le> 59" "unat (second t) \<le> 59"
    using ok by (simp_all add: time_ok_def word_le_nat_alt)
  define r0 where "r0 = (ucast (month t) :: u64)"
  define r1 where "r1 = push_bit 5 r0 OR ucast (day t)"
  define r2 where "r2 = push_bit 5 r1 OR ucast (hour t)"
  define r3 where "r3 = push_bit 6 r2 OR ucast (minute t)"
  define r4 where "r4 = push_bit 6 r3 OR ucast (second t)"
  define r5 where "r5 = push_bit 22 r4 OR ucast (ismg_id w)"
  define s where "s = take_bit 16 (sequence w)"
  define m where "m = push_bit 16 r5 OR ucast s"
  have s16: "unat s = unat (sequence w) mod 2 ^ 16"
    unfolding s_def unsigned_take_bit_eq by (simp only: take_bit_eq_mod)
  have f: "take_bit 5 (ucast (day t) :: u64) = ucast (day t)"
    "take_bit 5 (ucast (hour t) :: u64) = ucast (hour t)"
    "take_bit 6 (ucast (minute t) :: u64) = ucast (minute t)"
    "take_bit 6 (ucast (second t) :: u64) = ucast (second t)"
    "take_bit 22 (ucast (ismg_id w) :: u64) = ucast (ismg_id w)"
    "take_bit 16 (ucast s :: u64) = ucast s"
    "take_bit 4 r0 = r0"
    using b assms(2) s16 by (simp_all add: take_bit_ucast_small r0_def)
  have n1: "take_bit 9 r1 = r1" using pack_bound [OF f(1) f(7)] by (simp add: r1_def)
  have n2: "take_bit 14 r2 = r2" using pack_bound [OF f(2) n1] by (simp add: r2_def)
  have n3: "take_bit 20 r3 = r3" using pack_bound [OF f(3) n2] by (simp add: r3_def)
  have n4: "take_bit 26 r4 = r4" using pack_bound [OF f(4) n3] by (simp add: r4_def)
  have n5: "take_bit 48 r5 = r5" using pack_bound [OF f(5) n4] by (simp add: r5_def)
  have m: "fst (create_cmpp_msg_id n w) = m"
    using f b by (simp add: create_cmpp_msg_id_def local_now_def get_sequence_id_eq t_def
        and_mask_take_bit take_bit_small m_def r5_def r4_def r3_def r2_def r1_def r0_def s_def)
  have "drop_bit 16 m = r5" unfolding m_def by (rule pack_drop [OF f(6) n5]) simp
  moreover have "drop_bit 22 r5 = r4" unfolding r5_def by (rule pack_drop [OF f(5) n4]) simp
  moreover have "drop_bit 6 r4 = r3" unfolding r4_def by (rule pack_drop [OF f(4) n3]) simp
  moreover have "drop_bit 6 r3 = r2" unfolding r3_def by (rule pack_drop [OF f(3) n2]) simp
  moreover have "drop_bit 5 r2 = r1" unfolding r2_def by (rule pack_drop [OF f(2) n1]) simp
  moreover have "drop_bit 5 r1 = r0" unfolding r1_def by (rule pack_drop [OF f(1) f(7)]) simp
  moreover have "take_bit 5 r0 = r0"
    using b by (simp add: r0_def take_bit_ucast_small)
  moreover have "take_bit 5 r1 = ucast (day t)" "take_bit 5 r2 = ucast (hour t)"
    "take_bit 6 r3 = ucast (minute t)" "take_bit 6 r4 = ucast (second t)"
    "take_bit 22 r5 = ucast (ismg_id w)" "take_bit 16 m = ucast s"
    unfolding r1_def r2_def r3_def r4_def r5_def m_def by (intro pack_take f)+
  ultimately show ?thesis
    using b assms(2) s16
    by (simp add: cmpp_msg_id_u64_to_str_fields m drop_bit_steps r0_def fmt_dec_digits stamp_def
        flip: t_def)
qed

subsection \<open>SGIP\<close>

definition hex_val :: "u8 \<Rightarrow> u8" where
  "hex_val b = (if 65 \<le> b \<and> b \<le> 70 then b - 55 else b - 48)"

definition fold_hex :: "string \<Rightarrow> 'a::len word" where
  "fold_hex s = fold (\<lambda>b n. push_bit 4 n OR ucast (hex_val b)) (as_bytes s) 0"

definition sgip_msg_id_str_to_u64 :: "string \<Rightarrow> (u32 \<times> u64) option" where
  "sgip_msg_id_str_to_u64 msg_id = do {
     node \<leftarrow> str_slice msg_id 0 8;
     let node_id = (fold_hex node :: u32);
     time \<leftarrow> str_slice msg_id 8 18;
     let time = (parse_or_0 time :: u64);
     seq \<leftarrow> str_slice msg_id 18 (length msg_id);
     let seq_id = (fold_hex seq :: u64);
     Some (node_id, push_bit 32 time OR seq_id)
   }"

definition sgip_msg_id_u64_to_str :: "u32 \<Rightarrow> u64 \<Rightarrow> string" where
  "sgip_msg_id_u64_to_str node_id seq_id =
     (let id = seq_id AND 0xffff;
          time = drop_bit 8 seq_id
      in fmt_hex 8 (unat node_id) @ fmt_dec 10 (unat time) @ fmt_hex 8 (unat id))"

subsection \<open>SMGP\<close>

text \<open>The loop body of \<open>smgp_msg_id_str_to_buf\<close>, on \<open>(buf, is_even, num)\<close>.\<close>

fun smgp_nibble :: "u8 \<Rightarrow> buf \<times> bool \<times> u8 \<Rightarrow> buf \<times> bool \<times> u8" where
  "smgp_nibble i (buf, is_even, num) =
     (let num = num + (i - 0x30) in
      if is_even then (put_u8 buf num, False, 0)
      else (buf, True, push_bit 4 (i - 0x30)))"

definition smgp_msg_id_str_to_buf :: "string \<Rightarrow> buf" where
  "smgp_msg_id_str_to_buf msg_id = fst (fold smgp_nibble (as_bytes msg_id) ([], False, 0))"

definition smgp_msg_id_buf_to_str :: "buf \<Rightarrow> string" where
  "smgp_msg_id_buf_to_str buf = concat (map (\<lambda>b. fmt_hex 2 (unat b)) buf)"

subsection \<open>Hexadecimal text\<close>

lemma push_bit_4_or:
  fixes n x :: "'a::len word"
  assumes "take_bit 4 x = x"
  shows "push_bit 4 n OR x = 16 * n + x"
proof -
  have "push_bit 4 n AND x = 0"
  proof (rule bit_word_eqI)
    fix i
    have "bit x i \<longleftrightarrow> i < 4 \<and> bit x i" using assms by (metis bit_take_bit_iff)
    then show "bit (push_bit 4 n AND x) i = bit (0 :: 'a word) i" by (auto simp: bit_simps)
  qed
  then have "push_bit 4 n + x = push_bit 4 n OR x" by (rule disjunctive_add_eq_or)
  then show ?thesis by (simp add: push_bit_eq_mult mult.commute)
qed

lemma byte_of_digit: "d < 16 \<Longrightarrow> (of_nat (of_char (digit_char d)) :: u8) = of_nat (if d < 10 then 48 + d else 55 + d)"
  by (simp add: of_char_digit_char)

lemma hex_val_digit:
  assumes "d < 16"
  shows "hex_val (of_nat (of_char (digit_char d))) = of_nat d"
proof -
  define k where "k = (if d < 10 then 48 + d else 55 + d)"
  have "unat (of_nat k :: u8) = k" using assms by (simp add: k_def unat_of_nat del: of_nat_add)
  then have "65 \<le> (of_nat k :: u8) \<and> of_nat k \<le> (70 :: u8) \<longleftrightarrow> \<not> d < 10"
    using assms by (auto simp: word_le_nat_alt k_def simp del: of_nat_add)
  then have "hex_val (of_nat k) = (if d < 10 then of_nat k - 48 else of_nat k - 55)"
    by (simp add: hex_val_def)
  then show ?thesis
    using byte_of_digit [OF assms] by (auto simp: k_def)
qed

lemma fold_hex_digits:
  assumes "\<forall>d \<in> set ds. d < 16" and "4 \<le> LENGTH('a::len)"
  shows "fold_hex (map digit_char ds) = (of_nat (digits_value 16 ds) :: 'a word)"
  using assms(1)
proof (induction ds rule: rev_induct)
  case Nil
  then show ?case by (simp add: fold_hex_def digits_value_def)
next
  case (snoc d ds)
  have d: "d < 16" using snoc.prems by simp
  have u: "(ucast (of_nat d :: u8) :: 'a word) = of_nat d"
    using d by (simp add: unsigned_of_nat take_bit_nat_eq_self)
  have "take_bit 4 (of_nat d :: 'a word) = of_nat d"
    using d assms(2) by (simp add: take_bit_nat_eq_self flip: of_nat_take_bit)
  then show ?case
    using snoc d by (simp add: fold_hex_def digits_value_def hex_val_digit u push_bit_4_or)
qed

lemma digits_value_append:
  "digits_value b (xs @ ys) = b ^ length ys * digits_value b xs + digits_value b ys"
proof (induction ys rule: rev_induct)
  case Nil
  then show ?case by (simp add: digits_value_def)
next
  case (snoc y ys)
  then show ?case by (simp add: digits_value_def algebra_simps flip: append_assoc)
qed

text \<open>A padded decimal print is a run of digits, at least as long as asked for.\<close>

lemma radix_digits_less: "1 < b \<Longrightarrow> d \<in> set (radix_digits b n) \<Longrightarrow> d < b"
proof (induction b n rule: radix_digits.induct)
  case (1 b n)
  then show ?case by (subst (asm) (2) radix_digits.simps) (auto split: if_splits)
qed

lemma fmt_dec_shape:
  obtains ds where "fmt_dec w n = map digit_char ds" and "\<forall>d \<in> set ds. d < 10" and "w \<le> length ds"
proof
  let ?r = "radix_digits 10 n"
  let ?ds = "replicate (w - length ?r) 0 @ ?r"
  show "fmt_dec w n = map digit_char ?ds"
    by (simp add: fmt_dec_def pad_zero_def digit_char_0)
  show "\<forall>d \<in> set ?ds. d < 10" using radix_digits_less [of 10] by auto
  show "w \<le> length ?ds" by simp
qed

text \<open>
  Reading back the text of a SGIP id never fails and keeps the node number, but of the lower
  half of the sequence only 16 of 32 bits.
\<close>

lemma sgip_msg_id_roundtrip:
  "\<exists>s. sgip_msg_id_str_to_u64 (sgip_msg_id_u64_to_str node seq) = Some (node, s) \<and>
     take_bit 32 s = take_bit 16 seq"
proof -
  let ?N = "low_digits 16 8 (unat node)" and ?I = "low_digits 16 8 (unat (take_bit 16 seq))"
  obtain ds where D: "fmt_dec 10 (unat (drop_bit 8 seq)) = map digit_char ds"
    and dsl: "\<forall>d \<in> set ds. d < 10" and len: "10 \<le> length ds"
    by (rule fmt_dec_shape)
  have lt: "unat node < 16 ^ 8" "unat (take_bit 16 seq) < 16 ^ 8"
    using unat_bound [of node] unat_take_bit_less [of 16 seq] by simp_all
  define t where "t = sgip_msg_id_u64_to_str node seq"
  have t: "t = map digit_char (?N @ ds @ ?I)"
    using lt by (simp add: t_def sgip_msg_id_u64_to_str_def D and_mask_take_bit fmt_hex_digits)
  have dg: "\<forall>d \<in> set ?N. d < 16" "\<forall>d \<in> set ?I. d < 16" "\<forall>d \<in> set ds. d < 16"
    using low_digits_less [of 16] dsl by auto
  then have a: "ascii t" unfolding t by (intro ascii_digits) auto
  have sl: "str_slice t i j = Some (take (j - i) (drop i t))" if "i \<le> j" "j \<le> length t" for i j
    using that a ascii_char_boundary by (simp add: str_slice_def)
  have lt': "length t = 16 + length ds" by (simp add: t)
  have node: "(fold_hex (map digit_char ?N) :: u32) = node"
    using lt dg by (simp add: fold_hex_digits digits_value_low)
  let ?R = "drop 10 ds @ ?I"
  have R: "\<forall>d \<in> set ?R. d < 16" using dg by (auto dest: in_set_dropD)
  have "take_bit 32 (fold_hex (map digit_char ?R) :: u64) = take_bit 16 seq"
  proof -
    have "take_bit 32 (of_nat (digits_value 16 ?R) :: u64) = of_nat (take_bit 32 (digits_value 16 ?R))"
      by (simp add: of_nat_take_bit)
    also have "take_bit 32 (digits_value 16 ?R) = unat (take_bit 16 seq)"
      using lt by (simp add: digits_value_append digits_value_low take_bit_eq_mod)
    finally show ?thesis using fold_hex_digits [OF R, where ?'a = 64] by simp
  qed
  moreover have "take 8 t = map digit_char ?N" "drop 18 t = map digit_char ?R"
    using len by (simp_all add: t drop_map)
  ultimately show ?thesis
    using len lt' node by (simp add: sgip_msg_id_str_to_u64_def sl take_bit_push_bit flip: t_def)
qed

subsection \<open>BCD text of SMGP\<close>

definition bcd :: "u8 \<Rightarrow> bool" where
  "bcd b \<longleftrightarrow> unat b div 16 < 10 \<and> unat b mod 16 < 10"

lemma fmt_hex_byte: "fmt_hex 2 (unat (b :: u8)) = [digit_char (unat b div 16), digit_char (unat b mod 16)]"
proof -
  have "unat b < 256" using unat_bound [of b] by simp
  then show ?thesis by (simp add: fmt_hex_digits numeral_2_eq_2 mod_less less_mult_imp_div_less)
qed

definition shift_digit :: "nat \<Rightarrow> u8" where
  "shift_digit d = of_nat (if d < 10 then d else d + 7)"

lemma smgp_two_digits:
  "d < 16 \<Longrightarrow> e < 16 \<Longrightarrow>
   fold smgp_nibble (as_bytes [digit_char d, digit_char e]) (buf, False, 0) =
   (buf @ [16 * shift_digit d + shift_digit e], False, 0)"
  by (auto simp: byte_of_digit shift_digit_def Let_def put_u8_def push_bit_eq_mult algebra_simps)

definition smgp_byte :: "u8 \<Rightarrow> u8" where
  "smgp_byte b = 16 * shift_digit (unat b div 16) + shift_digit (unat b mod 16)"

lemma smgp_byte_eq: "smgp_byte b = b \<longleftrightarrow> bcd b"
proof -
  let ?h = "unat b div 16" and ?l = "unat b mod 16"
  let ?c = "(if ?h < 10 then 0 else 112) + (if ?l < 10 then 0 else 7) :: u8"
  have "b = of_nat (16 * ?h + ?l)" by simp
  then have b: "b = 16 * of_nat ?h + of_nat ?l" by (metis of_nat_add of_nat_mult of_nat_numeral)
  have "smgp_byte b = (16 * of_nat ?h + of_nat ?l) + ?c"
    by (simp add: smgp_byte_def shift_digit_def algebra_simps)
  then have "smgp_byte b = b + ?c" using b by simp
  then show ?thesis by (simp add: bcd_def)
qed

lemma smgp_fold_bytes:
  "fold smgp_nibble (as_bytes (smgp_msg_id_buf_to_str bs)) (buf, False, 0) =
   (buf @ map smgp_byte bs, False, 0)"
proof (induction bs arbitrary: buf)
  case Nil
  then show ?case by (simp add: smgp_msg_id_buf_to_str_def)
next
  case (Cons b bs)
  have "unat b div 16 < 16" using unat_bound [of b] by (simp add: less_mult_imp_div_less)
  then have *: "fold smgp_nibble (as_bytes (fmt_hex 2 (unat b))) (buf, False, 0) = (buf @ [smgp_byte b], False, 0)"
    unfolding fmt_hex_byte smgp_byte_def by (intro smgp_two_digits) simp_all
  have "as_bytes (smgp_msg_id_buf_to_str (b # bs)) =
      as_bytes (fmt_hex 2 (unat b)) @ as_bytes (smgp_msg_id_buf_to_str bs)"
    by (simp add: smgp_msg_id_buf_to_str_def)
  then show ?case by (simp only: fold_append comp_apply * Cons) simp
qed

text \<open>A SMGP id survives the passage through text exactly when all its digits are decimal.\<close>

lemma smgp_msg_id_roundtrip:
  "smgp_msg_id_str_to_buf (smgp_msg_id_buf_to_str bs) = bs \<longleftrightarrow> (\<forall>b \<in> set bs. bcd b)"
proof -
  have "smgp_msg_id_str_to_buf (smgp_msg_id_buf_to_str bs) = map smgp_byte bs"
    by (simp add: smgp_msg_id_str_to_buf_def smgp_fold_bytes)
  then show ?thesis
    by (metis (mono_tags, lifting) list.map_ident map_eq_conv smgp_byte_eq)
qed

subsection \<open>Properties\<close>

text \<open>C34: every 64-bit CMPP id is shown as 22 ASCII digits, and the text is read back as the same id,
  without touching the clock or the counter.\<close>

theorem cmpp_id_text_roundtrip:
  "length (cmpp_msg_id_u64_to_str m) = 22 \<and> ascii (cmpp_msg_id_u64_to_str m) \<and>
   cmpp_msg_id_str_to_u64 (cmpp_msg_id_u64_to_str m) w = Some (m, w)"
  using cmpp_msg_id_u64_to_str_shape cmpp_msg_id_roundtrip by blast

text \<open>A fresh CMPP id reads as the time stamp \<open>MMDDhhmmss\<close>, the gateway number on seven digits
  and the lower 16 bits of the sequence on five.\<close>

theorem create_cmpp_msg_id_text:
  assumes "clock_ok w" and "unat (ismg_id w) < 1000000"
  shows "cmpp_msg_id_u64_to_str (fst (create_cmpp_msg_id n w)) =
    stamp (clock w (reads w)) @ fmt_dec 7 (unat (ismg_id w)) @
    fmt_dec 5 (unat (sequence w) mod 2 ^ 16)"
  by (rule cmpp_fresh_id_text [OF assms])

lemma low_digits_numeral: "low_digits b (numeral k) n = low_digits b (pred_numeral k) (n div b) @ [n mod b]"
  by (simp add: numeral_eq_Suc)

lemma create_cmpp_msg_id_text_witness:
  "cmpp_msg_id_u64_to_str (fst (create_cmpp_msg_id 1 demo_world)) = ''1231235958012345600007''"
proof -
  have t: "stamp (clock demo_world (reads demo_world)) = ''1231235958''"
    by (simp add: demo_world_def stamp_def fmt_dec_digits low_digits_numeral digit_char_def char_of_def bit_Suc_0_iff)
  have i: "fmt_dec 7 (unat (ismg_id demo_world)) = ''0123456''"
    by (simp add: demo_world_def fmt_dec_digits low_digits_numeral digit_char_def char_of_def bit_Suc_0_iff)
  have q: "fmt_dec 5 (unat (sequence demo_world) mod 2 ^ 16) = ''00007''"
    by (simp add: demo_world_def fmt_dec_digits low_digits_numeral digit_char_def char_of_def bit_Suc_0_iff)
  have "unat (ismg_id demo_world) < 1000000" by (simp add: demo_world_def)
  from create_cmpp_msg_id_text [OF demo_clock_ok this, of 1] show ?thesis
    by (simp only: t i q append.simps)
qed

text \<open>The text of a SGIP id is always read back, with the node number intact, but of the lower
  half of the sequence only 16 of its 32 bits survive.\<close>

theorem sgip_id_text_loses_bits:
  "\<exists>s. sgip_msg_id_str_to_u64 (sgip_msg_id_u64_to_str node seq) = Some (node, s) \<and>
     take_bit 32 s = take_bit 16 seq"
  by (rule sgip_msg_id_roundtrip)

text \<open>C35: a SMGP id survives the passage through text exactly when all its digits are decimal.\<close>

theorem smgp_id_text_roundtrip:
  "smgp_msg_id_str_to_buf (smgp_msg_id_buf_to_str bs) = bs \<longleftrightarrow> list_all bcd bs"
  by (simp add: smgp_msg_id_roundtrip list_all_iff)

end
