(* ===== verification/Json.thy ===== *)
theory Json
  imports Prelude
begin

text \<open>
  The JSON objects the gateway passes between its tasks (\<open>json::JsonValue\<close>), and the field
  names of \<open>protocol/names.rs\<close>.

  An object keeps its members in insertion order.  Reading \<open>json[KEY]\<close> where the key is
  missing, or where the value is no object, gives null; assigning \<open>json[KEY] = v\<close> replaces
  the member or appends it, and makes an object of a value that is none.  Numbers are the
  integers the gateway writes and reads; numbers with a fraction or an exponent are not
  modelled.  Strings are the UTF-8 bytes of the text, one \<open>char\<close> per byte.
\<close>

datatype json =
    JNull
  | JBool bool
  | JNum int
  | JStr string
  | JArr "json list"
  | JObj "(string \<times> json) list"

subsection \<open>Access\<close>

fun idx :: "json \<Rightarrow> string \<Rightarrow> json" where
  "idx (JObj kvs) k = (case map_of kvs k of Some v \<Rightarrow> v | None \<Rightarrow> JNull)"
| "idx _ k = JNull"

fun idx_n :: "json \<Rightarrow> nat \<Rightarrow> json" where
  "idx_n (JArr xs) i = (if i < length xs then xs ! i else JNull)"
| "idx_n _ i = JNull"

fun setk :: "json \<Rightarrow> string \<Rightarrow> json \<Rightarrow> json" where
  "setk (JObj kvs) k v = JObj (AList.update k v kvs)"
| "setk _ k v = JObj [(k, v)]"

text \<open>\<open>json.remove(KEY)\<close> returns the member it takes out; \<open>removek\<close> is what is left.\<close>

fun removek :: "json \<Rightarrow> string \<Rightarrow> json" where
  "removek (JObj kvs) k = JObj (AList.delete k kvs)"
| "removek j k = j"

definition new_object :: json where
  "new_object = JObj []"

fun as_str :: "json \<Rightarrow> string option" where
  "as_str (JStr s) = Some s"
| "as_str _ = None"

fun as_bool :: "json \<Rightarrow> bool option" where
  "as_bool (JBool b) = Some b"
| "as_bool _ = None"

text \<open>\<open>as_u8\<close>, \<open>as_u32\<close>, \<open>as_u64\<close> and \<open>as_usize\<close> give a value only when it fits.\<close>

fun as_word :: "json \<Rightarrow> 'a::len word option" where
  "as_word (JNum i) = (if 0 \<le> i \<and> i < 2 ^ LENGTH('a) then Some (word_of_int i) else None)"
| "as_word _ = None"

abbreviation as_u8 :: "json \<Rightarrow> u8 option" where
  "as_u8 \<equiv> as_word"

abbreviation as_u32 :: "json \<Rightarrow> u32 option" where
  "as_u32 \<equiv> as_word"

abbreviation as_u64 :: "json \<Rightarrow> u64 option" where
  "as_u64 \<equiv> as_word"

fun as_i64 :: "json \<Rightarrow> int option" where
  "as_i64 (JNum i) = (if - (2 ^ 63) \<le> i \<and> i < 2 ^ 63 then Some i else None)"
| "as_i64 _ = None"

fun is_array :: "json \<Rightarrow> bool" where
  "is_array (JArr _) = True"
| "is_array _ = False"

text \<open>\<open>is_null\<close>, and \<open>is_empty\<close>: null, false, zero, and the empty string, array and object.\<close>

fun is_null :: "json \<Rightarrow> bool" where
  "is_null JNull = True"
| "is_null _ = False"

fun is_empty :: "json \<Rightarrow> bool" where
  "is_empty JNull = True"
| "is_empty (JBool b) = (\<not> b)"
| "is_empty (JNum i) = (i = 0)"
| "is_empty (JStr s) = (s = [])"
| "is_empty (JArr xs) = (xs = [])"
| "is_empty (JObj kvs) = (kvs = [])"

fun jlen :: "json \<Rightarrow> nat" where
  "jlen (JArr xs) = length xs"
| "jlen (JObj kvs) = length kvs"
| "jlen _ = 0"

fun members :: "json \<Rightarrow> json list" where
  "members (JArr xs) = xs"
| "members _ = []"

text \<open>
  \<open>members().for_each(|item| v.push(item.as_str().unwrap()))\<close>: a member that is no string
  is a panic.
\<close>

fun unwrap_strs :: "json list \<Rightarrow> string list option" where
  "unwrap_strs [] = Some []"
| "unwrap_strs (x # xs) =
     (case as_str x of
        None \<Rightarrow> None
      | Some s \<Rightarrow> map_option (Cons s) (unwrap_strs xs))"

subsection \<open>Conversions into JSON\<close>

abbreviation num :: "'a::len word \<Rightarrow> json" where
  "num w \<equiv> JNum (uint w)"

abbreviation nums :: "'a::len word list \<Rightarrow> json" where
  "nums ws \<equiv> JArr (map (\<lambda>w. JNum (uint w)) ws)"

abbreviation strs :: "string list \<Rightarrow> json" where
  "strs ss \<equiv> JArr (map JStr ss)"

subsection \<open>Laws\<close>

lemma idx_new_object [simp, json_simps]: "idx new_object k = JNull"
  by (simp add: new_object_def)

lemma idx_setk [simp, json_simps]: "idx (setk j k v) k' = (if k = k' then v else idx j k')"
  by (cases j) (simp_all add: update_conv)

lemma idx_removek [simp, json_simps]: "idx (removek j k) k' = (if k = k' then JNull else idx j k')"
  by (cases j) (auto simp: delete_conv)

lemma as_word_num [simp, json_simps]: "as_word (num (w :: 'a::len word)) = Some (w :: 'a word)"
  using uint_bounded [of w] by simp

lemma as_word_wider:
  fixes w :: "'b::len word"
  assumes "LENGTH('b) \<le> LENGTH('a::len)"
  shows "(as_word (num w) :: 'a word option) = Some (ucast w)"
proof -
  have "uint w < 2 ^ LENGTH('b)" by (rule uint_lt2p)
  also have "\<dots> \<le> (2 :: int) ^ LENGTH('a)" using assms by (rule power_increasing) simp
  finally show ?thesis by simp
qed

lemma as_u32_num8 [simp, json_simps]: "as_word (num (w :: u8)) = Some (ucast w :: u32)"
  by (rule as_word_wider) simp

lemma as_u64_num32 [simp, json_simps]: "as_word (num (w :: u32)) = Some (ucast w :: u64)"
  by (rule as_word_wider) simp

lemma unwrap_strs_map [simp]: "unwrap_strs (map JStr ss) = Some ss"
  by (induction ss) auto

lemma unwrap_strs_Some: "unwrap_strs js = Some ss \<Longrightarrow> js = map JStr ss"
proof (induction js arbitrary: ss)
  case Nil
  then show ?case by simp
next
  case (Cons j js)
  then obtain s ss' where "j = JStr s" and "unwrap_strs js = Some ss'" and "ss = s # ss'"
    by (cases j) auto
  with Cons.IH show ?case by simp
qed

lemma unwrap_strs_length: "unwrap_strs js = Some ss \<Longrightarrow> length ss = length js"
  by (drule unwrap_strs_Some) simp

lemma is_arrayE:
  assumes "is_array j"
  obtains xs where "j = JArr xs"
  using assms by (cases j) auto

declare as_word.simps(1) [simp del]

subsection \<open>Field names\<close>

abbreviation (input) SEQ_ID :: string where
  "SEQ_ID \<equiv> ''seq_id''"

abbreviation (input) SEQ_IDS :: string where
  "SEQ_IDS \<equiv> ''seq_ids''"

abbreviation (input) AUTHENTICATOR :: string where
  "AUTHENTICATOR \<equiv> ''authenticator''"

abbreviation (input) VERSION :: string where
  "VERSION \<equiv> ''protocolVersion''"

abbreviation (input) TIMESTAMP :: string where
  "TIMESTAMP \<equiv> ''timestamp''"

abbreviation (input) MSG_TYPE_U32 :: string where
  "MSG_TYPE_U32 \<equiv> ''m_t''"

abbreviation (input) MSG_TYPE_STR :: string where
  "MSG_TYPE_STR \<equiv> ''msg_type''"

abbreviation (input) RECEIVE_TIME :: string where
  "RECEIVE_TIME \<equiv> ''receive_time''"

abbreviation (input) SMGP_RECEIVE_TIME :: string where
  "SMGP_RECEIVE_TIME \<equiv> ''r_t''"

abbreviation (input) DURATION :: string where
  "DURATION \<equiv> ''duration''"

abbreviation (input) ENTITY_ID :: string where
  "ENTITY_ID \<equiv> ''entity_id''"

abbreviation (input) CHANNEL_ID :: string where
  "CHANNEL_ID \<equiv> ''channel_id''"

abbreviation (input) WAIT_RECEIPT :: string where
  "WAIT_RECEIPT \<equiv> ''wait_receipt''"

abbreviation (input) STATUS :: string where
  "STATUS \<equiv> ''status''"

abbreviation (input) MSG_ID :: string where
  "MSG_ID \<equiv> ''msg_id''"

abbreviation (input) ACCOUNT_MSG_ID :: string where
  "ACCOUNT_MSG_ID \<equiv> ''account_msg_id''"

abbreviation (input) PASSAGE_MSG_ID :: string where
  "PASSAGE_MSG_ID \<equiv> ''passage_msg_id''"

abbreviation (input) NEED_RE_SEND :: string where
  "NEED_RE_SEND \<equiv> ''need_re_send''"

abbreviation (input) MSG_IDS :: string where
  "MSG_IDS \<equiv> ''msg_ids''"

abbreviation (input) IS_REPORT :: string where
  "IS_REPORT \<equiv> ''is_report''"

abbreviation (input) RESULT :: string where
  "RESULT \<equiv> ''result''"

abbreviation (input) SPEED_LIMIT :: string where
  "SPEED_LIMIT \<equiv> ''speed_limit''"

abbreviation (input) MSG_CONTENT :: string where
  "MSG_CONTENT \<equiv> ''msg_content''"

abbreviation (input) SERVICE_ID :: string where
  "SERVICE_ID \<equiv> ''serviceId''"

abbreviation (input) RESP_NODE_ID :: string where
  "RESP_NODE_ID \<equiv> ''resp_node_id''"

abbreviation (input) TEXT :: string where
  "TEXT \<equiv> ''text''"

abbreviation (input) RESP_SEQ_ID :: string where
  "RESP_SEQ_ID \<equiv> ''resp_seq_id''"

abbreviation (input) PASSWORD :: string where
  "PASSWORD \<equiv> ''password''"

abbreviation (input) ADDRESS :: string where
  "ADDRESS \<equiv> ''gatewayIp''"

abbreviation (input) NODE_ID :: string where
  "NODE_ID \<equiv> ''nodeId''"

abbreviation (input) LOGIN_NAME :: string where
  "LOGIN_NAME \<equiv> ''loginName''"

abbreviation (input) STATE :: string where
  "STATE \<equiv> ''state''"

abbreviation (input) CAN_WRITE :: string where
  "CAN_WRITE \<equiv> ''can_write''"

abbreviation (input) SUBMIT_TIME :: string where
  "SUBMIT_TIME \<equiv> ''submit_time''"

abbreviation (input) SMSC_SEQUENCE :: string where
  "SMSC_SEQUENCE \<equiv> ''smsc_sequence''"

abbreviation (input) DONE_TIME :: string where
  "DONE_TIME \<equiv> ''done_time''"

abbreviation (input) TP_UDHI :: string where
  "TP_UDHI \<equiv> ''tp_udhi''"

abbreviation (input) SP_ID :: string where
  "SP_ID \<equiv> ''spId''"

abbreviation (input) CROP_ID :: string where
  "CROP_ID \<equiv> ''corpId''"

abbreviation (input) VALID_TIME :: string where
  "VALID_TIME \<equiv> ''valid_time''"

abbreviation (input) AT_TIME :: string where
  "AT_TIME \<equiv> ''at_time''"

abbreviation (input) ERROR_CODE :: string where
  "ERROR_CODE \<equiv> ''error_code''"

abbreviation (input) SRC_ID :: string where
  "SRC_ID \<equiv> ''src_id''"

abbreviation (input) DEST_ID :: string where
  "DEST_ID \<equiv> ''dest_id''"

abbreviation (input) DEST_IDS :: string where
  "DEST_IDS \<equiv> ''dest_ids''"

abbreviation (input) MSG_FMT :: string where
  "MSG_FMT \<equiv> ''msg_fmt''"

abbreviation (input) DEST_LEN :: string where
  "DEST_LEN \<equiv> ''dest_len''"

abbreviation (input) READ_LIMIT :: string where
  "READ_LIMIT \<equiv> ''readLimit''"

abbreviation (input) PROTOCOL :: string where
  "PROTOCOL \<equiv> ''protocolType''"

abbreviation (input) ALLOW_ADDRS :: string where
  "ALLOW_ADDRS \<equiv> ''allowedAddr''"

abbreviation (input) MAX_CHANNEL_NUMBER :: string where
  "MAX_CHANNEL_NUMBER \<equiv> ''connNum''"

abbreviation (input) WRITE_LIMIT :: string where
  "WRITE_LIMIT \<equiv> ''writeLimit''"

abbreviation (input) NAME :: string where
  "NAME \<equiv> ''name''"

abbreviation (input) OP_NAME :: string where
  "OP_NAME \<equiv> ''op_name''"

abbreviation (input) MAX_BUFF_CAP :: string where
  "MAX_BUFF_CAP \<equiv> ''maxBuffCap''"

abbreviation (input) GATEWAY_LOGIN_NAME :: string where
  "GATEWAY_LOGIN_NAME \<equiv> ''gatewayServerUsername''"

abbreviation (input) GATEWAY_PASSWORD :: string where
  "GATEWAY_PASSWORD \<equiv> ''gatewayServerPassword''"

abbreviation (input) LONG_SMS_TOTAL :: string where
  "LONG_SMS_TOTAL \<equiv> ''l_s_total''"

abbreviation (input) LONG_SMS_NOW_NUMBER :: string where
  "LONG_SMS_NOW_NUMBER \<equiv> ''l_s_n_number''"

abbreviation (input) MANAGER_TYPE :: string where
  "MANAGER_TYPE \<equiv> ''manager_type''"

abbreviation (input) IS_PRIORITY :: string where
  "IS_PRIORITY \<equiv> ''is_priority''"

abbreviation (input) ID :: string where
  "ID \<equiv> ''id''"

end
