(* ===== verification/Content.thy ===== *)
theory Content
  imports MsgId Json
begin

text \<open>
  Short message content (\<open>encode_msg_content\<close>, \<open>decode_msg_content\<close> of
  \<open>protocol/implements.rs\<close>), its division into segments, which all eight submit and deliver
  encoders do in the same way, and the framing of protocol data units.

  The character set converters of crate \<open>encoding\<close> and the digest of crate \<open>md5\<close> are not
  part of the repository: they are the fields of a record \<open>ext\<close> the definitions take.
\<close>

record ext =
  md5 :: "buf \<Rightarrow> buf"
  utf16be_encode :: "string \<Rightarrow> buf option"
  utf16be_decode :: "buf \<Rightarrow> string option"
  gbk_encode :: "string \<Rightarrow> buf option"
  gbk_decode :: "buf \<Rightarrow> string option"

text \<open>
  What the documentation of the two crates says: a digest has 16 bytes, and strict decoding
  undoes strict encoding.
\<close>

definition ext_ok :: "ext \<Rightarrow> bool" where
  "ext_ok x \<longleftrightarrow> (\<forall>b. length (md5 x b) = 16) \<and>
     (\<forall>s b. utf16be_encode x s = Some b \<longrightarrow> utf16be_decode x b = Some s) \<and>
     (\<forall>s b. gbk_encode x s = Some b \<longrightarrow> gbk_decode x b = Some s)"

subsection \<open>Character sets\<close>

definition encode_msg_content :: "ext \<Rightarrow> u8 \<Rightarrow> string \<Rightarrow> io_error + buf" where
  "encode_msg_content x msg_fmt msg_content =
     (if msg_fmt = 8 then
        (case utf16be_encode x msg_content of Some v \<Rightarrow> Inr v | None \<Rightarrow> Inl InvalidInput)
      else if msg_fmt = 15 then
        (case gbk_encode x msg_content of Some v \<Rightarrow> Inr v | None \<Rightarrow> Inl InvalidInput)
      else if msg_fmt = 0 then Inr (as_bytes msg_content)
      else Inl NotFound)"

definition decode_charset :: "ext \<Rightarrow> u8 \<Rightarrow> buf \<Rightarrow> io_error + string" where
  "decode_charset x msg_fmt msg_content =
     (if msg_fmt = 8 then
        (case utf16be_decode x msg_content of Some v \<Rightarrow> Inr v | None \<Rightarrow> Inl Other)
      else if msg_fmt = 15 then
        (case gbk_decode x msg_content of Some v \<Rightarrow> Inr v | None \<Rightarrow> Inl Other)
      else if msg_fmt = 0 then
        (case from_utf8 msg_content of Some v \<Rightarrow> Inr v | None \<Rightarrow> Inl Other)
      else Inl Other)"

definition decode_msg_content ::
    "ext \<Rightarrow> buf \<Rightarrow> u8 \<Rightarrow> u8 \<Rightarrow> json \<Rightarrow> bool \<Rightarrow> (buf \<times> json) res" where
  "decode_msg_content x buf msg_fmt msg_content_len json is_long_sms = do {
     r \<leftarrow> (if is_long_sms then do {
         (head_len, buf) \<leftarrow> get_u8 buf;
         buf \<leftarrow> advance buf (unat (head_len - 2));
         (total, buf) \<leftarrow> get_u8 buf;
         let json = setk json LONG_SMS_TOTAL (num total);
         (now, buf) \<leftarrow> get_u8 buf;
         let json = setk json LONG_SMS_NOW_NUMBER (num now);
         let json = setk json TP_UDHI (JNum 1);
         if msg_content_len > head_len + 1
         then Ok (buf, json, msg_content_len - head_len - 1)
         else Err Other
       }
       else Ok (buf, json, msg_content_len));
     case r of
       Inl e \<Rightarrow> Err e
     | Inr (buf, json, msg_content_len) \<Rightarrow>
         (let (msg_content, buf) = copy_to_bytes buf (unat msg_content_len) in
          case decode_charset x msg_fmt msg_content of
            Inl e \<Rightarrow> Err e
          | Inr msg_content \<Rightarrow> Ok (buf, setk json MSG_CONTENT (JStr msg_content)))
   }"

lemma decode_encode_charset:
  assumes "ext_ok x" and "valid_str s" and "encode_msg_content x fmt s = Inr b"
  shows "decode_charset x fmt b = Inr s"
  using assms
  by (auto simp: encode_msg_content_def decode_charset_def ext_ok_def from_utf8_as_bytes
      split: if_splits option.splits)

subsection \<open>How many segments: single precision division\<close>

text \<open>
  \<open>((len as f32) / one as f32).ceil() as usize\<close>.  A positive \<open>f32\<close> is \<open>m * 2 ^ e\<close> with \<open>m\<close> of
  24 bits, and conversion and division round to the nearest such number, ties to even.
  \<open>round_ne a b\<close> is the integer nearest to \<open>a / b\<close>.
\<close>

definition round_ne :: "nat \<Rightarrow> nat \<Rightarrow> nat" where
  "round_ne a b =
     (let q = a div b; r = a mod b in
      if 2 * r < b \<or> (2 * r = b \<and> even q) then q else q + 1)"

fun ilog2 :: "nat \<Rightarrow> nat" where
  "ilog2 n = (if n < 2 then 0 else Suc (ilog2 (n div 2)))"

declare ilog2.simps [simp del]

definition f32_of_nat :: "nat \<Rightarrow> nat" where
  "f32_of_nat n =
     (if n < 2 ^ 24 then n else let e = ilog2 n - 23 in round_ne n (2 ^ e) * 2 ^ e)"

text \<open>The quotient is \<open>q * 2 ^ L / 2 ^ 23\<close> with \<open>L\<close> its binary exponent; then the ceiling.\<close>

definition f32_div_ceil :: "nat \<Rightarrow> nat \<Rightarrow> nat" where
  "f32_div_ceil a b =
     (let L = ilog2 (a div b);
          q = round_ne (a * 2 ^ 23) (b * 2 ^ L)
      in if L \<le> 23 then (q + 2 ^ (23 - L) - 1) div 2 ^ (23 - L) else q * 2 ^ (L - 23))"

lemma round_ne_bounds:
  assumes "0 < b"
  shows "2 * (round_ne a b * b) \<le> 2 * a + b" "2 * a \<le> 2 * (round_ne a b * b) + b"
proof -
  define q where "q = a div b"
  define r where "r = a mod b"
  have a: "2 * a = 2 * (q * b) + 2 * r" unfolding q_def r_def by (simp flip: distrib_left)
  have r: "r < b" using assms by (simp add: r_def)
  have rn: "round_ne a b * b = (if 2 * r < b \<or> (2 * r = b \<and> even q) then q * b else q * b + b)"
    by (simp add: round_ne_def Let_def flip: q_def r_def)
  show "2 * (round_ne a b * b) \<le> 2 * a + b" using a r rn by (simp split: if_splits)
  show "2 * a \<le> 2 * (round_ne a b * b) + b" using a r rn by (simp split: if_splits)
qed

lemma ilog2_le: "n < 2 ^ Suc m \<Longrightarrow> ilog2 n \<le> m"
proof (induction m arbitrary: n)
  case 0
  then show ?case by (simp add: ilog2.simps)
next
  case (Suc m)
  then show ?case by (subst ilog2.simps) auto
qed

text \<open>Below \<open>2 ^ 24\<close> bytes the division by 134 is rounded up as in exact arithmetic.\<close>

lemma f32_div_ceil_134:
  assumes "len < 2 ^ 24"
  shows "f32_div_ceil (f32_of_nat len) 134 = (len + 133) div 134"
proof -
  define L where "L = ilog2 (len div 134)"
  define P :: nat where "P = 2 ^ (23 - L)"
  define q where "q = round_ne (len * 2 ^ 23) (134 * 2 ^ L)"
  define c where "c = (len + 133) div 134"
  have "len div 134 < 2 ^ Suc 16" using assms by (simp add: div_less_iff_less_mult)
  then have L: "L \<le> 16" unfolding L_def by (rule ilog2_le)
  then have "(2::nat) ^ 7 \<le> P" unfolding P_def by (intro power_increasing) auto
  then have P: "128 \<le> P" by simp
  have PL: "(2::nat) ^ 23 = P * 2 ^ L" using L unfolding P_def by (simp flip: power_add)
  have "2 * (q * (134 * 2 ^ L)) \<le> 2 * (len * (P * 2 ^ L)) + 134 * 2 ^ L"
    "2 * (len * (P * 2 ^ L)) \<le> 2 * (q * (134 * 2 ^ L)) + 134 * 2 ^ L"
    using round_ne_bounds [of "134 * 2 ^ L" "len * (P * 2 ^ L)"] by (simp_all add: q_def flip: PL)
  then have "(268 * q) * 2 ^ L \<le> (2 * (len * P) + 134) * 2 ^ L"
    "(2 * (len * P)) * 2 ^ L \<le> (268 * q + 134) * 2 ^ L"
    by (simp_all add: algebra_simps)
  then have up: "268 * q \<le> 2 * (len * P) + 134" and lo: "2 * (len * P) \<le> 268 * q + 134"
    by simp_all
  have c: "len \<le> 134 * c" "0 < len \<Longrightarrow> 134 * (c - 1) + 1 \<le> len"
    using mult_div_mod_eq [of 134 "len + 133"] mod_less_divisor [of 134 "len + 133"]
    by (simp_all flip: c_def)
  have "len * P \<le> (134 * c) * P" using c(1) by (rule mult_le_mono1)
  then have q1: "q \<le> c * P" using up by linarith
  have main: "(q + P - 1) div P = c"
  proof (cases "len = 0")
    case True
    then show ?thesis using P up by (simp add: c_def)
  next
    case False
    then have "0 < c" by (simp add: c_def div_greater_zero_iff)
    have "(134 * (c - 1) + 1) * P \<le> len * P" using c(2) False by (intro mult_le_mono1) simp
    then have "134 * ((c - 1) * P) + P \<le> len * P" by (simp add: algebra_simps)
    then have q2: "(c - 1) * P < q" using lo P by linarith
    have cP: "c * P = (c - 1) * P + P" using \<open>0 < c\<close> by (cases c) auto
    have "(q + P - 1) = c * P + (q - (c - 1) * P - 1)" using q2 cP by linarith
    moreover have "q - (c - 1) * P - 1 < P" using q1 cP P by linarith
    ultimately show ?thesis using P by (simp add: div_mult_self1)
  qed
  have "f32_div_ceil len 134 = (q + P - 1) div P"
    using L unfolding f32_div_ceil_def Let_def L_def [symmetric] q_def [symmetric] P_def [symmetric]
    by simp
  then show ?thesis using assms main by (simp add: f32_of_nat_def c_def)
qed

subsection \<open>Segments\<close>

text \<open>
  \<open>sms_head\<close> is the prologue the encoders share: header length, content bytes per segment,
  the byte that ties the segments together, and the number of segments.  \<open>segment\<close> is
  \<open>this_msg_content\<close>, with the range checks of the slices.
\<close>

definition sms_head :: "nat \<Rightarrow> world \<Rightarrow> (nat \<times> nat \<times> u8 \<times> nat) \<times> world" where
  "sms_head msg_content_len w =
     (if msg_content_len \<le> 140 then ((0, 140, 0, 1), w)
      else
        let one_content_len = 140 - 6;
            (s, w) = get_sequence_id 1 w
        in ((6, one_content_len, ucast s,
             f32_div_ceil (f32_of_nat msg_content_len) one_content_len), w))"

definition slice :: "buf \<Rightarrow> nat \<Rightarrow> nat \<Rightarrow> buf option" where
  "slice b i j = (if i \<le> j \<and> j \<le> length b then Some (take (j - i) (drop i b)) else None)"

definition segment :: "buf \<Rightarrow> nat \<Rightarrow> nat \<Rightarrow> nat \<Rightarrow> buf option" where
  "segment code one_content_len sms_len i =
     (if i = sms_len - 1 then slice code (i * one_content_len) (length code)
      else slice code (i * one_content_len) ((i + 1) * one_content_len))"

text \<open>The concatenated message header written when there are several segments.\<close>

definition put_head :: "buf \<Rightarrow> nat \<Rightarrow> u8 \<Rightarrow> nat \<Rightarrow> nat \<Rightarrow> buf" where
  "put_head dst msg_content_head_len msg_content_seq_id sms_len i =
     (if msg_content_head_len > 0 then
        (let dst = put_u8 dst 5;
             dst = put_u8 dst 0;
             dst = put_u8 dst 3;
             dst = put_u8 dst msg_content_seq_id;
             dst = put_u8 dst (of_nat sms_len)
         in put_u8 dst (of_nat (i + 1)))
      else dst)"

lemma put_head_eq [wire_simps, frame_simps]:
  "put_head dst h s n i = dst @ (if 0 < h then [5, 0, 3, s, of_nat n, of_nat (i + 1)] else [])"
  by (simp add: put_head_def put_u8_def)

definition seg_count :: "nat \<Rightarrow> nat" where
  "seg_count len = (if len \<le> 140 then 1 else (len + 133) div 134)"

lemma sms_headE:
  assumes "sms_head len w = ((h, one, s, n), w')" and "len < 2 ^ 24"
  obtains (single) "len \<le> 140" "h = 0" "one = 140" "n = 1" "s = 0" "w' = w"
  | (multi) "140 < len" "h = 6" "one = 134" "n = (len + 133) div 134" "s = ucast (sequence w)"
      "w' = snd (get_sequence_id 1 w)"
  using assms f32_div_ceil_134 [of len]
  by (auto simp: sms_head_def get_sequence_id_eq split: if_splits)

lemma sms_head_count:
  "sms_head len w = ((h, one, s, n), w') \<Longrightarrow> len < 2 ^ 24 \<Longrightarrow> n = seg_count len"
  by (erule sms_headE) (simp_all add: seg_count_def)

lemma sms_head_fits:
  assumes "sms_head len w = ((h, one, s, n), w')" and "len < 2 ^ 24"
  shows "0 < n" "(n - 1) * one \<le> len" "len \<le> n * one" "one + h = 140" "h = 0 \<or> h = 6"
proof -
  have "0 < n \<and> (n - 1) * one \<le> len \<and> len \<le> n * one \<and> one + h = 140 \<and> (h = 0 \<or> h = 6)"
    using assms
  proof (cases rule: sms_headE)
    case multi
    define c where "c = (len + 133) div 134"
    have "134 * c + (len + 133) mod 134 = len + 133" unfolding c_def by (rule mult_div_mod_eq)
    moreover have "(len + 133) mod 134 < 134" by simp
    ultimately have "0 < c" "(c - 1) * 134 \<le> len" "len \<le> c * 134" using multi by linarith+
    then show ?thesis using multi by (simp add: c_def)
  qed auto
  then show "0 < n" "(n - 1) * one \<le> len" "len \<le> n * one" "one + h = 140" "h = 0 \<or> h = 6"
    by blast+
qed

lemma segment_Some:
  assumes "(n - 1) * one \<le> length code" and "length code \<le> n * one" and "i < n"
  shows "segment code one n i = Some (take one (drop (i * one) code))"
proof (cases "i = n - 1")
  case True
  have "n * one = (n - 1) * one + one" using assms(3) by (cases n) auto
  then have "length code - i * one \<le> one" using assms(2) True by simp
  then show ?thesis using True assms by (simp add: segment_def slice_def)
next
  case False
  then have "i + 1 \<le> n - 1" using assms(3) by simp
  then have "(i + 1) * one \<le> (n - 1) * one" by (rule mult_le_mono1)
  then have "(i + 1) * one \<le> length code" using assms(1) by linarith
  then show ?thesis using False by (simp add: segment_def slice_def)
qed

text \<open>
  The contract of a splitter: the segments put together are the content, and each fits with
  its header into the 140 bytes of a short message.
\<close>

lemma concat_chunks:
  "concat (map (\<lambda>i. take k (drop (i * k) xs)) [0..<n]) = take (n * k) xs"
proof (induction n)
  case 0
  then show ?case by simp
next
  case (Suc n)
  then show ?case by (simp add: add.commute flip: take_add)
qed

definition segments :: "buf \<Rightarrow> buf list" where
  "segments code =
     (let one = (if length code \<le> 140 then 140 else 134)
      in map (\<lambda>i. take one (drop (i * one) code)) [0..<seg_count (length code)])"

lemma sms_head_segments:
  assumes "sms_head (length code) w = ((h, one, s, n), w')" and "length code < 2 ^ 24"
  shows "length (segments code) = n"
    and "i < n \<Longrightarrow> segment code one n i = Some (segments code ! i)"
proof -
  have one: "one = (if length code \<le> 140 then 140 else 134)"
    using assms by (cases rule: sms_headE) simp_all
  have n: "n = seg_count (length code)" by (rule sms_head_count [OF assms])
  show "length (segments code) = n" by (simp add: segments_def n)
  show "i < n \<Longrightarrow> segment code one n i = Some (segments code ! i)"
    using segment_Some [OF sms_head_fits(2,3) [OF assms]]
    by (simp add: segments_def Let_def flip: one n)
qed

lemma seg_count_covers: "len \<le> seg_count len * (if len \<le> 140 then 140 else 134)"
proof -
  define c where "c = (len + 133) div 134"
  have "134 * c + (len + 133) mod 134 = len + 133" unfolding c_def by (rule mult_div_mod_eq)
  moreover have "(len + 133) mod 134 < 134" by simp
  ultimately have "len \<le> c * 134" by linarith
  then show ?thesis by (simp add: seg_count_def flip: c_def)
qed

lemma seg_count_pos [simp]: "0 < seg_count len"
  by (simp add: seg_count_def div_greater_zero_iff)

lemma segments_concat: "concat (segments code) = code"
  using seg_count_covers [of "length code"]
  by (simp add: segments_def Let_def concat_chunks del: upt_Suc)

lemma segments_length: "seg \<in> set (segments code) \<Longrightarrow> length seg \<le> (if length code \<le> 140 then 140 else 134)"
  by (auto simp: segments_def Let_def)

subsection \<open>Frames\<close>

text \<open>
  Every protocol data unit starts with its own length in four bytes, the length field
  included.  \<open>split_frames\<close> takes a stream of them apart by these lengths.
\<close>

definition pdu_ok :: "buf \<Rightarrow> bool" where
  "pdu_ok p \<longleftrightarrow> 4 \<le> length p \<and> be_nat (take 4 p) = length p"

function split_frames :: "buf \<Rightarrow> buf list option" where
  "split_frames b =
     (if b = [] then Some []
      else let n = be_nat (take 4 b) in
        if length b < 4 \<or> n < 4 \<or> length b < n then None
        else map_option (Cons (take n b)) (split_frames (drop n b)))"
  by pat_completeness auto
termination
  by (relation "measure length") auto

declare split_frames.simps [simp del]

lemma split_frames_Nil [simp]: "split_frames [] = Some []"
  by (simp add: split_frames.simps)

lemma split_frames_append:
  assumes "pdu_ok p"
  shows "split_frames (p @ b) = map_option (Cons p) (split_frames b)"
  using assms by (subst split_frames.simps) (auto simp: pdu_ok_def Let_def)

lemma split_frames_concat: "\<forall>p \<in> set ps. pdu_ok p \<Longrightarrow> split_frames (concat ps) = Some ps"
  by (induction ps) (simp_all add: split_frames_append)

lemma split_frames_single: "pdu_ok p \<Longrightarrow> split_frames p = Some [p]"
  using split_frames_append [of p "[]"] by simp

lemma pdu_ok_put: "unat (n :: u32) = 4 + length b \<Longrightarrow> pdu_ok (be_bytes 4 (unat n) @ b)"
  using unat_bound [of n] by (simp add: pdu_ok_def)

lemma pdu_ok_append [frame_simps]: "pdu_ok (be_bytes 4 n @ r) \<longleftrightarrow> n mod 2 ^ 32 = 4 + length r"
  by (simp add: pdu_ok_def)

lemma unat_mod [simp]:
  "unat (v :: u32) mod 4294967296 = unat v"
  "unat (u :: u64) mod 18446744073709551616 = unat u"
  using unat_bound [of v] unat_bound [of u] by simp_all

text \<open>
  The fields of a unit: the number at an offset, and the content between the fixed fields
  before it and behind it.
\<close>

definition pdu_u32 :: "nat \<Rightarrow> buf \<Rightarrow> u32" where
  "pdu_u32 off p = of_nat (be_nat (take 4 (drop off p)))"

definition pdu_u64 :: "nat \<Rightarrow> buf \<Rightarrow> u64" where
  "pdu_u64 off p = of_nat (be_nat (take 8 (drop off p)))"

definition pdu_content :: "nat \<Rightarrow> nat \<Rightarrow> buf \<Rightarrow> buf" where
  "pdu_content off tail p = take (length p - tail - off) (drop off p)"

lemmas pdu_field_defs = pdu_u32_def pdu_u64_def pdu_content_def

text \<open>
  The invariant of the encoding loops: the buffer is a row of well-formed units that carry
  the contents \<open>cs\<close> and the numbers \<open>sq\<close>, in this order.
\<close>

definition sent :: "(buf \<Rightarrow> 'a) \<Rightarrow> nat \<Rightarrow> nat \<Rightarrow> buf \<Rightarrow> buf list \<Rightarrow> 'a list \<Rightarrow> bool" where
  "sent g off tail b cs sq \<longleftrightarrow>
     (\<exists>ps. b = concat ps \<and> (\<forall>p \<in> set ps. pdu_ok p) \<and> map (pdu_content off tail) ps = cs \<and> map g ps = sq)"

lemma sent_Nil [simp]: "sent g off tail [] [] []"
  by (simp add: sent_def)

lemma sent_snoc:
  assumes "sent g off tail b cs sq" and "pdu_ok p" and "pdu_content off tail p = c" and "g p = s"
  shows "sent g off tail (b @ p) (cs @ [c]) (sq @ [s])"
proof -
  obtain ps where "b = concat ps" "\<forall>p \<in> set ps. pdu_ok p"
    "map (pdu_content off tail) ps = cs" "map g ps = sq"
    using assms(1) by (auto simp: sent_def)
  then show ?thesis
    using assms(2-4) unfolding sent_def by (intro exI [of _ "ps @ [p]"]) auto
qed

lemma sent_split:
  assumes "sent g off tail b cs sq"
  shows "\<exists>ps. split_frames b = Some ps \<and> map (pdu_content off tail) ps = cs \<and> map g ps = sq"
  using assms split_frames_concat by (fastforce simp: sent_def)

lemma segment_bound:
  assumes "sms_head (length code) v = ((h, one, s, n), v')" and "length code < 2 ^ 24" and "i < n"
  shows "segment code one n i = Some (segments code ! i)"
    "length (segments code ! i) + h \<le> 140" "h = 0 \<or> h = 6"
    "take (Suc i) (segments code) = take i (segments code) @ [segments code ! i]"
proof -
  show 1: "segment code one n i = Some (segments code ! i)"
    by (rule sms_head_segments(2) [OF assms])
  have "segments code ! i = take one (drop (i * one) code)"
    using 1 segment_Some [OF sms_head_fits(2,3) [OF assms(1,2)] assms(3)] by simp
  then show "length (segments code ! i) + h \<le> 140" "h = 0 \<or> h = 6"
    using sms_head_fits(4,5) [OF assms(1,2)] by auto
  show "take (Suc i) (segments code) = take i (segments code) @ [segments code ! i]"
    using sms_head_segments(1) [OF assms(1,2)] assms(3) by (simp add: take_Suc_conv_app_nth)
qed

end
