(* ===== verification/MsgType.thy ===== *)
theory MsgType
  imports World
begin

text \<open>
  \<open>protocol/msg_type.rs\<close> and the id tables of the protocols: message types and their names,
  status values, and the numbers each protocol gives them on the wire
  (\<open>get_type_id\<close>, \<open>get_type_enum\<close>, \<open>get_status_id\<close>, \<open>get_status_enum\<close>,
  \<open>is_speed_limit\<close>).  The trait \<open>ProtocolImpl\<close> gives default tables, which SMGP and SGIP
  override.  A \<open>match\<close> over numbers or strings is a table searched in the order of its arms.
\<close>

datatype MsgType =
    Connect
  | ConnectResp
  | Terminate
  | TerminateResp
  | Submit
  | SubmitResp
  | Deliver
  | DeliverResp
  | Report
  | ReportResp
  | Query
  | QueryResp
  | Cancel
  | CancelResp
  | ActiveTest
  | ActiveTestResp
  | Fwd
  | FwdResp
  | MtRoute
  | MtRouteResp
  | MoRoute
  | MoRouteResp
  | GetMtRoute
  | GetMtRouteResp
  | MtRouteUpdate
  | MtRouteUpdateResp
  | MoRouteUpdate
  | MoRouteUpdateResp
  | PushMtRouteUpdate
  | PushMtRouteUpdateResp
  | PushMoRouteUpdate
  | PushMoRouteUpdateResp
  | GetMoRoute
  | GetMoRouteResp
  | UNKNOWN

datatype SmsStatus =
    Success
  | MessageError
  | AddError
  | AuthError
  | VersionError
  | OtherError
  | TrafficRestrictions
  | StatusUnknown

text \<open>The variants of \<open>enum Protocol\<close>; the framing codec each carries is a parameter.\<close>

datatype protocol = CMPP48 | CMPP32 | SMGP | SGIP | SMPP | NoProtocol

definition lookup_or :: "('k \<times> 'v) list \<Rightarrow> 'v \<Rightarrow> 'k \<Rightarrow> 'v" where
  "lookup_or table dflt k = (case map_of table k of Some v \<Rightarrow> v | None \<Rightarrow> dflt)"

subsection \<open>Names\<close>

definition msg_type_from_str :: "string \<Rightarrow> MsgType" where
  "msg_type_from_str = lookup_or
     [(''Submit'', Submit),
      (''SubmitResp'', SubmitResp),
      (''Deliver'', Deliver),
      (''DeliverResp'', DeliverResp),
      (''Report'', Report),
      (''ReportResp'', ReportResp),
      (''Connect'', Connect),
      (''ConnectResp'', ConnectResp),
      (''Terminate'', Terminate),
      (''TerminateResp'', TerminateResp),
      (''Query'', Query),
      (''QueryResp'', QueryResp),
      (''Cancel'', Cancel),
      (''CancelResp'', CancelResp),
      (''ActiveTest'', ActiveTest),
      (''ActiveTestResp'', ActiveTestResp),
      (''Fwd'', Fwd),
      (''FwdResp'', FwdResp),
      (''MtRoute'', MtRoute),
      (''MtRouteResp'', MtRouteResp),
      (''MoRoute'', MoRoute),
      (''MoRouteResp'', MoRouteResp),
      (''GetMtRoute'', GetMtRoute),
      (''GetMtRouteResp'', GetMtRouteResp),
      (''MtRouteUpdate'', MtRouteUpdate),
      (''MtRouteUpdateResp'', MtRouteUpdateResp),
      (''MoRouteUpdate'', MoRouteUpdate),
      (''MoRouteUpdateResp'', MoRouteUpdateResp),
      (''PushMtRouteUpdate'', PushMtRouteUpdate),
      (''PushMtRouteUpdateResp'', PushMtRouteUpdateResp),
      (''PushMoRouteUpdate'', PushMoRouteUpdate),
      (''PushMoRouteUpdateResp'', PushMoRouteUpdateResp),
      (''GetMoRoute'', GetMoRoute),
      (''GetMoRouteResp'', GetMoRouteResp)]
     UNKNOWN"

fun msg_type_to_str :: "MsgType \<Rightarrow> string" where
  "msg_type_to_str Submit = ''Submit''"
| "msg_type_to_str SubmitResp = ''SubmitResp''"
| "msg_type_to_str Deliver = ''Deliver''"
| "msg_type_to_str DeliverResp = ''DeliverResp''"
| "msg_type_to_str Report = ''Report''"
| "msg_type_to_str ReportResp = ''ReportResp''"
| "msg_type_to_str Connect = ''Connect''"
| "msg_type_to_str ConnectResp = ''ConnectResp''"
| "msg_type_to_str Terminate = ''Terminate''"
| "msg_type_to_str TerminateResp = ''TerminateResp''"
| "msg_type_to_str Query = ''Query''"
| "msg_type_to_str QueryResp = ''QueryResp''"
| "msg_type_to_str Cancel = ''Cancel''"
| "msg_type_to_str CancelResp = ''CancelResp''"
| "msg_type_to_str ActiveTest = ''ActiveTest''"
| "msg_type_to_str ActiveTestResp = ''ActiveTestResp''"
| "msg_type_to_str Fwd = ''Fwd''"
| "msg_type_to_str FwdResp = ''FwdResp''"
| "msg_type_to_str MtRoute = ''MtRoute''"
| "msg_type_to_str MtRouteResp = ''MtRouteResp''"
| "msg_type_to_str MoRoute = ''MoRoute''"
| "msg_type_to_str MoRouteResp = ''MoRouteResp''"
| "msg_type_to_str GetMtRoute = ''GetMtRoute''"
| "msg_type_to_str GetMtRouteResp = ''GetMtRouteResp''"
| "msg_type_to_str MtRouteUpdate = ''MtRouteUpdate''"
| "msg_type_to_str MtRouteUpdateResp = ''MtRouteUpdateResp''"
| "msg_type_to_str MoRouteUpdate = ''MoRouteUpdate''"
| "msg_type_to_str MoRouteUpdateResp = ''MoRouteUpdateResp''"
| "msg_type_to_str PushMtRouteUpdate = ''PushMtRouteUpdate''"
| "msg_type_to_str PushMtRouteUpdateResp = ''PushMtRouteUpdateResp''"
| "msg_type_to_str PushMoRouteUpdate = ''PushMoRouteUpdate''"
| "msg_type_to_str PushMoRouteUpdateResp = ''PushMoRouteUpdateResp''"
| "msg_type_to_str GetMoRoute = ''GetMoRoute''"
| "msg_type_to_str GetMoRouteResp = ''GetMoRouteResp''"
| "msg_type_to_str UNKNOWN = ''UnKnow''"

definition status_from_str :: "string \<Rightarrow> SmsStatus" where
  "status_from_str = lookup_or
     [(''Success'', Success),
      (''MessageError'', MessageError),
      (''AddError'', AddError),
      (''AuthError'', AuthError),
      (''VersionError'', VersionError),
      (''LoginOtherError'', OtherError),
      (''TrafficRestrictions'', TrafficRestrictions)]
     StatusUnknown"

fun status_to_str :: "SmsStatus \<Rightarrow> string" where
  "status_to_str Success = ''Success''"
| "status_to_str MessageError = ''MessageError''"
| "status_to_str AddError = ''AddError''"
| "status_to_str AuthError = ''AuthError''"
| "status_to_str VersionError = ''VersionError''"
| "status_to_str OtherError = ''LoginOtherError''"
| "status_to_str TrafficRestrictions = ''TrafficRestrictions''"
| "status_to_str StatusUnknown = ''UNKNOWN''"

subsection \<open>Message type numbers\<close>

fun default_type_id :: "MsgType \<Rightarrow> u32" where
  "default_type_id Submit = 0x4"
| "default_type_id SubmitResp = 0x80000004"
| "default_type_id Deliver = 0x5"
| "default_type_id DeliverResp = 0x80000005"
| "default_type_id Report = 0x1000005"
| "default_type_id ReportResp = 0x81000005"
| "default_type_id Connect = 0x1"
| "default_type_id ConnectResp = 0x80000001"
| "default_type_id Terminate = 0x2"
| "default_type_id TerminateResp = 0x80000002"
| "default_type_id Query = 0x6"
| "default_type_id QueryResp = 0x80000006"
| "default_type_id Cancel = 0x7"
| "default_type_id CancelResp = 0x80000007"
| "default_type_id ActiveTest = 0x8"
| "default_type_id ActiveTestResp = 0x80000008"
| "default_type_id Fwd = 0x9"
| "default_type_id FwdResp = 0x80000009"
| "default_type_id MtRoute = 0x10"
| "default_type_id MtRouteResp = 0x80000010"
| "default_type_id MoRoute = 0x11"
| "default_type_id MoRouteResp = 0x80000011"
| "default_type_id GetMtRoute = 0x12"
| "default_type_id GetMtRouteResp = 0x80000012"
| "default_type_id MtRouteUpdate = 0x13"
| "default_type_id MtRouteUpdateResp = 0x80000013"
| "default_type_id MoRouteUpdate = 0x14"
| "default_type_id MoRouteUpdateResp = 0x80000014"
| "default_type_id PushMtRouteUpdate = 0x15"
| "default_type_id PushMtRouteUpdateResp = 0x80000015"
| "default_type_id PushMoRouteUpdate = 0x16"
| "default_type_id PushMoRouteUpdateResp = 0x80000016"
| "default_type_id GetMoRoute = 0x17"
| "default_type_id GetMoRouteResp = 0x80000017"
| "default_type_id UNKNOWN = 0"

definition default_type_enum :: "u32 \<Rightarrow> MsgType" where
  "default_type_enum = lookup_or
     [(0x4, Submit),
      (0x80000004, SubmitResp),
      (0x5, Deliver),
      (0x80000005, DeliverResp),
      (0x1000005, Report),
      (0x81000005, ReportResp),
      (0x1, Connect),
      (0x80000001, ConnectResp),
      (0x2, Terminate),
      (0x80000002, TerminateResp),
      (0x6, Query),
      (0x80000006, QueryResp),
      (0x7, Cancel),
      (0x80000007, CancelResp),
      (0x8, ActiveTest),
      (0x80000008, ActiveTestResp),
      (0x9, Fwd),
      (0x80000009, FwdResp),
      (0x10, MtRoute),
      (0x80000010, MtRouteResp),
      (0x11, MoRoute),
      (0x80000011, MoRouteResp),
      (0x12, GetMtRoute),
      (0x80000012, GetMtRouteResp),
      (0x13, MtRouteUpdate),
      (0x80000013, MtRouteUpdateResp),
      (0x14, MoRouteUpdate),
      (0x80000014, MoRouteUpdateResp),
      (0x15, PushMtRouteUpdate),
      (0x80000015, PushMtRouteUpdateResp),
      (0x16, PushMoRouteUpdate),
      (0x80000016, PushMoRouteUpdateResp),
      (0x17, GetMoRoute),
      (0x80000017, GetMoRouteResp)]
     UNKNOWN"

fun smgp_type_id :: "MsgType \<Rightarrow> u32" where
  "smgp_type_id Submit = 0x2"
| "smgp_type_id SubmitResp = 0x80000002"
| "smgp_type_id Deliver = 0x3"
| "smgp_type_id DeliverResp = 0x80000003"
| "smgp_type_id Report = 0x5"
| "smgp_type_id ReportResp = 0x80000005"
| "smgp_type_id ActiveTest = 0x4"
| "smgp_type_id ActiveTestResp = 0x80000004"
| "smgp_type_id Connect = 0x1"
| "smgp_type_id ConnectResp = 0x80000001"
| "smgp_type_id Terminate = 0x6"
| "smgp_type_id TerminateResp = 0x80000006"
| "smgp_type_id _ = 0"

definition smgp_type_enum :: "u32 \<Rightarrow> MsgType" where
  "smgp_type_enum = lookup_or
     [(0x2, Submit),
      (0x80000002, SubmitResp),
      (0x3, Deliver),
      (0x80000003, DeliverResp),
      (0x5, Report),
      (0x80000005, ReportResp),
      (0x4, ActiveTest),
      (0x80000004, ActiveTestResp),
      (0x1, Connect),
      (0x80000001, ConnectResp),
      (0x6, Terminate),
      (0x80000006, TerminateResp)]
     UNKNOWN"

fun sgip_type_id :: "MsgType \<Rightarrow> u32" where
  "sgip_type_id Submit = 0x3"
| "sgip_type_id SubmitResp = 0x80000003"
| "sgip_type_id Deliver = 0x4"
| "sgip_type_id DeliverResp = 0x80000004"
| "sgip_type_id Report = 0x5"
| "sgip_type_id ReportResp = 0x80000005"
| "sgip_type_id Connect = 0x1"
| "sgip_type_id ConnectResp = 0x80000001"
| "sgip_type_id Terminate = 0x2"
| "sgip_type_id TerminateResp = 0x80000002"
| "sgip_type_id Query = 0x7"
| "sgip_type_id QueryResp = 0x80000007"
| "sgip_type_id Cancel = 0x8"
| "sgip_type_id CancelResp = 0x80000008"
| "sgip_type_id ActiveTest = 0x9"
| "sgip_type_id ActiveTestResp = 0x80000009"
| "sgip_type_id UNKNOWN = 0"
| "sgip_type_id _ = 0"

definition sgip_type_enum :: "u32 \<Rightarrow> MsgType" where
  "sgip_type_enum = lookup_or
     [(0x3, Submit),
      (0x80000003, SubmitResp),
      (0x4, Deliver),
      (0x80000004, DeliverResp),
      (0x5, Report),
      (0x80000005, ReportResp),
      (0x1, Connect),
      (0x80000001, ConnectResp),
      (0x2, Terminate),
      (0x80000002, TerminateResp),
      (0x7, Query),
      (0x80000007, QueryResp),
      (0x8, Cancel),
      (0x80000008, CancelResp),
      (0x9, ActiveTest),
      (0x80000009, ActiveTestResp)]
     UNKNOWN"

fun get_type_id :: "protocol \<Rightarrow> MsgType \<Rightarrow> u32" where
  "get_type_id SMGP t = smgp_type_id t"
| "get_type_id SGIP t = sgip_type_id t"
| "get_type_id _ t = default_type_id t"

fun get_type_enum :: "protocol \<Rightarrow> u32 \<Rightarrow> MsgType" where
  "get_type_enum SMGP v = smgp_type_enum v"
| "get_type_enum SGIP v = sgip_type_enum v"
| "get_type_enum _ v = default_type_enum v"

subsection \<open>Status numbers\<close>

fun default_status_id :: "SmsStatus \<Rightarrow> u32" where
  "default_status_id Success = 0"
| "default_status_id MessageError = 1"
| "default_status_id AddError = 2"
| "default_status_id AuthError = 3"
| "default_status_id VersionError = 4"
| "default_status_id TrafficRestrictions = 8"
| "default_status_id OtherError = 5"
| "default_status_id StatusUnknown = 999"

definition default_status_enum :: "u32 \<Rightarrow> SmsStatus" where
  "default_status_enum = lookup_or
     [(0, Success), (1, MessageError), (2, AddError), (3, AuthError), (4, VersionError),
      (8, TrafficRestrictions), (5, OtherError)]
     OtherError"

fun smgp_status_id :: "SmsStatus \<Rightarrow> u32" where
  "smgp_status_id Success = 0"
| "smgp_status_id MessageError = 3"
| "smgp_status_id AddError = 2"
| "smgp_status_id AuthError = 21"
| "smgp_status_id VersionError = 29"
| "smgp_status_id TrafficRestrictions = 134"
| "smgp_status_id OtherError = 5"
| "smgp_status_id StatusUnknown = 99"

definition smgp_status_enum :: "u32 \<Rightarrow> SmsStatus" where
  "smgp_status_enum = lookup_or
     [(0, Success), (3, MessageError), (2, AddError), (21, AuthError), (29, VersionError),
      (134, TrafficRestrictions), (99, OtherError)]
     OtherError"

fun sgip_status_id :: "SmsStatus \<Rightarrow> u32" where
  "sgip_status_id Success = 0"
| "sgip_status_id MessageError = 7"
| "sgip_status_id AddError = 2"
| "sgip_status_id AuthError = 1"
| "sgip_status_id VersionError = 4"
| "sgip_status_id TrafficRestrictions = 101"
| "sgip_status_id OtherError = 5"
| "sgip_status_id StatusUnknown = 999"

definition sgip_status_enum :: "u32 \<Rightarrow> SmsStatus" where
  "sgip_status_enum = lookup_or
     [(0, Success), (7, MessageError), (2, AddError), (1, AuthError), (4, VersionError),
      (101, TrafficRestrictions), (5, OtherError)]
     OtherError"

fun get_status_id :: "protocol \<Rightarrow> SmsStatus \<Rightarrow> u32" where
  "get_status_id SMGP s = smgp_status_id s"
| "get_status_id SGIP s = sgip_status_id s"
| "get_status_id _ s = default_status_id s"

text \<open>
  The status tables of the protocol implementations; what \<open>Protocol::get_status_enum\<close>
  answers for \<open>Protocol::None\<close> is in theory \<open>Dispatch\<close>.
\<close>

fun impl_status_enum :: "protocol \<Rightarrow> u32 \<Rightarrow> SmsStatus" where
  "impl_status_enum SMGP v = smgp_status_enum v"
| "impl_status_enum SGIP v = sgip_status_enum v"
| "impl_status_enum _ v = default_status_enum v"

text \<open>The result code by which a peer says that it is being sent too much.\<close>

fun is_speed_limit :: "protocol \<Rightarrow> u32 \<Rightarrow> bool" where
  "is_speed_limit SMGP code = (code = 75)"
| "is_speed_limit SGIP code = (code = 88)"
| "is_speed_limit _ code = (code = 8)"

lemmas table_defs =
  lookup_or_def msg_type_from_str_def status_from_str_def
  default_type_enum_def smgp_type_enum_def sgip_type_enum_def
  default_status_enum_def smgp_status_enum_def sgip_status_enum_def

subsection \<open>Codes and their meaning\<close>

text \<open>
  A code assigns numbers (or names) to the values of a type; what is \<open>known\<close> to it comes back
  unchanged.
\<close>

locale wire_code =
  fixes to_wire :: "'a \<Rightarrow> 'b" and from_wire :: "'b \<Rightarrow> 'a" and known :: "'a \<Rightarrow> bool"
  assumes reads_back: "known a \<Longrightarrow> from_wire (to_wire a) = a"
begin

lemma to_wire_inj: "known a \<Longrightarrow> known b \<Longrightarrow> to_wire a = to_wire b \<Longrightarrow> a = b"
  using reads_back by metis

lemma row_back: "list_all known xs \<Longrightarrow> map from_wire (map to_wire xs) = xs"
  by (induction xs) (simp_all add: reads_back)

lemma from_wire_onto: "known a \<Longrightarrow> \<exists>b. from_wire b = a"
  using reads_back by blast

end

text \<open>The message types a protocol has a number for.\<close>

fun has_type :: "protocol \<Rightarrow> MsgType \<Rightarrow> bool" where
  "has_type SMGP t = (t \<in> {Submit, SubmitResp, Deliver, DeliverResp, Report, ReportResp, ActiveTest,
     ActiveTestResp, Connect, ConnectResp, Terminate, TerminateResp, UNKNOWN})"
| "has_type SGIP t = (t \<in> {Submit, SubmitResp, Deliver, DeliverResp, Report, ReportResp, ActiveTest,
     ActiveTestResp, Connect, ConnectResp, Terminate, TerminateResp, Query, QueryResp, Cancel,
     CancelResp, UNKNOWN})"
| "has_type _ t = True"

lemma default_type_back: "default_type_enum (default_type_id t) = t"
  by (cases t) (simp_all add: default_type_enum_def lookup_or_def)

lemma smgp_type_back: "smgp_type_enum (smgp_type_id t) = (if has_type SMGP t then t else UNKNOWN)"
  by (cases t) (simp_all add: smgp_type_enum_def lookup_or_def)

lemma sgip_type_back: "sgip_type_enum (sgip_type_id t) = (if has_type SGIP t then t else UNKNOWN)"
  by (cases t) (simp_all add: sgip_type_enum_def lookup_or_def)

lemma type_back: "get_type_enum p (get_type_id p t) = (if has_type p t then t else UNKNOWN)"
  by (cases p) (simp_all add: default_type_back smgp_type_back sgip_type_back)

interpretation types: wire_code "get_type_id p" "get_type_enum p" "has_type p" for p
  by unfold_locales (simp add: type_back)

lemma status_back:
  "impl_status_enum p (get_status_id p s) = (if s = StatusUnknown then OtherError else s)"
  by (cases p; cases s)
    (simp_all add: default_status_enum_def smgp_status_enum_def sgip_status_enum_def lookup_or_def)

interpretation statuses: wire_code "get_status_id p" "impl_status_enum p" "\<lambda>s. s \<noteq> StatusUnknown" for p
  by unfold_locales (simp add: status_back)

lemma msg_type_name_back: "msg_type_from_str (msg_type_to_str t) = t"
  by (cases t) (simp_all add: msg_type_from_str_def lookup_or_def)

interpretation type_names: wire_code msg_type_to_str msg_type_from_str "\<lambda>_. True"
  by unfold_locales (simp add: msg_type_name_back)

lemma status_name_back: "status_from_str (status_to_str s) = s"
  by (cases s) (simp_all add: status_from_str_def lookup_or_def)

interpretation status_names: wire_code status_to_str status_from_str "\<lambda>_. True"
  by unfold_locales (simp add: status_name_back)

text \<open>C36: in every protocol the number of a message type is read back as that type, and the types
  the protocol has no number for are read back as unknown; names of types and status values
  are read back exactly, and so is the number of every status but the unknown one.\<close>

theorem codes_roundtrip:
  "get_type_enum p (get_type_id p t) = (if has_type p t then t else UNKNOWN) \<and>
   msg_type_from_str (msg_type_to_str t) = t \<and>
   status_from_str (status_to_str s) = s \<and>
   impl_status_enum p (get_status_id p s) = (if s = StatusUnknown then OtherError else s)"
  by (intro conjI type_back msg_type_name_back status_name_back status_back)

text \<open>Two message types, or two status values, that a protocol can express never share a
  number, in any protocol.\<close>

theorem codes_distinct:
  "(has_type p t \<and> has_type p u \<and> get_type_id p t = get_type_id p u \<longrightarrow> t = u) \<and>
   (r \<noteq> StatusUnknown \<and> s \<noteq> StatusUnknown \<and> get_status_id p r = get_status_id p s \<longrightarrow> r = s)"
  using types.to_wire_inj statuses.to_wire_inj by blast

lemma codes_distinct_witness:
  "get_type_id SMGP Submit \<noteq> get_type_id SMGP Report \<and>
   get_status_id SMGP Success \<noteq> get_status_id SMGP OtherError"
  using codes_distinct [of SMGP Submit Report Success OtherError]
  by (auto simp del: get_type_id.simps get_status_id.simps)

end
