(* ===== verification/Encoding.thy ===== *)
theory Encoding
  imports Content MsgType
begin

text \<open>
  What the encoders and decoders of all protocols share: the result types of an encoder and
  of a reply encoder, early returns, zero filling, repeated text fields, and the three
  \<open>get_auth\<close> functions.

  An encoder returns the JSON object and the global state beside its result, because it may
  have written to them even where it returns an error.
\<close>

type_synonym 'a enc = "((io_error + 'a) \<times> json \<times> world) option"
type_synonym reply = "(buf option \<times> json \<times> world) option"

definition fail :: "io_error \<Rightarrow> json \<Rightarrow> world \<Rightarrow> 'a enc" where
  "fail e json w = Some (Inl e, json, w)"

definition succeed :: "'a \<Rightarrow> json \<Rightarrow> world \<Rightarrow> 'a enc" where
  "succeed v json w = Some (Inr v, json, w)"

definition no_reply :: "json \<Rightarrow> world \<Rightarrow> reply" where
  "no_reply json w = Some (None, json, w)"

definition reply :: "buf \<Rightarrow> json \<Rightarrow> world \<Rightarrow> reply" where
  "reply b json w = Some (Some b, json, w)"

text \<open>\<open>match m { Some(v) => v, None => return e }\<close>.\<close>

definition require :: "'a option \<Rightarrow> 'r \<Rightarrow> ('a \<Rightarrow> 'r) \<Rightarrow> 'r" where
  "require m e k = (case m of Some v \<Rightarrow> k v | None \<Rightarrow> e)"

lemma require_simps [simp]:
  "require (Some v) e k = k v"
  "require None e k = e"
  by (simp_all add: require_def)

lemma require_cong [cong]: "m = m' \<Longrightarrow> require m e k = require m' e k"
  by simp

lemma require_eq_Some:
  "require m e k = r \<longleftrightarrow> (m = None \<and> e = r) \<or> (\<exists>v. m = Some v \<and> k v = r)"
  by (cases m) auto

lemma result_simps [simp]:
  "fail e j w \<noteq> Some (Inr v, j', w')"
  "succeed v j w = Some (Inr v', j', w') \<longleftrightarrow> v = v' \<and> j = j' \<and> w = w'"
  "no_reply j w \<noteq> Some (Some b, j', w')"
  "reply b j w = Some (Some b', j', w') \<longleftrightarrow> b = b' \<and> j = j' \<and> w = w'"
  "fail e j w \<noteq> None" "succeed v j w \<noteq> None" "no_reply j w \<noteq> None" "reply b j w \<noteq> None"
  by (simp_all add: fail_def succeed_def no_reply_def reply_def)

subsection \<open>Filling\<close>

text \<open>The slice \<open>FILL_ZERO[0..n]\<close> for the constants \<open>n\<close> of the encoders.\<close>

definition zeros :: "nat \<Rightarrow> buf" where
  "zeros n = take n FILL_ZERO"

lemma zeros_replicate [simp]: "n \<le> 200 \<Longrightarrow> zeros n = replicate n 0"
  by (simp add: zeros_def FILL_ZERO_def min_def)

text \<open>\<open>dest_ids.iter().for_each(|d| fill_bytes_zero(&mut dst, d, n))\<close>.\<close>

definition fill_all :: "nat \<Rightarrow> string list \<Rightarrow> buf \<Rightarrow> buf option" where
  "fill_all n ss dst = for_each ss (\<lambda>s dst. fill_bytes_zero dst s n) dst"

text \<open>A text that fits its field, or may be cut at its end, is written.\<close>

definition fits :: "nat \<Rightarrow> string \<Rightarrow> bool" where
  "fits n s \<longleftrightarrow> length s < n \<or> char_boundary s n"

lemma fill_bytes_zero_fits [simp]:
  "n \<le> 200 \<Longrightarrow> fits n s \<Longrightarrow> fill_bytes_zero dst s n = Some (dst @ field s n)"
  by (simp add: fits_def fill_bytes_zero_field)

lemma fill_bytes_zero_eq_Some:
  "n \<le> 200 \<Longrightarrow> fill_bytes_zero dst s n = Some d \<longleftrightarrow> fits n s \<and> d = dst @ field s n"
  by (auto simp: fits_def fill_bytes_zero_field)

lemma fill_all_eq_Some:
  "n \<le> 200 \<Longrightarrow> fill_all n ss dst = Some d \<longleftrightarrow>
     list_all (fits n) ss \<and> d = dst @ concat (map (\<lambda>s. field s n) ss)"
  unfolding fill_all_def
  by (induction ss arbitrary: dst) (auto simp: bind_eq_Some fill_bytes_zero_eq_Some)

lemma fill_all_fits [simp]:
  "n \<le> 200 \<Longrightarrow> list_all (fits n) ss \<Longrightarrow>
   fill_all n ss dst = Some (dst @ concat (map (\<lambda>s. field s n) ss))"
  by (simp add: fill_all_eq_Some)

lemma ascii_fits: "ascii s \<Longrightarrow> fits n s"
  by (cases "length s < n") (auto simp: fits_def intro: ascii_char_boundary)

lemma length_fields [simp, frame_simps]: "length (concat (map (\<lambda>s. field s n) ss)) = length ss * n"
  by (induction ss) simp_all

text \<open>\<open>sp_id[0..n]\<close> as bytes.\<close>

definition prefix_bytes :: "string \<Rightarrow> nat \<Rightarrow> buf option" where
  "prefix_bytes s n = map_option as_bytes (str_slice s 0 n)"

lemma prefix_bytes_length: "prefix_bytes s n = Some b \<Longrightarrow> length b = n"
  by (auto simp: prefix_bytes_def str_slice_def char_boundary_def split: if_splits)

lemma prefix_bytes_ascii: "ascii s \<Longrightarrow> n \<le> length s \<Longrightarrow> prefix_bytes s n = Some (as_bytes (take n s))"
  using ascii_char_boundary [of s n] by (simp add: prefix_bytes_def str_slice_def char_boundary_def)

text \<open>\<open>for _i in 0..k { v.push(load_utf8_string(buf, n)) }\<close>.\<close>

primrec load_strings :: "nat \<Rightarrow> nat \<Rightarrow> buf \<Rightarrow> string list \<times> buf" where
  "load_strings 0 n buf = ([], buf)"
| "load_strings (Suc k) n buf =
     (let (s, buf) = load_utf8_string buf n; (ss, buf) = load_strings k n buf in (s # ss, buf))"

lemma load_strings_fields:
  "load_strings (length ss) n (concat (map (\<lambda>s. field s n) ss) @ r) =
   (map (\<lambda>s. trim_nul (take n s)) ss, r)"
  by (induction ss) (simp_all add: trim_nul_field)

text \<open>The message format of an outgoing message, UCS-2 where none is given.\<close>

definition msg_fmt_of :: "json \<Rightarrow> u8" where
  "msg_fmt_of json = (case as_u8 (idx json MSG_FMT) of Some v \<Rightarrow> v | None \<Rightarrow> 8)"

text \<open>The bytes an outgoing message carries, in its character set.\<close>

definition content_code :: "ext \<Rightarrow> json \<Rightarrow> buf option" where
  "content_code x json =
     Option.bind (as_str (idx json MSG_CONTENT)) (\<lambda>c.
       case encode_msg_content x (msg_fmt_of json) c of Inl e \<Rightarrow> None | Inr code \<Rightarrow> Some code)"

text \<open>
  \<open>carries g off tail code out seq_ids\<close>: the encoded message is a row of well-formed units, one
  per segment of the content, each with its segment between \<open>off\<close> bytes (and the concatenated
  message header) and \<open>tail\<close> bytes, and \<open>seq_ids\<close> lists their sequence numbers.
\<close>

definition head_len :: "nat \<Rightarrow> nat" where
  "head_len n = (if n \<le> 140 then 0 else 6)"

definition carries :: "(buf \<Rightarrow> 'a::len word) \<Rightarrow> nat \<Rightarrow> nat \<Rightarrow> buf \<Rightarrow> buf \<Rightarrow> json \<Rightarrow> bool" where
  "carries g off tail code out seq_ids \<longleftrightarrow>
     (\<exists>ps. split_frames out = Some ps \<and>
        map (pdu_content (off + head_len (length code)) tail) ps = segments code \<and>
        seq_ids = nums (map g ps))"

lemma sms_head_head_len: "sms_head len w = ((h, one, s, n), w') \<Longrightarrow> h = head_len len"
  by (auto simp: sms_head_def head_len_def split: if_splits prod.splits)

lemma carriesI:
  "sent g (off + head_len (length code)) tail out (segments code) sq \<Longrightarrow>
   carries g off tail code out (nums sq)"
  by (drule sent_split) (auto simp: carries_def)

definition str_or_empty :: "json \<Rightarrow> string" where
  "str_or_empty j = (case as_str j of Some v \<Rightarrow> v | None \<Rightarrow> [])"

definition u32_or_0 :: "json \<Rightarrow> u32" where
  "u32_or_0 j = (case as_u32 j of Some v \<Rightarrow> v | None \<Rightarrow> 0)"

subsection \<open>Authentication values\<close>

definition default_get_auth :: "ext \<Rightarrow> string \<Rightarrow> string \<Rightarrow> u32 \<Rightarrow> buf" where
  "default_get_auth x sp_id password timestamp =
     (let time_str = fmt_dec 10 (unat timestamp);
          src = as_bytes sp_id;
          src = put_u64 src 0;
          src = put_u8 src 0;
          src = src @ as_bytes password;
          src = src @ as_bytes time_str
      in md5 x src)"

definition smgp_get_auth :: "ext \<Rightarrow> string \<Rightarrow> string \<Rightarrow> u32 \<Rightarrow> buf" where
  "smgp_get_auth x sp_id password timestamp =
     (let time_str = fmt_dec 10 (unat timestamp);
          src = as_bytes sp_id;
          src = put_u32 src 0;
          src = put_u16 src 0;
          src = put_u8 src 0;
          src = src @ as_bytes password;
          src = src @ as_bytes time_str
      in md5 x src)"

definition sgip_get_auth :: "string \<Rightarrow> buf" where
  "sgip_get_auth password =
     (let p = as_bytes password
      in fold (\<lambda>i input. input[i := p ! i]) [0..<min (length password) 16] (replicate 16 0))"

fun impl_get_auth :: "protocol \<Rightarrow> ext \<Rightarrow> string \<Rightarrow> string \<Rightarrow> u32 \<Rightarrow> buf" where
  "impl_get_auth SMGP x login password timestamp = smgp_get_auth x login password timestamp"
| "impl_get_auth SGIP x login password timestamp = sgip_get_auth password"
| "impl_get_auth _ x login password timestamp = default_get_auth x login password timestamp"

lemma sgip_get_auth_field: "sgip_get_auth password = field password 16"
proof -
  have *: "fold (\<lambda>i input. input[i := p ! i]) [0..<k] z = take k p @ drop k z"
    if "k \<le> length p" "k \<le> length z" for k and p z :: buf
    using that
  proof (induction k)
    case 0
    then show ?case by simp
  next
    case (Suc k)
    then have "drop k z = z ! k # drop (Suc k) z" by (simp add: Cons_nth_drop_Suc)
    with Suc show ?case
      by (simp add: list_update_append take_Suc_conv_app_nth)
  qed
  show ?thesis
    by (cases "length password \<le> 16")
      (simp_all add: sgip_get_auth_def * field_def min_def as_bytes_take)
qed

lemma length_get_auth [simp]: "ext_ok x \<Longrightarrow> length (impl_get_auth p x login password t) = 16"
  by (cases p) (simp_all add: smgp_get_auth_def default_get_auth_def ext_ok_def sgip_get_auth_field Let_def)

subsection \<open>Hints\<close>

text \<open>What evaluates the body of an encoding loop, and the field of the unit it appends.\<close>

lemmas part_simps =
  bind_eq_Some fill_bytes_zero_eq_Some fill_all_eq_Some frame_simps unat_of_nat pdu_field_defs
  split_def Let_def drop_Cons'

definition field_fits :: "nat \<Rightarrow> json \<Rightarrow> bool" where
  "field_fits n j = (case as_str j of Some s \<Rightarrow> fits n s | None \<Rightarrow> False)"

definition strs_fit :: "nat \<Rightarrow> json \<Rightarrow> bool" where
  "strs_fit n j =
     (is_array j \<and> (case unwrap_strs (members j) of Some ss \<Rightarrow> list_all (fits n) ss | None \<Rightarrow> False))"

lemma field_fitsD: "field_fits n j \<Longrightarrow> \<exists>s. as_str j = Some s \<and> fits n s"
  by (simp add: field_fits_def split: option.splits)

lemma strs_fitD: "strs_fit n j \<Longrightarrow> is_array j \<and> (\<exists>ss. unwrap_strs (members j) = Some ss \<and> list_all (fits n) ss)"
  by (simp add: strs_fit_def split: option.splits)

lemma content_codeD:
  "content_code x json = Some code \<Longrightarrow>
   \<exists>c. as_str (idx json MSG_CONTENT) = Some c \<and> encode_msg_content x (msg_fmt_of json) c = Inr code"
  by (cases "as_str (idx json MSG_CONTENT)"; cases "encode_msg_content x (msg_fmt_of json) (the (as_str (idx json MSG_CONTENT)))")
    (simp_all add: content_code_def)

text \<open>A loop whose body never panics does not panic.\<close>

lemma for_each_upt_total:
  assumes "\<And>i st. i < n \<Longrightarrow> \<exists>st'. body i st = Some st'"
  shows "\<exists>t. for_each [0..<n] body st = Some t"
  using for_each_total [of "\<lambda>_ _. True" st "[0..<n]" body] assms by simp

end
