(* ===== verification/Defaults.thy ===== *)
theory Defaults
  imports Encoding
begin

text \<open>
  The methods the trait \<open>ProtocolImpl\<close> of \<open>protocol/implements.rs\<close> gives every protocol that
  does not override them.  CMPP 3.0 (\<open>cmpp48.rs\<close>) and SMPP (\<open>smpp.rs\<close>) use them as they
  are; CMPP 2.0, SMGP and SGIP override some.  The protocol \<open>p\<close> is \<open>self\<close>: it selects the
  tables of message types and status values.
\<close>

subsection \<open>Connection, acknowledgement and keep-alive\<close>

definition default_encode_connect :: "protocol \<Rightarrow> ext \<Rightarrow> json \<Rightarrow> world \<Rightarrow> buf enc" where
  "default_encode_connect p x json w =
     require (as_str (idx json LOGIN_NAME)) (fail NotFound json w) (\<lambda>sp_id.
     require (as_str (idx json PASSWORD)) (fail NotFound json w) (\<lambda>password.
     require (as_u32 (idx json VERSION)) (fail NotFound json w) (\<lambda>version.
     if length sp_id \<noteq> 6 then fail Other json w
     else
       let (time, w) = get_time w;
           dst = put_u32 [] 39;
           dst = put_u32 dst (get_type_id p Connect);
           (seq_id, w) = get_sequence_id 1 w;
           dst = put_u32 dst seq_id;
           dst = dst @ as_bytes sp_id;
           dst = dst @ impl_get_auth p x sp_id password time;
           dst = put_u8 dst (ucast version);
           dst = put_u32 dst time
       in succeed dst json w)))"

definition default_encode_connect_rep :: "protocol \<Rightarrow> SmsStatus \<Rightarrow> json \<Rightarrow> world \<Rightarrow> reply" where
  "default_encode_connect_rep p status json w = do {
     let dst = put_u32 [] 33;
     let dst = put_u32 dst (get_type_id p ConnectResp);
     seq_id \<leftarrow> as_u32 (idx json SEQ_ID);
     let dst = put_u32 dst seq_id;
     let dst = put_u32 dst (get_status_id p status);
     let dst = dst @ zeros 16;
     version \<leftarrow> as_u8 (idx json VERSION);
     let dst = put_u8 dst version;
     reply dst json w
   }"

definition default_encode_submit_resp :: "protocol \<Rightarrow> SmsStatus \<Rightarrow> json \<Rightarrow> world \<Rightarrow> reply" where
  "default_encode_submit_resp p status json w =
     require (as_u32 (idx json SEQ_ID)) (no_reply json w) (\<lambda>seq_id.
     if is_array (idx json DEST_IDS) then do {
       dest_ids \<leftarrow> unwrap_strs (members (idx json DEST_IDS));
       let submit_status = get_status_id p status;
       let (msg_id, w) = create_cmpp_msg_id (of_nat (length dest_ids)) w;
       let buf = put_u32 [] 24;
       let buf = put_u32 buf (get_type_id p SubmitResp);
       let buf = put_u32 buf seq_id;
       let buf = put_u64 buf msg_id;
       let buf = put_u32 buf submit_status;
       let json = setk json MSG_ID (JStr (cmpp_msg_id_u64_to_str msg_id));
       reply buf json w
     }
     else no_reply json w)"

definition default_encode_report_resp :: "protocol \<Rightarrow> SmsStatus \<Rightarrow> json \<Rightarrow> world \<Rightarrow> reply" where
  "default_encode_report_resp p status json w =
     require (as_u32 (idx json SEQ_ID)) (no_reply json w) (\<lambda>seq_id.
     require (as_str (idx json MSG_ID)) (no_reply json w) (\<lambda>v. do {
       (msg_id, w) \<leftarrow> cmpp_msg_id_str_to_u64 v w;
       let status = get_status_id p status;
       let buf = put_u32 [] 24;
       let buf = put_u32 buf (get_type_id p DeliverResp);
       let buf = put_u32 buf seq_id;
       let buf = put_u64 buf msg_id;
       let buf = put_u32 buf status;
       reply buf json w
     }))"

definition default_encode_deliver_resp :: "protocol \<Rightarrow> SmsStatus \<Rightarrow> json \<Rightarrow> world \<Rightarrow> reply" where
  "default_encode_deliver_resp p status json w =
     require (as_u32 (idx json SEQ_ID)) (no_reply json w) (\<lambda>seq_id.
     require (as_str (idx json MSG_ID)) (no_reply json w) (\<lambda>v. do {
       (msg_id, w) \<leftarrow> cmpp_msg_id_str_to_u64 v w;
       let status = get_status_id p status;
       let buf = put_u32 [] 24;
       let buf = put_u32 buf (get_type_id p DeliverResp);
       let buf = put_u32 buf seq_id;
       let buf = put_u64 buf msg_id;
       let buf = put_u32 buf status;
       reply buf json w
     }))"

definition default_encode_active_test_resp :: "protocol \<Rightarrow> SmsStatus \<Rightarrow> json \<Rightarrow> world \<Rightarrow> reply" where
  "default_encode_active_test_resp p status json w =
     require (as_u32 (idx json SEQ_ID)) (no_reply json w) (\<lambda>seq_id.
       let buf = put_u32 [] 13;
           buf = put_u32 buf (get_type_id p ActiveTestResp);
           buf = put_u32 buf seq_id;
           buf = put_u8 buf 0
       in reply buf json w)"

definition default_encode_active_test :: "protocol \<Rightarrow> json \<Rightarrow> world \<Rightarrow> buf enc" where
  "default_encode_active_test p json w =
     (let dst = put_u32 [] 12;
          dst = put_u32 dst (get_type_id p ActiveTest);
          (seq_id, w) = get_sequence_id 1 w;
          dst = put_u32 dst seq_id;
          json = setk json SEQ_ID (num seq_id)
      in succeed dst json w)"

definition default_encode_terminate :: "protocol \<Rightarrow> json \<Rightarrow> world \<Rightarrow> buf enc" where
  "default_encode_terminate p json w =
     (let dst = put_u32 [] 12;
          dst = put_u32 dst (get_type_id p Terminate);
          (seq_id, w) = get_sequence_id 1 w;
          dst = put_u32 dst seq_id;
          json = setk json SEQ_ID (num seq_id)
      in succeed dst json w)"

subsection \<open>Status reports\<close>

definition default_encode_report :: "protocol \<Rightarrow> json \<Rightarrow> world \<Rightarrow> buf enc" where
  "default_encode_report p json w =
     require (as_str (idx json MSG_ID)) (fail NotFound json w) (\<lambda>v. do {
     (msg_id, w) \<leftarrow> cmpp_msg_id_str_to_u64 v w;
     require (as_str (idx json SERVICE_ID)) (fail NotFound json w) (\<lambda>service_id.
     require (as_str (idx json STATE)) (fail NotFound json w) (\<lambda>stat.
     require (as_str (idx json SUBMIT_TIME)) (fail NotFound json w) (\<lambda>submit_time.
     require (as_str (idx json DONE_TIME)) (fail NotFound json w) (\<lambda>done_time.
     let smsc_sequence = u32_or_0 (idx json SMSC_SEQUENCE) in
     require (as_str (idx json SRC_ID)) (fail NotFound json w) (\<lambda>src_id.
     require (as_str (idx json DEST_ID)) (fail NotFound json w) (\<lambda>dest_id. do {
       let dst = put_u32 [] 180;
       let dst = put_u32 dst (get_type_id p Deliver);
       let (seq_id, w) = get_sequence_id 1 w;
       let seq_ids = [seq_id];
       let dst = put_u32 dst seq_id;
       let (new_id, w) = create_cmpp_msg_id 1 w;
       let dst = put_u64 dst new_id;
       dst \<leftarrow> fill_bytes_zero dst dest_id 21;
       dst \<leftarrow> fill_bytes_zero dst service_id 10;
       let dst = put_u8 dst 0;
       let dst = put_u8 dst 0;
       let dst = put_u8 dst 0;
       dst \<leftarrow> fill_bytes_zero dst src_id 32;
       let dst = put_u8 dst 0;
       let dst = put_u8 dst 1;
       let dst = put_u8 dst 71;
       let dst = put_u64 dst msg_id;
       dst \<leftarrow> fill_bytes_zero dst stat 7;
       dst \<leftarrow> fill_bytes_zero dst submit_time 10;
       dst \<leftarrow> fill_bytes_zero dst done_time 10;
       dst \<leftarrow> fill_bytes_zero dst src_id 32;
       let dst = put_u32 dst smsc_sequence;
       let dst = dst @ zeros 20;
       succeed dst (setk json SEQ_IDS (nums seq_ids)) w
     }))))))})"

subsection \<open>Deliver\<close>

text \<open>The body of the loop over the segments; \<open>seg\<close> is what \<open>sms_head\<close> computed.\<close>

definition default_deliver_part ::
    "protocol \<Rightarrow> string \<Rightarrow> string \<Rightarrow> string \<Rightarrow> u8 \<Rightarrow> buf \<Rightarrow> nat \<times> nat \<times> u8 \<times> nat \<Rightarrow>
     nat \<Rightarrow> buf \<times> u32 list \<times> u64 list \<times> world \<Rightarrow> (buf \<times> u32 list \<times> u64 list \<times> world) option" where
  "default_deliver_part p service_id src_id dest_id msg_fmt msg_content_code seg i st = do {
     let (msg_content_head_len, one_content_len, msg_content_seq_id, sms_len) = seg;
     let (dst, seq_ids, msg_ids, w) = st;
     this_msg_content \<leftarrow> segment msg_content_code one_content_len sms_len i;
     let dst = put_u32 dst (of_nat (109 + msg_content_head_len + length this_msg_content));
     let dst = put_u32 dst (get_type_id p Deliver);
     let (seq_id, w) = get_sequence_id 1 w;
     let seq_ids = seq_ids @ [seq_id];
     let dst = put_u32 dst seq_id;
     let (msg_id, w) = create_cmpp_msg_id 1 w;
     let msg_ids = msg_ids @ [msg_id];
     let dst = put_u64 dst msg_id;
     dst \<leftarrow> fill_bytes_zero dst dest_id 21;
     dst \<leftarrow> fill_bytes_zero dst service_id 10;
     let dst = put_u8 dst 0;
     let dst = put_u8 dst (if sms_len = 1 then 0 else 1);
     let dst = put_u8 dst msg_fmt;
     dst \<leftarrow> fill_bytes_zero dst src_id 32;
     let dst = put_u8 dst 0;
     let dst = put_u8 dst 0;
     let dst = put_u8 dst (of_nat (length this_msg_content) + of_nat msg_content_head_len);
     let dst = put_head dst msg_content_head_len msg_content_seq_id sms_len i;
     let dst = dst @ this_msg_content;
     let dst = dst @ zeros 20;
     Some (dst, seq_ids, msg_ids, w)
   }"

definition default_encode_deliver :: "protocol \<Rightarrow> ext \<Rightarrow> json \<Rightarrow> world \<Rightarrow> buf enc" where
  "default_encode_deliver p x json w =
     (if as_str (idx json MSG_ID) = None then fail NotFound json w else
     require (as_str (idx json MSG_CONTENT)) (fail NotFound json w) (\<lambda>msg_content.
     let msg_fmt = msg_fmt_of json in
     case encode_msg_content x msg_fmt msg_content of
       Inl e \<Rightarrow> fail Other json w
     | Inr msg_content_code \<Rightarrow>
     require (as_str (idx json SERVICE_ID)) (fail NotFound json w) (\<lambda>service_id.
     require (as_str (idx json SRC_ID)) (fail NotFound json w) (\<lambda>src_id.
     require (as_str (idx json DEST_ID)) (fail NotFound json w) (\<lambda>dest_id. do {
       let (seg, w) = sms_head (length msg_content_code) w;
       let sms_len = snd (snd (snd seg));
       (dst, seq_ids, msg_ids, w) \<leftarrow>
         for_each [0..<sms_len]
           (default_deliver_part p service_id src_id dest_id msg_fmt msg_content_code seg)
           ([], [], [], w);
       let json = setk json MSG_IDS (nums msg_ids);
       let json = setk json SEQ_IDS (nums seq_ids);
       succeed dst json w
     })))))"

subsection \<open>Submit\<close>

definition default_submit_part ::
    "protocol \<Rightarrow> string \<Rightarrow> string \<Rightarrow> string \<Rightarrow> string \<Rightarrow> string \<Rightarrow> string list \<Rightarrow> u8 \<Rightarrow> buf \<Rightarrow>
     nat \<times> nat \<times> u8 \<times> nat \<Rightarrow>
     nat \<Rightarrow> buf \<times> u32 list \<times> world \<Rightarrow> (buf \<times> u32 list \<times> world) option" where
  "default_submit_part p service_id sp_id valid_time at_time src_id dest_ids msg_fmt
       msg_content_code seg i st = do {
     let (msg_content_head_len, one_content_len, msg_content_seq_id, sms_len) = seg;
     let (dst, seq_ids, w) = st;
     this_msg_content \<leftarrow> segment msg_content_code one_content_len sms_len i;
     let dst = put_u32 dst (of_nat
       (163 + length dest_ids * 32 + msg_content_head_len + length this_msg_content));
     let dst = put_u32 dst (get_type_id p Submit);
     let (seq_id, w) = get_sequence_id (of_nat (length dest_ids)) w;
     let seq_ids = seq_ids @ [seq_id];
     let dst = put_u32 dst seq_id;
     let dst = put_u64 dst 0;
     let dst = put_u8 dst 1;
     let dst = put_u8 dst 1;
     let dst = put_u8 dst 1;
     let dst = put_u8 dst 1;
     dst \<leftarrow> fill_bytes_zero dst service_id 10;
     let dst = put_u8 dst 3;
     let dst = dst @ zeros 32;
     let dst = put_u8 dst 0;
     let dst = put_u8 dst 0;
     let dst = put_u8 dst (if sms_len = 1 then 0 else 1);
     let dst = put_u8 dst msg_fmt;
     sp \<leftarrow> prefix_bytes sp_id 6;
     let dst = dst @ sp;
     let dst = dst @ as_bytes ''01'';
     let dst = dst @ as_bytes ''000001'';
     dst \<leftarrow> fill_bytes_zero dst valid_time 17;
     dst \<leftarrow> fill_bytes_zero dst at_time 17;
     dst \<leftarrow> fill_bytes_zero dst src_id 21;
     let dst = put_u8 dst (of_nat (length dest_ids));
     dst \<leftarrow> fill_all 32 dest_ids dst;
     let dst = put_u8 dst 0;
     let dst = put_u8 dst (of_nat (length this_msg_content) + of_nat msg_content_head_len);
     let dst = put_head dst msg_content_head_len msg_content_seq_id sms_len i;
     let dst = dst @ this_msg_content;
     let dst = dst @ zeros 20;
     Some (dst, seq_ids, w)
   }"

definition default_encode_submit :: "protocol \<Rightarrow> ext \<Rightarrow> json \<Rightarrow> world \<Rightarrow> buf enc" where
  "default_encode_submit p x json w =
     require (as_str (idx json MSG_CONTENT)) (fail NotFound json w) (\<lambda>msg_content.
     let msg_fmt = msg_fmt_of json in
     case encode_msg_content x msg_fmt msg_content of
       Inl e \<Rightarrow> fail Other json w
     | Inr msg_content_code \<Rightarrow>
     require (as_str (idx json SERVICE_ID)) (fail NotFound json w) (\<lambda>service_id.
     require (as_str (idx json SP_ID)) (fail NotFound json w) (\<lambda>sp_id.
     let valid_time = str_or_empty (idx json VALID_TIME);
         at_time = str_or_empty (idx json AT_TIME) in
     require (as_str (idx json SRC_ID)) (fail NotFound json w) (\<lambda>src_id.
     if \<not> is_array (idx json DEST_IDS) then fail NotFound json w else do {
     dest_ids \<leftarrow> unwrap_strs (members (idx json DEST_IDS));
     if \<not> is_array (idx json MSG_IDS) then fail NotFound json w else do {
       let (seg, w) = sms_head (length msg_content_code) w;
       let sms_len = snd (snd (snd seg));
       (dst, seq_ids, w) \<leftarrow>
         for_each [0..<sms_len]
           (default_submit_part p service_id sp_id valid_time at_time src_id dest_ids msg_fmt
              msg_content_code seg)
           ([], [], w);
       let json = setk json SEQ_IDS (nums seq_ids);
       succeed dst json w
     }}))))"

subsection \<open>Decoding\<close>

text \<open>A decoder gets the rest of a frame, the two header words already read.\<close>

definition msg_header :: "u32 \<Rightarrow> u32 \<Rightarrow> json" where
  "msg_header seq tp = setk (setk new_object MSG_TYPE_U32 (num tp)) SEQ_ID (num seq)"

definition json_of :: "(buf \<times> json) res \<Rightarrow> json res" where
  "json_of r = map_option (map_sum id snd) r"

lemma json_of_simps [simp]:
  "json_of None = None"
  "json_of (Err e) = Err e"
  "json_of (Ok (b, j)) = Ok j"
  by (simp_all add: json_of_def)

definition default_decode_connect_resp :: "buf \<Rightarrow> u32 \<Rightarrow> u32 \<Rightarrow> json res" where
  "default_decode_connect_resp buf seq tp = do {
     let json = msg_header seq tp;
     (json, buf) \<leftarrow>
       (if length buf < 21
        then do { (v, buf) \<leftarrow> get_u8 buf; Some (setk json STATUS (num v), buf) }
        else do { (v, buf) \<leftarrow> get_u32 buf; Some (setk json STATUS (num v), buf) });
     buf \<leftarrow> advance buf 16;
     (v, buf) \<leftarrow> get_u8 buf;
     Ok (setk json VERSION (num v))
   }"

definition default_decode_submit_or_deliver_resp :: "protocol \<Rightarrow> buf \<Rightarrow> u32 \<Rightarrow> u32 \<Rightarrow> json res" where
  "default_decode_submit_or_deliver_resp p buf seq tp = do {
     let json = msg_header seq tp;
     (v, buf) \<leftarrow> get_u64 buf;
     let json = setk json MSG_ID (JStr (cmpp_msg_id_u64_to_str v));
     (result, buf) \<leftarrow> get_u32 buf;
     let json = setk json RESULT (num result);
     Ok (if is_speed_limit p result then setk json SPEED_LIMIT (JBool True) else json)
   }"

definition default_decode_nobody :: "buf \<Rightarrow> u32 \<Rightarrow> u32 \<Rightarrow> json res" where
  "default_decode_nobody buf seq tp = Ok (msg_header seq tp)"

definition default_decode_report :: "buf \<Rightarrow> u32 \<Rightarrow> u32 \<Rightarrow> json res" where
  "default_decode_report buf seq tp = Err InvalidData"

definition default_decode_report_resp :: "buf \<Rightarrow> u32 \<Rightarrow> u32 \<Rightarrow> json res" where
  "default_decode_report_resp buf seq tp = Err InvalidData"

definition default_decode_deliver :: "protocol \<Rightarrow> ext \<Rightarrow> buf \<Rightarrow> u32 \<Rightarrow> u32 \<Rightarrow> json res" where
  "default_decode_deliver p x buf seq tp = do {
     let json = msg_header seq tp;
     (v, buf) \<leftarrow> get_u64 buf;
     let json = setk json MSG_ID (JStr (cmpp_msg_id_u64_to_str v));
     let (s, buf) = load_utf8_string buf 21;
     let json = setk json DEST_ID (JStr s);
     let (s, buf) = load_utf8_string buf 10;
     let json = setk json SERVICE_ID (JStr s);
     buf \<leftarrow> advance buf 1;
     (tp_udhi, buf) \<leftarrow> get_u8 buf;
     (msg_fmt, buf) \<leftarrow> get_u8 buf;
     let (s, buf) = load_utf8_string buf 32;
     let json = setk json SRC_ID (JStr s);
     buf \<leftarrow> advance buf 1;
     (is_report, buf) \<leftarrow> get_u8 buf;
     if is_report = 0 then do {
       let json = setk json MSG_FMT (num msg_fmt);
       (msg_content_len, buf) \<leftarrow> get_u8 buf;
       json_of (decode_msg_content x buf msg_fmt msg_content_len json (tp_udhi \<noteq> 0))
     }
     else do {
       buf \<leftarrow> advance buf 1;
       let json = setk json IS_REPORT (JBool True);
       (v, buf) \<leftarrow> get_u64 buf;
       let json = setk json PASSAGE_MSG_ID (JStr (cmpp_msg_id_u64_to_str v));
       let (s, buf) = load_utf8_string buf 7;
       let json = setk json STATE (JStr s);
       let (s, buf) = load_utf8_string buf 10;
       let json = setk json SUBMIT_TIME (JStr s);
       let (s, buf) = load_utf8_string buf 10;
       let json = setk json DONE_TIME (JStr s);
       let (s, buf) = load_utf8_string buf 32;
       let json = setk json SRC_ID (JStr s);
       Ok (setk json MSG_TYPE_U32 (num (get_type_id p Report)))
     }
   }"

definition default_decode_submit :: "ext \<Rightarrow> buf \<Rightarrow> u32 \<Rightarrow> u32 \<Rightarrow> json res" where
  "default_decode_submit x buf seq tp = do {
     let json = msg_header seq tp;
     (v, buf) \<leftarrow> get_u64 buf;
     let json = setk json MSG_ID (JStr (cmpp_msg_id_u64_to_str v));
     buf \<leftarrow> advance buf 4;
     let (s, buf) = load_utf8_string buf 10;
     let json = setk json SERVICE_ID (JStr s);
     buf \<leftarrow> advance buf 35;
     (tp_udhi, buf) \<leftarrow> get_u8 buf;
     (msg_fmt, buf) \<leftarrow> get_u8 buf;
     let json = setk json MSG_FMT (num msg_fmt);
     let (s, buf) = load_utf8_string buf 6;
     let json = setk json SP_ID (JStr s);
     buf \<leftarrow> advance buf 8;
     let (s, buf) = load_utf8_string buf 17;
     let json = setk json VALID_TIME (JStr s);
     let (s, buf) = load_utf8_string buf 17;
     let json = setk json AT_TIME (JStr s);
     let (s, buf) = load_utf8_string buf 21;
     let json = setk json SRC_ID (JStr s);
     (dest_len, buf) \<leftarrow> get_u8 buf;
     let (dest_ids, buf) = load_strings (unat dest_len) 32 buf;
     let json = setk json DEST_IDS (strs dest_ids);
     buf \<leftarrow> advance buf 1;
     (msg_content_len, buf) \<leftarrow> get_u8 buf;
     json_of (decode_msg_content x buf msg_fmt msg_content_len json (tp_udhi \<noteq> 0))
   }"

definition default_decode_connect :: "buf \<Rightarrow> u32 \<Rightarrow> u32 \<Rightarrow> json res" where
  "default_decode_connect buf seq tp = do {
     let json = msg_header seq tp;
     let (s, buf) = load_utf8_string buf 6;
     let json = setk json LOGIN_NAME (JStr s);
     (v, buf) \<leftarrow> get_u64 buf;
     let json = setk json AUTHENTICATOR (num v);
     (v, buf) \<leftarrow> get_u64 buf;
     let json = setk json AUTHENTICATOR (num v);
     (v, buf) \<leftarrow> get_u8 buf;
     let json = setk json VERSION (num (ucast v :: u32));
     (v, buf) \<leftarrow> get_u32 buf;
     Ok (setk json TIMESTAMP (num v))
   }"

subsection \<open>What the encoders send\<close>

lemma default_deliver_part_sent:
  assumes "sms_head (length code) v = ((h, one, s, n), v')" and "length code < 2 ^ 24" and "i < n"
    and "default_deliver_part p service_id src_id dest_id fmt code (h, one, s, n) i (dst, sq, ms, w) =
      Some (dst', sq', ms', w')"
    and "sent (pdu_u32 8) (89 + h) 20 dst (take i (segments code)) sq"
  shows "sent (pdu_u32 8) (89 + h) 20 dst' (take (Suc i) (segments code)) sq'"
  using assms(4,5) segment_bound [OF assms(1-3)]
  by (auto simp: default_deliver_part_def part_simps simp del: of_nat_add intro!: sent_snoc)

lemma default_deliver_loop:
  assumes "sms_head (length code) v = ((h, one, s, n), v')" and "length code < 2 ^ 24"
    and "for_each [0..<n] (default_deliver_part p service_id src_id dest_id fmt code (h, one, s, n))
      ([], [], [], w) = Some (dst, sq, ms, w')"
  shows "sent (pdu_u32 8) (89 + h) 20 dst (segments code) sq"
  using for_each_invariant [OF assms(3), of
      "\<lambda>i (dst, sq, ms, w). sent (pdu_u32 8) (89 + h) 20 dst (take i (segments code)) sq"]
    default_deliver_part_sent [OF assms(1,2)] sms_head_segments(1) [OF assms(1,2)]
  by fastforce

lemma default_encode_deliver_carries:
  assumes "default_encode_deliver p x json w = Some (Inr out, json', w')"
    and "content_code x json = Some code" and "length code < 2 ^ 24"
  shows "carries (pdu_u32 8) 89 20 code out (idx json' SEQ_IDS)"
proof -
  obtain h one s n w1 where head: "sms_head (length code) w = ((h, one, s, n), w1)"
    by (metis surj_pair)
  show ?thesis
    using assms(1) content_codeD [OF assms(2)] head sms_head_head_len [OF head]
      default_deliver_loop [OF head assms(3)]
    by (auto simp: default_encode_deliver_def require_eq_Some bind_eq_Some Let_def
        split: if_splits intro!: carriesI)
qed

lemma default_encode_deliver_total:
  assumes "content_code x json = Some code" and "length code < 2 ^ 24"
    and "as_str (idx json MSG_ID) \<noteq> None" and "field_fits 10 (idx json SERVICE_ID)"
    and "field_fits 32 (idx json SRC_ID)" and "field_fits 21 (idx json DEST_ID)"
  shows "\<exists>out json' w'. default_encode_deliver p x json w = Some (Inr out, json', w')"
proof -
  obtain h one s n w1 where head: "sms_head (length code) w = ((h, one, s, n), w1)"
    by (metis surj_pair)
  have "\<exists>st'. default_deliver_part p a b c fmt code (h, one, s, n) i st = Some st'"
    if "i < n" "fits 10 a" "fits 32 b" "fits 21 c" for i st a b c fmt
    using that segment_bound(1) [OF head assms(2)] by (simp add: default_deliver_part_def split_def Let_def)
  then have "\<exists>t. for_each [0..<n] (default_deliver_part p a b c fmt code (h, one, s, n)) st = Some t"
    if "fits 10 a" "fits 32 b" "fits 21 c" for st a b c fmt
    using that by (intro for_each_upt_total) simp
  moreover obtain c a b d where f: "as_str (idx json MSG_CONTENT) = Some c"
    "encode_msg_content x (msg_fmt_of json) c = Inr code"
    "as_str (idx json SERVICE_ID) = Some a" "fits 10 a" "as_str (idx json SRC_ID) = Some b" "fits 32 b"
    "as_str (idx json DEST_ID) = Some d" "fits 21 d"
    using content_codeD [OF assms(1)] assms(4-6) [THEN field_fitsD] by blast
  ultimately obtain t where "for_each [0..<n]
      (default_deliver_part p a b d (msg_fmt_of json) code (h, one, s, n)) ([], [], [], w1) = Some t"
    by blast
  then show ?thesis
    using assms(3) f head by (cases t) (auto simp: default_encode_deliver_def succeed_def Let_def)
qed

lemma default_submit_part_sent:
  assumes "sms_head (length code) v = ((h, one, s, n), v')" and "length code < 2 ^ 24" and "i < n"
    and "length dest_ids < 2 ^ 24"
    and "default_submit_part p service_id sp_id valid_time at_time src_id dest_ids fmt code
      (h, one, s, n) i (dst, sq, w) = Some (dst', sq', w')"
    and "sent (pdu_u32 8) (143 + length dest_ids * 32 + h) 20 dst (take i (segments code)) sq"
  shows "sent (pdu_u32 8) (143 + length dest_ids * 32 + h) 20 dst' (take (Suc i) (segments code)) sq'"
  using assms(4-6) segment_bound [OF assms(1-3)]
  by (auto simp: default_submit_part_def part_simps simp del: of_nat_add of_nat_mult
      intro!: sent_snoc dest!: prefix_bytes_length)

lemma default_submit_loop:
  assumes "sms_head (length code) v = ((h, one, s, n), v')" and "length code < 2 ^ 24"
    and "m < 2 ^ 24" and "length dest_ids = m"
    and "for_each [0..<n] (default_submit_part p service_id sp_id valid_time at_time src_id dest_ids fmt
      code (h, one, s, n)) ([], [], w) = Some (dst, sq, w')"
  shows "sent (pdu_u32 8) (143 + m * 32 + h) 20 dst (segments code) sq"
  using for_each_invariant [OF assms(5), of
      "\<lambda>i (dst, sq, w). sent (pdu_u32 8) (143 + length dest_ids * 32 + h) 20 dst (take i (segments code)) sq"]
    default_submit_part_sent [OF assms(1,2)] assms(3,4) sms_head_segments(1) [OF assms(1,2)]
  by fastforce

lemma default_encode_submit_carries:
  assumes "default_encode_submit p x json w = Some (Inr out, json', w')"
    and "content_code x json = Some code" and "length code < 2 ^ 24"
    and "jlen (idx json DEST_IDS) < 2 ^ 24"
  shows "carries (pdu_u32 8) (143 + jlen (idx json DEST_IDS) * 32) 20 code out (idx json' SEQ_IDS)"
proof -
  obtain h one s n w1 where head: "sms_head (length code) w = ((h, one, s, n), w1)"
    by (metis surj_pair)
  show ?thesis
    using assms(1,4) content_codeD [OF assms(2)] head sms_head_head_len [OF head]
      default_submit_loop [OF head assms(3)]
    by (auto simp: default_encode_submit_def require_eq_Some bind_eq_Some Let_def
        split: if_splits intro!: carriesI elim!: is_arrayE dest!: unwrap_strs_length)
qed

lemma default_encode_submit_total:
  assumes "content_code x json = Some code" and "length code < 2 ^ 24"
    and "field_fits 10 (idx json SERVICE_ID)" and "field_fits 21 (idx json SRC_ID)"
    and "\<exists>s. as_str (idx json SP_ID) = Some s \<and> prefix_bytes s 6 \<noteq> None"
    and "fits 17 (str_or_empty (idx json VALID_TIME))" and "fits 17 (str_or_empty (idx json AT_TIME))"
    and "strs_fit 32 (idx json DEST_IDS)" and "is_array (idx json MSG_IDS)"
  shows "\<exists>out json' w'. default_encode_submit p x json w = Some (Inr out, json', w')"
proof -
  obtain h one s n w1 where head: "sms_head (length code) w = ((h, one, s, n), w1)"
    by (metis surj_pair)
  have "\<exists>st'. default_submit_part p a sp b c d ids fmt code (h, one, s, n) i st = Some st'"
    if "i < n" "fits 10 a" "prefix_bytes sp 6 \<noteq> None" "fits 17 b" "fits 17 c" "fits 21 d"
      "list_all (fits 32) ids" for i st a sp b c d ids fmt
    using that segment_bound(1) [OF head assms(2)] by (auto simp: default_submit_part_def split_def Let_def)
  then have "\<exists>t. for_each [0..<n] (default_submit_part p a sp b c d ids fmt code (h, one, s, n)) st = Some t"
    if "fits 10 a" "prefix_bytes sp 6 \<noteq> None" "fits 17 b" "fits 17 c" "fits 21 d"
      "list_all (fits 32) ids" for st a sp b c d ids fmt
    using that by (intro for_each_upt_total) simp
  moreover obtain c a sp d ids where f: "as_str (idx json MSG_CONTENT) = Some c"
    "encode_msg_content x (msg_fmt_of json) c = Inr code"
    "as_str (idx json SERVICE_ID) = Some a" "fits 10 a" "as_str (idx json SRC_ID) = Some d" "fits 21 d"
    "as_str (idx json SP_ID) = Some sp" "prefix_bytes sp 6 \<noteq> None" "is_array (idx json DEST_IDS)"
    "unwrap_strs (members (idx json DEST_IDS)) = Some ids" "list_all (fits 32) ids"
    using content_codeD [OF assms(1)] assms(3,4) [THEN field_fitsD] strs_fitD [OF assms(8)] assms(5)
    by blast
  ultimately obtain t where "for_each [0..<n]
      (default_submit_part p a sp (str_or_empty (idx json VALID_TIME)) (str_or_empty (idx json AT_TIME)) d
         ids (msg_fmt_of json) code (h, one, s, n)) ([], [], w1) = Some t"
    using assms(6,7) by blast
  then show ?thesis
    using assms(9) f head by (cases t) (auto simp: default_encode_submit_def succeed_def Let_def)
qed

text \<open>The messages of fixed length.\<close>

lemmas fixed_simps = require_eq_Some bind_eq_Some fill_bytes_zero_eq_Some frame_simps split_def Let_def

lemma default_encode_connect_frame:
  "default_encode_connect p x json w = Some (Inr b, j, w') \<Longrightarrow> ext_ok x \<Longrightarrow> pdu_ok b"
  by (auto simp: default_encode_connect_def fixed_simps split: if_splits)

lemma default_encode_short_frame:
  "default_encode_active_test p json w = Some (Inr b, j, w') \<Longrightarrow> pdu_ok b"
  "default_encode_terminate p json w = Some (Inr b, j, w') \<Longrightarrow> pdu_ok b"
  by (auto simp: default_encode_active_test_def default_encode_terminate_def fixed_simps)

lemma default_encode_report_frame:
  "default_encode_report p json w = Some (Inr b, j, w') \<Longrightarrow> pdu_ok b"
  by (auto simp: default_encode_report_def fixed_simps)

lemma default_encode_connect_rep_frame:
  "default_encode_connect_rep p st json w = Some (Some b, j, w') \<Longrightarrow> pdu_ok b"
  by (auto simp: default_encode_connect_rep_def fixed_simps)

lemma default_encode_submit_resp_frame:
  "default_encode_submit_resp p st json w = Some (Some b, j, w') \<Longrightarrow> pdu_ok b"
  by (auto simp: default_encode_submit_resp_def fixed_simps split: if_splits)

lemma default_encode_deliver_resp_frame:
  "default_encode_deliver_resp p st json w = Some (Some b, j, w') \<Longrightarrow> pdu_ok b"
  by (auto simp: default_encode_deliver_resp_def fixed_simps)

lemma default_encode_report_resp_frame:
  "default_encode_report_resp p st json w = Some (Some b, j, w') \<Longrightarrow> pdu_ok b"
  by (auto simp: default_encode_report_resp_def fixed_simps)

lemma default_encode_active_test_resp_frame:
  "default_encode_active_test_resp p st json w = Some (Some b, j, w') \<Longrightarrow> pdu_ok b"
  by (auto simp: default_encode_active_test_resp_def fixed_simps)

lemmas default_fixed_frames =
  default_encode_connect_frame default_encode_short_frame default_encode_report_frame

lemmas default_reply_frames =
  default_encode_connect_rep_frame default_encode_submit_resp_frame default_encode_deliver_resp_frame
  default_encode_report_resp_frame default_encode_active_test_resp_frame

end
