(* ===== verification/Smgp.thy ===== *)
theory Smgp
  imports Defaults
begin

text \<open>
  \<open>protocol/smgp.rs\<close>: SMGP 3.0.  Its message ids have ten bytes (gateway, time and sequence
  in packed decimal digits), its content has optional parameters behind it (TLVs), and
  reports are text inside the content of a deliver message.  \<open>encode_connect_rep\<close>,
  \<open>encode_deliver_resp\<close>, \<open>encode_report_resp\<close> and \<open>decode_connect_resp\<close> are the defaults.
\<close>

subsection \<open>Optional parameters\<close>

datatype SmgpTLV =
    TPPid u8
  | TPUdhi u8
  | ChargeUserType u8
  | LinkID buf
  | ChargeTermType u8
  | ChargeTermPseudo buf
  | DestTermType u8
  | DestTermPseudo buf
  | PkTotal u8
  | PkNumber
  | SubmitMsgType u8
  | SPDealReslt u8
  | SrcTermType u8
  | SrcTermPseudo buf
  | NodesCount u8
  | MsgSrc buf
  | SrcType u8
  | MServiceID buf

fun tlv_get_u16 :: "SmgpTLV \<Rightarrow> u16" where
  "tlv_get_u16 (TPPid _) = 0x0001"
| "tlv_get_u16 (TPUdhi _) = 0x0002"
| "tlv_get_u16 (ChargeUserType _) = 0x0004"
| "tlv_get_u16 (LinkID _) = 0x0003"
| "tlv_get_u16 (ChargeTermType _) = 0x0005"
| "tlv_get_u16 (ChargeTermPseudo _) = 0x0006"
| "tlv_get_u16 (DestTermType _) = 0x0007"
| "tlv_get_u16 (DestTermPseudo _) = 0x0008"
| "tlv_get_u16 (PkTotal _) = 0x0009"
| "tlv_get_u16 PkNumber = 0x000A"
| "tlv_get_u16 (SubmitMsgType _) = 0x000B"
| "tlv_get_u16 (SPDealReslt _) = 0x000C"
| "tlv_get_u16 (SrcTermType _) = 0x000D"
| "tlv_get_u16 (SrcTermPseudo _) = 0x000E"
| "tlv_get_u16 (NodesCount _) = 0x000F"
| "tlv_get_u16 (MsgSrc _) = 0x0010"
| "tlv_get_u16 (SrcType _) = 0x0011"
| "tlv_get_u16 (MServiceID _) = 0x0012"

definition tlv_from_u8 :: "u16 \<Rightarrow> u8 \<Rightarrow> SmgpTLV" where
  "tlv_from_u8 key v =
     (if key = 0x0001 then TPPid v
      else if key = 0x0002 then TPUdhi v
      else if key = 0x0004 then ChargeUserType v
      else if key = 0x0005 then ChargeTermType v
      else if key = 0x0007 then DestTermType v
      else if key = 0x0009 then PkTotal v
      else if key = 0x000A then PkNumber
      else if key = 0x000B then SubmitMsgType v
      else if key = 0x000C then SPDealReslt v
      else if key = 0x000D then SrcTermType v
      else if key = 0x000F then NodesCount v
      else if key = 0x0011 then SrcType v
      else SrcType v)"

definition tlv_from_slice :: "u16 \<Rightarrow> buf \<Rightarrow> SmgpTLV" where
  "tlv_from_slice key v =
     (if key = 0x0003 then LinkID v
      else if key = 0x0006 then ChargeTermPseudo v
      else if key = 0x0008 then DestTermPseudo v
      else if key = 0x000E then SrcTermPseudo v
      else if key = 0x0010 then MsgSrc v
      else if key = 0x0012 then MServiceID v
      else MServiceID v)"

text \<open>The value bytes \<open>coder_tlv\<close> writes, and whether a parameter holds a byte or a slice.\<close>

fun tlv_put_value :: "SmgpTLV \<Rightarrow> nat \<Rightarrow> buf \<Rightarrow> buf" where
  "tlv_put_value (TPPid v) n b = put_u8 (put_u16 b 1) v"
| "tlv_put_value (TPUdhi v) n b = put_u8 (put_u16 b 1) v"
| "tlv_put_value (ChargeUserType v) n b = put_u8 (put_u16 b 1) v"
| "tlv_put_value (ChargeTermType v) n b = put_u8 (put_u16 b 1) v"
| "tlv_put_value (DestTermType v) n b = put_u8 (put_u16 b 1) v"
| "tlv_put_value (PkTotal v) n b = put_u8 (put_u16 b 1) v"
| "tlv_put_value (SubmitMsgType v) n b = put_u8 (put_u16 b 1) v"
| "tlv_put_value (SPDealReslt v) n b = put_u8 (put_u16 b 1) v"
| "tlv_put_value (SrcTermType v) n b = put_u8 (put_u16 b 1) v"
| "tlv_put_value (NodesCount v) n b = put_u8 (put_u16 b 1) v"
| "tlv_put_value (SrcType v) n b = put_u8 (put_u16 b 1) v"
| "tlv_put_value PkNumber n b = put_u8 (put_u16 b 1) (of_nat n)"
| "tlv_put_value (DestTermPseudo v) n b = put_u16 b (of_nat (length v)) @ v"
| "tlv_put_value (MsgSrc v) n b = put_u16 b (of_nat (length v)) @ v"
| "tlv_put_value (MServiceID v) n b = put_u16 b (of_nat (length v)) @ v"
| "tlv_put_value (SrcTermPseudo v) n b = put_u16 b (of_nat (length v)) @ v"
| "tlv_put_value (LinkID v) n b = put_u16 b (of_nat (length v)) @ v"
| "tlv_put_value (ChargeTermPseudo v) n b = put_u16 b (of_nat (length v)) @ v"

definition coder_tlv :: "buf \<Rightarrow> SmgpTLV list \<Rightarrow> nat \<Rightarrow> buf" where
  "coder_tlv buf tlvs sms_len =
     fold (\<lambda>tlv buf. tlv_put_value tlv sms_len (put_u16 buf (tlv_get_u16 tlv))) tlvs buf"

fun tlv_holds_slice :: "SmgpTLV \<Rightarrow> bool" where
  "tlv_holds_slice (DestTermPseudo _) = True"
| "tlv_holds_slice (MsgSrc _) = True"
| "tlv_holds_slice (MServiceID _) = True"
| "tlv_holds_slice (SrcTermPseudo _) = True"
| "tlv_holds_slice (LinkID _) = True"
| "tlv_holds_slice (ChargeTermPseudo _) = True"
| "tlv_holds_slice _ = False"

text \<open>\<open>tlvs.iter_mut().find(..)\<close>: the place of the first parameter with this key.\<close>

fun tlv_find :: "u16 \<Rightarrow> SmgpTLV list \<Rightarrow> nat option" where
  "tlv_find key [] = None"
| "tlv_find key (t # ts) =
     (if tlv_get_u16 t = key then Some 0 else map_option Suc (tlv_find key ts))"

function decode_tlvs :: "buf \<Rightarrow> SmgpTLV list \<Rightarrow> SmgpTLV list option" where
  "decode_tlvs buf tlvs =
     (if 5 \<le> length buf then
        (case get_u16 buf of None \<Rightarrow> None | Some (key, buf) \<Rightarrow>
        (case get_u16 buf of None \<Rightarrow> None | Some (len, buf) \<Rightarrow>
         if length buf < unat len then Some tlvs
         else
           (case tlv_find key tlvs of
              None \<Rightarrow> decode_tlvs buf tlvs
            | Some i \<Rightarrow>
                if tlv_holds_slice (tlvs ! i) then
                  (case split_to buf (unat len) of None \<Rightarrow> None | Some (v, buf) \<Rightarrow>
                     decode_tlvs buf (tlvs[i := tlv_from_slice key v]))
                else
                  (case get_u8 buf of None \<Rightarrow> None | Some (v, buf) \<Rightarrow>
                     decode_tlvs buf (tlvs[i := tlv_from_u8 key v])))))
      else Some tlvs)"
  by pat_completeness auto
termination
  by (relation "measure (length \<circ> fst)") (auto dest!: read_lengths)

declare decode_tlvs.simps [simp del]

subsection \<open>Message ids\<close>

text \<open>
  \<open>create_msg_id\<close>: the buffer of ten bytes is not initialised, but all of it is written.
  A packed digit pair is the high digit shifted left by four bits and the low digit.
\<close>

definition digit_pair :: "u32 \<Rightarrow> u8" where
  "digit_pair d = ucast (push_bit 4 ((d div 10) mod 10) OR d mod 10)"

definition create_msg_id :: "u32 \<Rightarrow> world \<Rightarrow> buf \<times> world" where
  "create_msg_id len w =
     (let buf = replicate 10 (0 :: u8);
          ismg = ismg_id w;
          buf = fold (\<lambda>i buf. buf[2 - i := ucast
                  (push_bit 4 (drop_bit ((i * 2 + 1) * 4) ismg AND 0xF) OR
                   (drop_bit (i * 2 * 4) ismg AND 0xF))]) [0..<3] buf;
          (time, w) = get_time w;
          time = time div 100;
          (buf, time) = fold (\<lambda>i (buf, time). (buf[6 - i := digit_pair time], time div 100))
                          [0..<4] (buf, time);
          (seq, w) = get_sequence_id len w;
          seq = seq mod 1000000;
          (buf, seq) = fold (\<lambda>i (buf, seq). (buf[9 - i := digit_pair seq], seq div 100))
                         [0..<3] (buf, seq)
      in (buf, w))"

subsection \<open>Connection and acknowledgement\<close>

definition smgp_encode_connect :: "ext \<Rightarrow> json \<Rightarrow> world \<Rightarrow> buf enc" where
  "smgp_encode_connect x json w =
     require (as_str (idx json LOGIN_NAME)) (fail NotFound json w) (\<lambda>client_id.
     require (as_str (idx json PASSWORD)) (fail NotFound json w) (\<lambda>password.
     require (as_u8 (idx json VERSION)) (fail NotFound json w) (\<lambda>version. do {
       let (time, w) = get_time w;
       let dst = put_u32 [] 42;
       let dst = put_u32 dst (get_type_id SMGP Connect);
       let (seq_id, w) = get_sequence_id 1 w;
       let dst = put_u32 dst seq_id;
       dst \<leftarrow> fill_bytes_zero dst client_id 8;
       let dst = dst @ smgp_get_auth x client_id password time;
       let dst = put_u8 dst 2;
       let dst = put_u32 dst time;
       let dst = put_u8 dst version;
       succeed dst json w
     })))"

definition smgp_encode_submit_resp :: "SmsStatus \<Rightarrow> json \<Rightarrow> world \<Rightarrow> reply" where
  "smgp_encode_submit_resp status json w =
     require (as_u32 (idx json SEQ_ID)) (no_reply json w) (\<lambda>seq_id.
     if is_array (idx json DEST_IDS) then do {
       dest_ids \<leftarrow> unwrap_strs (members (idx json DEST_IDS));
       let submit_status = get_status_id SMGP status;
       let (msg_id, w) = create_msg_id (of_nat (length dest_ids)) w;
       let json = setk json MSG_ID (JStr (smgp_msg_id_buf_to_str msg_id));
       let buf = put_u32 [] 26;
       let buf = put_u32 buf (get_type_id SMGP SubmitResp);
       let buf = put_u32 buf seq_id;
       let buf = buf @ msg_id;
       let buf = put_u32 buf submit_status;
       reply buf json w
     }
     else no_reply json w)"

subsection \<open>Status reports\<close>

definition smgp_encode_report :: "json \<Rightarrow> world \<Rightarrow> buf enc" where
  "smgp_encode_report json w =
     require (as_str (idx json MSG_ID)) (fail NotFound json w) (\<lambda>v.
     let msg_id = smgp_msg_id_str_to_buf v in
     require (as_str (idx json SMGP_RECEIVE_TIME)) (fail NotFound json w) (\<lambda>receive_time.
     require (as_str (idx json STATE)) (fail NotFound json w) (\<lambda>stat.
     require (as_str (idx json SUBMIT_TIME)) (fail NotFound json w) (\<lambda>submit_time.
     require (as_str (idx json DONE_TIME)) (fail NotFound json w) (\<lambda>done_time.
     require (as_str (idx json SRC_ID)) (fail NotFound json w) (\<lambda>src_id.
     require (as_str (idx json DEST_ID)) (fail NotFound json w) (\<lambda>dest_id. do {
       let dst = put_u32 [] 183;
       let dst = put_u32 dst (get_type_id SMGP Deliver);
       let (seq_id, w) = get_sequence_id 1 w;
       let seq_ids = [seq_id];
       let dst = put_u32 dst seq_id;
       let dst = dst @ msg_id;
       let dst = put_u8 dst 1;
       let dst = put_u8 dst 0;
       dst \<leftarrow> fill_bytes_zero dst receive_time 14;
       dst \<leftarrow> fill_bytes_zero dst src_id 21;
       dst \<leftarrow> fill_bytes_zero dst dest_id 21;
       let dst = put_u8 dst 102;
       let dst = dst @ as_bytes ''id:'';
       let dst = dst @ msg_id;
       let dst = dst @ as_bytes '' sub:001  dlvrd:000 Submit_Date:'';
       dst \<leftarrow> fill_bytes_zero dst submit_time 10;
       let dst = dst @ as_bytes '' Done_Date:'';
       dst \<leftarrow> fill_bytes_zero dst done_time 10;
       let dst = dst @ as_bytes ''  Stat:'';
       dst \<leftarrow> fill_bytes_zero dst stat 7;
       let dst = dst @ as_bytes ''   err:000 text:'';
       succeed dst (setk json SEQ_IDS (nums seq_ids)) w
     })))))))"

subsection \<open>Deliver\<close>

definition smgp_deliver_part ::
    "string \<Rightarrow> string \<Rightarrow> string \<Rightarrow> u8 \<Rightarrow> buf \<Rightarrow> nat \<times> nat \<times> u8 \<times> nat \<Rightarrow> nat \<Rightarrow> SmgpTLV list \<Rightarrow>
     nat \<Rightarrow> buf \<times> u32 list \<times> world \<Rightarrow> (buf \<times> u32 list \<times> world) option" where
  "smgp_deliver_part receive_time src_id dest_id msg_fmt msg_content_code seg tlv_len tlvs i st = do {
     let (msg_content_head_len, one_content_len, msg_content_seq_id, sms_len) = seg;
     let (dst, seq_ids, w) = st;
     this_msg_content \<leftarrow> segment msg_content_code one_content_len sms_len i;
     let dst = put_u32 dst (of_nat (89 + msg_content_head_len + length this_msg_content + tlv_len));
     let dst = put_u32 dst (get_type_id SMGP Deliver);
     let (seq_id, w) = get_sequence_id 1 w;
     let seq_ids = seq_ids @ [seq_id];
     let dst = put_u32 dst seq_id;
     let seq_ids = seq_ids @ [seq_id];
     let (msg_id, w) = create_msg_id 1 w;
     let dst = dst @ msg_id;
     let dst = put_u8 dst 0;
     let dst = put_u8 dst msg_fmt;
     dst \<leftarrow> fill_bytes_zero dst receive_time 14;
     dst \<leftarrow> fill_bytes_zero dst src_id 21;
     dst \<leftarrow> fill_bytes_zero dst dest_id 21;
     let dst = put_u8 dst (of_nat (length this_msg_content + msg_content_head_len));
     let dst = put_head dst msg_content_head_len msg_content_seq_id sms_len i;
     let dst = dst @ this_msg_content;
     let dst = dst @ zeros 8;
     let dst = (if tlvs \<noteq> [] then coder_tlv dst tlvs (i + 1) else dst);
     Some (dst, seq_ids, w)
   }"

definition smgp_encode_deliver :: "ext \<Rightarrow> json \<Rightarrow> world \<Rightarrow> buf enc" where
  "smgp_encode_deliver x json w =
     require (as_str (idx json MSG_ID)) (fail NotFound json w) (\<lambda>_.
     require (as_str (idx json SMGP_RECEIVE_TIME)) (fail NotFound json w) (\<lambda>receive_time.
     require (as_str (idx json MSG_CONTENT)) (fail NotFound json w) (\<lambda>msg_content.
     let msg_fmt = msg_fmt_of json in
     case encode_msg_content x msg_fmt msg_content of
       Inl e \<Rightarrow> fail Other json w
     | Inr msg_content_code \<Rightarrow>
     require (as_str (idx json SRC_ID)) (fail NotFound json w) (\<lambda>src_id.
     require (as_str (idx json DEST_ID)) (fail NotFound json w) (\<lambda>dest_id. do {
       let (seg, w) = sms_head (length msg_content_code) w;
       let sms_len = snd (snd (snd seg));
       let (tlv_len, tlvs) =
         (if length msg_content_code \<le> 140 then (0, []) else (5, [TPUdhi 1]));
       (dst, seq_ids, w) \<leftarrow>
         for_each [0..<sms_len]
           (smgp_deliver_part receive_time src_id dest_id msg_fmt msg_content_code seg tlv_len tlvs)
           ([], [], w);
       succeed dst (setk json SEQ_IDS (nums seq_ids)) w
     })))))"

subsection \<open>Submit\<close>

definition smgp_submit_part ::
    "string \<Rightarrow> string \<Rightarrow> string \<Rightarrow> string \<Rightarrow> string list \<Rightarrow> u8 \<Rightarrow> buf \<Rightarrow>
     nat \<times> nat \<times> u8 \<times> nat \<Rightarrow> nat \<Rightarrow> SmgpTLV list \<Rightarrow>
     nat \<Rightarrow> buf \<times> u32 list \<times> world \<Rightarrow> (buf \<times> u32 list \<times> world) option" where
  "smgp_submit_part service_id valid_time at_time src_id dest_ids msg_fmt
       msg_content_code seg tlv_len tlvs i st = do {
     let (msg_content_head_len, one_content_len, msg_content_seq_id, sms_len) = seg;
     let (dst, seq_ids, w) = st;
     this_msg_content \<leftarrow> segment msg_content_code one_content_len sms_len i;
     let dst = put_u32 dst (of_nat (126 + length dest_ids * 21 + msg_content_head_len +
       length this_msg_content + tlv_len));
     let dst = put_u32 dst (get_type_id SMGP Submit);
     let (seq_id, w) = get_sequence_id (of_nat (length dest_ids)) w;
     let seq_ids = seq_ids @ [seq_id];
     let dst = put_u32 dst seq_id;
     let dst = put_u8 dst 6;
     let dst = put_u8 dst 1;
     let dst = put_u8 dst 2;
     dst \<leftarrow> fill_bytes_zero dst service_id 10;
     let dst = dst @ as_bytes ''00'';
     let dst = dst @ as_bytes ''000000'';
     let dst = dst @ as_bytes ''000000'';
     let dst = put_u8 dst msg_fmt;
     dst \<leftarrow> fill_bytes_zero dst valid_time 17;
     dst \<leftarrow> fill_bytes_zero dst at_time 17;
     dst \<leftarrow> fill_bytes_zero dst src_id 21;
     let dst = dst @ zeros 21;
     let dst = put_u8 dst (of_nat (length dest_ids));
     dst \<leftarrow> fill_all 21 dest_ids dst;
     let dst = put_u8 dst (of_nat (length this_msg_content) + of_nat msg_content_head_len);
     let dst = put_head dst msg_content_head_len msg_content_seq_id sms_len i;
     let dst = dst @ this_msg_content;
     let dst = dst @ zeros 8;
     let dst = (if tlvs \<noteq> [] then coder_tlv dst tlvs (i + 1) else dst);
     Some (dst, seq_ids, w)
   }"

text \<open>\<open>as u8\<close> of a floating point number stops at 255.\<close>

definition saturate_u8 :: "nat \<Rightarrow> u8" where
  "saturate_u8 n = of_nat (min n 255)"

definition smgp_encode_submit :: "ext \<Rightarrow> json \<Rightarrow> world \<Rightarrow> buf enc" where
  "smgp_encode_submit x json w =
     require (as_str (idx json MSG_CONTENT)) (fail NotFound json w) (\<lambda>msg_content.
     if \<not> is_array (idx json MSG_IDS) then fail NotFound json w else
     let msg_fmt = msg_fmt_of json in
     case encode_msg_content x msg_fmt msg_content of
       Inl e \<Rightarrow> fail Other json w
     | Inr msg_content_code \<Rightarrow>
     let at_time = str_or_empty (idx json AT_TIME) in
     require (as_str (idx json SERVICE_ID)) (fail NotFound json w) (\<lambda>service_id.
     let valid_time = str_or_empty (idx json VALID_TIME) in
     require (as_str (idx json SRC_ID)) (fail NotFound json w) (\<lambda>src_id.
     if \<not> is_array (idx json DEST_IDS) then fail NotFound json w else do {
       dest_ids \<leftarrow> unwrap_strs (members (idx json DEST_IDS));
       let (seg, w) = sms_head (length msg_content_code) w;
       let sms_len = snd (snd (snd seg));
       let (tlv_len, tlvs) =
         (if length msg_content_code \<le> 140 then (0, [])
          else (15, [TPUdhi 1, PkTotal (saturate_u8 sms_len), PkNumber]));
       (dst, seq_ids, w) \<leftarrow>
         for_each [0..<sms_len]
           (smgp_submit_part service_id valid_time at_time src_id dest_ids msg_fmt
              msg_content_code seg tlv_len tlvs)
           ([], [], w);
       succeed dst (setk json SEQ_IDS (nums seq_ids)) w
     })))"

subsection \<open>Decoding\<close>

definition smgp_decode_submit_or_deliver_resp :: "buf \<Rightarrow> u32 \<Rightarrow> u32 \<Rightarrow> json res" where
  "smgp_decode_submit_or_deliver_resp buf seq tp = do {
     let json = msg_header seq tp;
     (b, buf) \<leftarrow> split_to buf 10;
     let json = setk json MSG_ID (JStr (smgp_msg_id_buf_to_str b));
     (result, buf) \<leftarrow> get_u32 buf;
     let json = setk json RESULT (num result);
     Ok (if is_speed_limit SMGP result then setk json SPEED_LIMIT (JBool True) else json)
   }"

definition tlv_is_long :: "SmgpTLV list \<Rightarrow> bool option" where
  "tlv_is_long tlvs =
     (case tlvs of [] \<Rightarrow> None
      | t # _ \<Rightarrow> Some (case t of TPUdhi v \<Rightarrow> v = 1 | _ \<Rightarrow> False))"

definition smgp_decode_deliver :: "ext \<Rightarrow> buf \<Rightarrow> u32 \<Rightarrow> u32 \<Rightarrow> json res" where
  "smgp_decode_deliver x buf seq tp = do {
     let json = msg_header seq tp;
     (b, buf) \<leftarrow> split_to buf 10;
     let json = setk json MSG_ID (JStr (smgp_msg_id_buf_to_str b));
     (is_report, buf) \<leftarrow> get_u8 buf;
     (msg_fmt, buf) \<leftarrow> get_u8 buf;
     let json = setk json MSG_FMT (num msg_fmt);
     let (s, buf) = load_utf8_string buf 14;
     let json = setk json SMGP_RECEIVE_TIME (JStr s);
     let (s, buf) = load_utf8_string buf 21;
     let json = setk json SRC_ID (JStr s);
     let (s, buf) = load_utf8_string buf 21;
     let json = setk json DEST_ID (JStr s);
     (msg_content_len, buf) \<leftarrow> get_u8 buf;
     (content_buf, buf) \<leftarrow> split_to buf (unat msg_content_len);
     buf \<leftarrow> advance buf 8;
     need_tlvs \<leftarrow> decode_tlvs buf [TPUdhi 0];
     is_long_sms \<leftarrow> tlv_is_long need_tlvs;
     if is_report = 0 then do {
       let json = setk json MSG_FMT (num msg_fmt);
       json_of (decode_msg_content x content_buf msg_fmt msg_content_len json is_long_sms)
     }
     else do {
       let json = setk json IS_REPORT (JBool True);
       content_buf \<leftarrow> advance content_buf 3;
       (b, content_buf) \<leftarrow> split_to content_buf 10;
       let json = setk json PASSAGE_MSG_ID (JStr (smgp_msg_id_buf_to_str b));
       content_buf \<leftarrow> advance content_buf 18;
       content_buf \<leftarrow> advance content_buf 13;
       let (s, content_buf) = load_utf8_string content_buf 10;
       let json = setk json SUBMIT_TIME (JStr s);
       content_buf \<leftarrow> advance content_buf 11;
       let (s, content_buf) = load_utf8_string content_buf 10;
       let json = setk json DONE_TIME (JStr s);
       content_buf \<leftarrow> advance content_buf 6;
       let (s, content_buf) = load_utf8_string content_buf 7;
       let json = setk json STATE (JStr s);
       content_buf \<leftarrow> advance content_buf 5;
       let (s, content_buf) = load_utf8_string content_buf 3;
       let json = setk json ERROR_CODE (JStr s);
       Ok (setk json MSG_TYPE_U32 (num (get_type_id SMGP Report)))
     }
   }"

definition smgp_decode_submit :: "ext \<Rightarrow> buf \<Rightarrow> u32 \<Rightarrow> u32 \<Rightarrow> json res" where
  "smgp_decode_submit x buf seq tp = do {
     let json = msg_header seq tp;
     buf \<leftarrow> advance buf 27;
     (msg_fmt, buf) \<leftarrow> get_u8 buf;
     let json = setk json MSG_FMT (num msg_fmt);
     let (s, buf) = load_utf8_string buf 17;
     let json = setk json VALID_TIME (JStr s);
     let (s, buf) = load_utf8_string buf 17;
     let json = setk json AT_TIME (JStr s);
     let (s, buf) = load_utf8_string buf 21;
     let json = setk json SRC_ID (JStr s);
     buf \<leftarrow> advance buf 21;
     (dest_len, buf) \<leftarrow> get_u8 buf;
     let (dest_ids, buf) = load_strings (unat dest_len) 21 buf;
     (msg_content_len, buf) \<leftarrow> get_u8 buf;
     if \<not> unat msg_content_len < length buf then Err Other
     else do {
       (content_buf, buf) \<leftarrow> split_to buf (unat msg_content_len);
       buf \<leftarrow> advance buf 8;
       need_tlvs \<leftarrow> decode_tlvs buf [TPUdhi 0];
       is_long_sms \<leftarrow> tlv_is_long need_tlvs;
       json_of (decode_msg_content x content_buf msg_fmt msg_content_len json is_long_sms)
     }
   }"

definition smgp_decode_connect :: "buf \<Rightarrow> u32 \<Rightarrow> u32 \<Rightarrow> json res" where
  "smgp_decode_connect buf seq tp = do {
     let json = msg_header seq tp;
     let (s, buf) = load_utf8_string buf 8;
     let json = setk json LOGIN_NAME (JStr s);
     (v, buf) \<leftarrow> get_u64 buf;
     let json = setk json AUTHENTICATOR (num v);
     (v, buf) \<leftarrow> get_u64 buf;
     let json = setk json AUTHENTICATOR (num v);
     buf \<leftarrow> advance buf 1;
     (v, buf) \<leftarrow> get_u32 buf;
     let json = setk json TIMESTAMP (num v);
     (v, buf) \<leftarrow> get_u8 buf;
     Ok (setk json VERSION (num (ucast v :: u32)))
   }"

subsection \<open>What the encoders send\<close>

lemma coder_tlv_append:
  "coder_tlv dst tlvs k = dst @ concat (map (\<lambda>t. tlv_put_value t k (put_u16 [] (tlv_get_u16 t))) tlvs)"
proof -
  have put: "tlv_put_value t k (a @ b) = a @ tlv_put_value t k b" for t and a b :: buf
    by (cases t) (simp_all add: put_u8_def put_u16_def)
  show ?thesis
    unfolding coder_tlv_def
    by (induction tlvs arbitrary: dst) (simp_all add: put_u16_def put)
qed

lemma length_digit_loop:
  "length (fst (fold (\<lambda>i (buf, t). (buf[k - i := digit_pair t], t div 100)) xs (buf, t))) = length buf"
  by (induction xs arbitrary: buf t) simp_all

lemma length_update_loop: "length (fold (\<lambda>i buf. buf[k - i := f i]) xs buf) = length buf"
  by (induction xs arbitrary: buf) simp_all

lemma length_create_msg_id [simp]: "length (fst (create_msg_id n w)) = 10"
  by (simp add: create_msg_id_def Let_def split_def length_digit_loop [unfolded split_def] length_update_loop)

text \<open>The optional parameters of a long message.\<close>

definition deliver_tlvs :: "nat \<Rightarrow> SmgpTLV list" where
  "deliver_tlvs h = (if h = 0 then [] else [TPUdhi 1])"

definition submit_tlvs :: "nat \<Rightarrow> nat \<Rightarrow> SmgpTLV list" where
  "submit_tlvs h n = (if h = 0 then [] else [TPUdhi 1, PkTotal (saturate_u8 n), PkNumber])"

definition tlv_tail :: "nat \<Rightarrow> nat \<Rightarrow> nat" where
  "tlv_tail h k = (if h = 0 then 0 else k)"

lemmas tlv_simps = deliver_tlvs_def submit_tlvs_def tlv_tail_def coder_tlv_append

lemma smgp_deliver_part_sent:
  assumes "sms_head (length code) v = ((h, one, s, n), v')" and "length code < 2 ^ 24" and "i < n"
    and "smgp_deliver_part receive_time src_id dest_id fmt code (h, one, s, n) (tlv_tail h 5)
      (deliver_tlvs h) i (dst, sq, w) = Some (dst', sq', w')"
    and "sent (pdu_u32 8) (81 + h) (8 + tlv_tail h 5) dst (take i (segments code)) sq0"
    and "sq = concat (map (\<lambda>s. [s, s]) sq0)"
  shows "\<exists>sq0. sent (pdu_u32 8) (81 + h) (8 + tlv_tail h 5) dst' (take (Suc i) (segments code)) sq0 \<and>
    sq' = concat (map (\<lambda>s. [s, s]) sq0)"
  using assms(4-6) segment_bound [OF assms(1-3)]
  by (auto simp: smgp_deliver_part_def part_simps tlv_simps simp del: of_nat_add
      intro!: sent_snoc exI [of _ "sq0 @ [sequence w]"])

lemma smgp_deliver_loop:
  assumes "sms_head (length code) v = ((h, one, s, n), v')" and "length code < 2 ^ 24"
    and "for_each [0..<n] (smgp_deliver_part receive_time src_id dest_id fmt code (h, one, s, n)
      (tlv_tail h 5) (deliver_tlvs h)) ([], [], w) = Some (dst, sq, w')"
  shows "\<exists>sq0. sent (pdu_u32 8) (81 + h) (8 + tlv_tail h 5) dst (segments code) sq0 \<and>
    sq = concat (map (\<lambda>s. [s, s]) sq0)"
  using for_each_invariant [OF assms(3), of
      "\<lambda>i (dst, sq, w). \<exists>sq0. sent (pdu_u32 8) (81 + h) (8 + tlv_tail h 5) dst (take i (segments code)) sq0 \<and>
        sq = concat (map (\<lambda>s. [s, s]) sq0)"]
    smgp_deliver_part_sent [OF assms(1,2)] sms_head_segments(1) [OF assms(1,2)]
  by fastforce

lemma smgp_encode_deliver_carries:
  assumes "smgp_encode_deliver x json w = Some (Inr out, json', w')"
    and "content_code x json = Some code" and "length code < 2 ^ 24"
  shows "\<exists>sq :: u32 list. carries (pdu_u32 8) 81 (8 + tlv_tail (head_len (length code)) 5) code out (nums sq) \<and>
    idx json' SEQ_IDS = nums (concat (map (\<lambda>s. [s, s]) sq))"
proof -
  obtain h one s n w1 where head: "sms_head (length code) w = ((h, one, s, n), w1)"
    by (metis surj_pair)
  have tlv: "(if length code \<le> 140 then (0, []) else (5, [TPUdhi 1])) = (tlv_tail h 5, deliver_tlvs h)"
    using sms_head_head_len [OF head] by (simp add: head_len_def tlv_tail_def deliver_tlvs_def)
  obtain a b c fmt sq w2 where run: "for_each [0..<n] (smgp_deliver_part a b c fmt code (h, one, s, n)
      (tlv_tail h 5) (deliver_tlvs h)) ([], [], w1) = Some (out, sq, w2)"
    and json': "json' = setk json SEQ_IDS (nums sq)"
    using assms(1) content_codeD [OF assms(2)] head
    by (auto simp: smgp_encode_deliver_def require_eq_Some bind_eq_Some Let_def tlv)
  from smgp_deliver_loop [OF head assms(3) run] obtain sq0 where
    "sent (pdu_u32 8) (81 + head_len (length code)) (8 + tlv_tail h 5) out (segments code) sq0"
    and "sq = concat (map (\<lambda>s. [s, s]) sq0)"
    using sms_head_head_len [OF head] by auto
  then show ?thesis
    using sms_head_head_len [OF head] by (intro exI [of _ sq0]) (simp add: json' carriesI)
qed

lemma smgp_encode_deliver_total:
  assumes "content_code x json = Some code" and "length code < 2 ^ 24"
    and "as_str (idx json MSG_ID) \<noteq> None" and "field_fits 14 (idx json SMGP_RECEIVE_TIME)"
    and "field_fits 21 (idx json SRC_ID)" and "field_fits 21 (idx json DEST_ID)"
  shows "\<exists>out json' w'. smgp_encode_deliver x json w = Some (Inr out, json', w')"
proof -
  obtain h one s n w1 where head: "sms_head (length code) w = ((h, one, s, n), w1)"
    by (metis surj_pair)
  have "\<exists>st'. smgp_deliver_part a b c fmt code (h, one, s, n) tl tlvs i st = Some st'"
    if "i < n" "fits 14 a" "fits 21 b" "fits 21 c" for i st a b c fmt tl tlvs
    using that segment_bound(1) [OF head assms(2)] by (simp add: smgp_deliver_part_def split_def Let_def)
  then have "\<exists>t. for_each [0..<n] (smgp_deliver_part a b c fmt code (h, one, s, n) tl tlvs) st = Some t"
    if "fits 14 a" "fits 21 b" "fits 21 c" for st a b c fmt tl tlvs
    using that by (intro for_each_upt_total) simp
  moreover obtain c a b d where f: "as_str (idx json MSG_CONTENT) = Some c"
    "encode_msg_content x (msg_fmt_of json) c = Inr code"
    "as_str (idx json SMGP_RECEIVE_TIME) = Some a" "fits 14 a" "as_str (idx json SRC_ID) = Some b" "fits 21 b"
    "as_str (idx json DEST_ID) = Some d" "fits 21 d"
    using content_codeD [OF assms(1)] assms(4-6) [THEN field_fitsD] by blast
  ultimately obtain t u where
    "for_each [0..<n] (smgp_deliver_part a b d (msg_fmt_of json) code (h, one, s, n) 0 []) ([], [], w1) = Some t"
    "for_each [0..<n] (smgp_deliver_part a b d (msg_fmt_of json) code (h, one, s, n) 5 [TPUdhi 1])
      ([], [], w1) = Some u"
    by blast
  then show ?thesis
    using assms(3) f head
    by (cases t; cases u) (auto simp: smgp_encode_deliver_def succeed_def Let_def)
qed

lemma smgp_submit_part_sent:
  assumes "sms_head (length code) v = ((h, one, s, n), v')" and "length code < 2 ^ 24" and "i < n"
    and "length dest_ids < 2 ^ 24"
    and "smgp_submit_part service_id valid_time at_time src_id dest_ids fmt code
      (h, one, s, n) (tlv_tail h 15) (submit_tlvs h n) i (dst, sq, w) = Some (dst', sq', w')"
    and "sent (pdu_u32 8) (118 + length dest_ids * 21 + h) (8 + tlv_tail h 15) dst (take i (segments code)) sq"
  shows "sent (pdu_u32 8) (118 + length dest_ids * 21 + h) (8 + tlv_tail h 15) dst' (take (Suc i) (segments code)) sq'"
  using assms(4-6) segment_bound [OF assms(1-3)]
  by (auto simp: smgp_submit_part_def part_simps tlv_simps simp del: of_nat_add of_nat_mult
      intro!: sent_snoc dest!: prefix_bytes_length)

lemma smgp_submit_loop:
  assumes "sms_head (length code) v = ((h, one, s, n), v')" and "length code < 2 ^ 24"
    and "m < 2 ^ 24" and "length dest_ids = m"
    and "for_each [0..<n] (smgp_submit_part service_id valid_time at_time src_id dest_ids fmt
      code (h, one, s, n) (tlv_tail h 15) (submit_tlvs h n)) ([], [], w) = Some (dst, sq, w')"
  shows "sent (pdu_u32 8) (118 + m * 21 + h) (8 + tlv_tail h 15) dst (segments code) sq"
  using for_each_invariant [OF assms(5), of
      "\<lambda>i (dst, sq, w). sent (pdu_u32 8) (118 + length dest_ids * 21 + h) (8 + tlv_tail h 15) dst (take i (segments code)) sq"]
    smgp_submit_part_sent [OF assms(1,2)] assms(3,4) sms_head_segments(1) [OF assms(1,2)]
  by fastforce

lemma smgp_encode_submit_carries:
  assumes "smgp_encode_submit x json w = Some (Inr out, json', w')"
    and "content_code x json = Some code" and "length code < 2 ^ 24"
    and "jlen (idx json DEST_IDS) < 2 ^ 24"
  shows "carries (pdu_u32 8) (118 + jlen (idx json DEST_IDS) * 21)
    (8 + tlv_tail (head_len (length code)) 15) code out (idx json' SEQ_IDS)"
proof -
  obtain h one s n w1 where head: "sms_head (length code) w = ((h, one, s, n), w1)"
    by (metis surj_pair)
  have tlv: "tlv_tail h 15 = (if length code \<le> 140 then 0 else 15)"
    "submit_tlvs h n =
      (if length code \<le> 140 then [] else [TPUdhi 1, PkTotal (saturate_u8 n), PkNumber])"
    using sms_head_head_len [OF head] by (simp_all add: head_len_def tlv_tail_def submit_tlvs_def)
  obtain a b c d ids fmt sq w2 where run: "for_each [0..<n] (smgp_submit_part a b c d ids fmt code
      (h, one, s, n) (tlv_tail h 15) (submit_tlvs h n)) ([], [], w1) = Some (out, sq, w2)"
    and len: "length ids = jlen (idx json DEST_IDS)" and json': "json' = setk json SEQ_IDS (nums sq)"
    using assms(1) content_codeD [OF assms(2)] head
    by (cases "length code \<le> 140")
      (auto simp: smgp_encode_submit_def require_eq_Some bind_eq_Some Let_def tlv
        split: if_splits elim!: is_arrayE dest!: unwrap_strs_length)
  from smgp_submit_loop [OF head assms(3,4) len run] show ?thesis
    using sms_head_head_len [OF head] by (auto simp: json' intro: carriesI)
qed

lemma smgp_encode_submit_total:
  assumes "content_code x json = Some code" and "length code < 2 ^ 24"
    and "field_fits 10 (idx json SERVICE_ID)" and "field_fits 21 (idx json SRC_ID)"
    and "fits 17 (str_or_empty (idx json VALID_TIME))" and "fits 17 (str_or_empty (idx json AT_TIME))"
    and "strs_fit 21 (idx json DEST_IDS)" and "is_array (idx json MSG_IDS)"
  shows "\<exists>out json' w'. smgp_encode_submit x json w = Some (Inr out, json', w')"
proof -
  obtain h one s n w1 where head: "sms_head (length code) w = ((h, one, s, n), w1)"
    by (metis surj_pair)
  have "\<exists>st'. smgp_submit_part a b c d ids fmt code (h, one, s, n) tl tlvs i st = Some st'"
    if "i < n" "fits 10 a" "fits 17 b" "fits 17 c" "fits 21 d" "list_all (fits 21) ids"
    for i st a b c d ids fmt tl tlvs
    using that segment_bound(1) [OF head assms(2)] by (auto simp: smgp_submit_part_def split_def Let_def)
  then have "\<exists>t. for_each [0..<n] (smgp_submit_part a b c d ids fmt code (h, one, s, n) tl tlvs) st = Some t"
    if "fits 10 a" "fits 17 b" "fits 17 c" "fits 21 d" "list_all (fits 21) ids"
    for st a b c d ids fmt tl tlvs
    using that by (intro for_each_upt_total) simp
  moreover obtain c a d ids where f: "as_str (idx json MSG_CONTENT) = Some c"
    "encode_msg_content x (msg_fmt_of json) c = Inr code"
    "as_str (idx json SERVICE_ID) = Some a" "fits 10 a" "as_str (idx json SRC_ID) = Some d" "fits 21 d"
    "is_array (idx json DEST_IDS)" "unwrap_strs (members (idx json DEST_IDS)) = Some ids"
    "list_all (fits 21) ids"
    using content_codeD [OF assms(1)] assms(3,4) [THEN field_fitsD] strs_fitD [OF assms(7)] by blast
  ultimately have "\<exists>t. for_each [0..<n]
      (smgp_submit_part a (str_or_empty (idx json VALID_TIME)) (str_or_empty (idx json AT_TIME)) d
         ids (msg_fmt_of json) code (h, one, s, n) tl tlvs) ([], [], w1) = Some t" for tl tlvs
    using assms(5,6) by blast
  then obtain t u where
    "for_each [0..<n]
      (smgp_submit_part a (str_or_empty (idx json VALID_TIME)) (str_or_empty (idx json AT_TIME)) d
         ids (msg_fmt_of json) code (h, one, s, n) 0 []) ([], [], w1) = Some t"
    "for_each [0..<n]
      (smgp_submit_part a (str_or_empty (idx json VALID_TIME)) (str_or_empty (idx json AT_TIME)) d
         ids (msg_fmt_of json) code (h, one, s, n) 15
         [TPUdhi 1, PkTotal (saturate_u8 n), PkNumber]) ([], [], w1) = Some u"
    by blast
  then show ?thesis
    using assms(8) f head
    by (cases t; cases u) (auto simp: smgp_encode_submit_def succeed_def Let_def)
qed

text \<open>The messages of fixed length.\<close>

lemma smgp_encode_connect_frame:
  "smgp_encode_connect x json w = Some (Inr b, j, w') \<Longrightarrow> ext_ok x \<Longrightarrow> pdu_ok b"
  using length_get_auth [of x SMGP]
  by (auto simp: smgp_encode_connect_def fixed_simps)

lemma smgp_encode_submit_resp_frame:
  "smgp_encode_submit_resp st json w = Some (Some b, j, w') \<Longrightarrow> pdu_ok b"
  by (auto simp: smgp_encode_submit_resp_def fixed_simps split: if_splits)

end
