(* ===== verification/Sgip.thy ===== *)
theory Sgip
  imports Defaults
begin

text \<open>
  \<open>protocol/sgip.rs\<close>: SGIP 1.2.  A sequence number has twelve bytes: the node number, a
  time stamp and a counter; the header word the other protocols call \<open>seq\<close> is here the node
  number, and the remaining eight bytes are read by each decoder.
  \<open>encode_active_test_resp\<close> is the default.
\<close>

definition sgip_seq :: "u32 \<Rightarrow> world \<Rightarrow> u64 \<times> world" where
  "sgip_seq n w =
     (let (time, w) = get_time w;
          (seq, w) = get_sequence_id n w
      in (push_bit 32 (ucast time) OR ucast seq, w))"

subsection \<open>Connection and acknowledgement\<close>

definition sgip_encode_connect :: "json \<Rightarrow> world \<Rightarrow> buf enc" where
  "sgip_encode_connect json w =
     require (as_str (idx json LOGIN_NAME)) (fail NotFound json w) (\<lambda>login_name.
     require (as_str (idx json PASSWORD)) (fail NotFound json w) (\<lambda>password.
     require (as_str (idx json SP_ID)) (fail NotFound json w) (\<lambda>v. do {
       let node_id = (parse_or_0 v :: u32);
       let dst = put_u32 [] 61;
       let dst = put_u32 dst (get_type_id SGIP Connect);
       let dst = put_u32 dst node_id;
       let (time, w) = get_time w;
       let dst = put_u32 dst time;
       let (seq_id, w) = get_sequence_id 1 w;
       let dst = put_u32 dst seq_id;
       let dst = put_u8 dst 1;
       dst \<leftarrow> fill_bytes_zero dst login_name 16;
       let (time, w) = get_time w;
       let dst = dst @ sgip_get_auth password;
       let dst = dst @ zeros 8;
       succeed dst json w
     })))"

definition sgip_encode_connect_rep :: "SmsStatus \<Rightarrow> json \<Rightarrow> world \<Rightarrow> reply" where
  "sgip_encode_connect_rep status json w =
     require (as_u32 (idx json SP_ID)) (no_reply json w) (\<lambda>node_id.
       let dst = put_u32 [] 29;
           dst = put_u32 dst (get_type_id SGIP ConnectResp);
           dst = put_u32 dst node_id;
           dst = put_u64 dst (case as_u64 (idx json SEQ_ID) of Some v \<Rightarrow> v | None \<Rightarrow> 0);
           dst = put_u8 dst (ucast (get_status_id SGIP status));
           dst = dst @ zeros 8
       in reply dst json w)"

definition sgip_encode_submit_resp :: "SmsStatus \<Rightarrow> json \<Rightarrow> world \<Rightarrow> reply" where
  "sgip_encode_submit_resp status json w =
     require (as_str (idx json MSG_ID)) (no_reply json w) (\<lambda>v. do {
       (node_id, seq_id) \<leftarrow> sgip_msg_id_str_to_u64 v;
       let status = get_status_id SGIP status;
       let buf = put_u32 [] 29;
       let buf = put_u32 buf (get_type_id SGIP SubmitResp);
       let buf = put_u32 buf node_id;
       let buf = put_u64 buf seq_id;
       let buf = put_u8 buf (ucast status);
       let buf = buf @ zeros 8;
       reply buf json w
     })"

definition sgip_encode_report_resp :: "SmsStatus \<Rightarrow> json \<Rightarrow> world \<Rightarrow> reply" where
  "sgip_encode_report_resp status json w =
     require (as_str (idx json MSG_ID)) (no_reply json w) (\<lambda>v. do {
       (node_id, seq_id) \<leftarrow> sgip_msg_id_str_to_u64 v;
       let status = get_status_id SGIP status;
       let buf = put_u32 [] 29;
       let buf = put_u32 buf (get_type_id SGIP ReportResp);
       let buf = put_u32 buf node_id;
       let buf = put_u64 buf seq_id;
       let buf = put_u8 buf (ucast status);
       let buf = buf @ zeros 8;
       reply buf json w
     })"

definition sgip_encode_deliver_resp :: "SmsStatus \<Rightarrow> json \<Rightarrow> world \<Rightarrow> reply" where
  "sgip_encode_deliver_resp status json w =
     require (as_str (idx json MSG_ID)) (no_reply json w) (\<lambda>v. do {
       (node_id, seq_id) \<leftarrow> sgip_msg_id_str_to_u64 v;
       let status = get_status_id SGIP status;
       let buf = put_u32 [] 29;
       let buf = put_u32 buf (get_type_id SGIP DeliverResp);
       let buf = put_u32 buf node_id;
       let buf = put_u64 buf seq_id;
       let buf = put_u32 buf status;
       let buf = buf @ zeros 8;
       reply buf json w
     })"

definition sgip_encode_terminate :: "json \<Rightarrow> world \<Rightarrow> buf enc" where
  "sgip_encode_terminate json w =
     require (as_u32 (idx json SP_ID)) (fail NotFound json w) (\<lambda>node_id.
       let dst = put_u32 [] 20;
           dst = put_u32 dst (get_type_id SGIP Terminate);
           dst = put_u32 dst node_id;
           (seq_id, w) = sgip_seq 1 w;
           dst = put_u64 dst seq_id
       in succeed dst json w)"

subsection \<open>Status reports and keep-alive\<close>

definition sgip_encode_report :: "json \<Rightarrow> world \<Rightarrow> buf enc" where
  "sgip_encode_report json w =
     require (as_str (idx json MSG_ID)) (fail NotFound json w) (\<lambda>v. do {
     msg_id \<leftarrow> sgip_msg_id_str_to_u64 v;
     require (as_str (idx json PASSAGE_MSG_ID)) (fail NotFound json w) (\<lambda>v. do {
     pass_msg_id \<leftarrow> sgip_msg_id_str_to_u64 v;
     require (as_u8 (idx json STATE)) (fail NotFound json w) (\<lambda>stat.
     require (as_u8 (idx json ERROR_CODE)) (fail NotFound json w) (\<lambda>err_code.
     require (as_str (idx json SRC_ID)) (fail NotFound json w) (\<lambda>src_id. do {
       let dst = put_u32 [] 64;
       let dst = put_u32 dst (get_type_id SGIP Report);
       let dst = put_u32 dst (fst pass_msg_id);
       let dst = put_u64 dst (snd pass_msg_id);
       let seq_ids = [snd msg_id];
       let dst = put_u32 dst (fst msg_id);
       let dst = put_u64 dst (snd msg_id);
       let dst = put_u8 dst 0;
       dst \<leftarrow> fill_bytes_zero dst src_id 21;
       let dst = put_u8 dst stat;
       let dst = put_u8 dst err_code;
       let dst = dst @ zeros 8;
       succeed dst (setk json SEQ_IDS (nums seq_ids)) w
     })))})})"

text \<open>The numbers of a submit and of the keep-alive message are written with the prefix 86.\<close>

definition fill_all_86 :: "string list \<Rightarrow> buf \<Rightarrow> buf option" where
  "fill_all_86 ss dst =
     for_each ss (\<lambda>s dst. let dst = dst @ as_bytes ''86'' in fill_bytes_zero dst s 19) dst"

definition sgip_encode_active_test :: "json \<Rightarrow> world \<Rightarrow> buf enc" where
  "sgip_encode_active_test json w = do {
     let msg_content = ''test'';
     let msg_content_len = length msg_content;
     let service_id = ''0'';
     let corp_id = ''00000'';
     let src_id = ''106877999833'';
     let dest_ids = [''18877994444''];
     let dst = put_u32 [] (of_nat (164 + msg_content_len));
     let dst = put_u32 dst (get_type_id SGIP Submit);
     let dst = put_u32 dst 0;
     let (seq_id, w) = sgip_seq (of_nat (length dest_ids)) w;
     let dst = put_u64 dst seq_id;
     dst \<leftarrow> fill_bytes_zero dst src_id 21;
     let dst = dst @ zeros 21;
     let dst = put_u8 dst (of_nat (length dest_ids));
     dst \<leftarrow> fill_all_86 dest_ids dst;
     corp \<leftarrow> prefix_bytes corp_id 5;
     let dst = dst @ corp;
     dst \<leftarrow> fill_bytes_zero dst service_id 10;
     let dst = put_u8 dst 1;
     let dst = dst @ as_bytes ''000001'';
     let dst = dst @ as_bytes ''000000'';
     let dst = put_u8 dst 0;
     let dst = put_u8 dst 0;
     let dst = put_u8 dst 0;
     let dst = dst @ zeros 16;
     let dst = dst @ zeros 16;
     let dst = put_u8 dst 1;
     let dst = put_u8 dst 0;
     let dst = put_u8 dst 0;
     let dst = put_u8 dst 0;
     let dst = put_u8 dst 0;
     let dst = put_u32 dst (of_nat msg_content_len);
     let dst = dst @ as_bytes msg_content;
     let dst = dst @ zeros 8;
     succeed dst json w
   }"

subsection \<open>Deliver\<close>

definition sgip_deliver_part ::
    "u32 \<Rightarrow> string \<Rightarrow> string \<Rightarrow> u8 \<Rightarrow> buf \<Rightarrow> nat \<times> nat \<times> u8 \<times> nat \<Rightarrow>
     nat \<Rightarrow> buf \<times> u64 list \<times> world \<Rightarrow> (buf \<times> u64 list \<times> world) option" where
  "sgip_deliver_part node_id src_id dest_id msg_fmt msg_content_code seg i st = do {
     let (msg_content_head_len, one_content_len, msg_content_seq_id, sms_len) = seg;
     let (dst, seq_ids, w) = st;
     this_msg_content \<leftarrow> segment msg_content_code one_content_len sms_len i;
     let dst = put_u32 dst (of_nat (77 + msg_content_head_len + length this_msg_content));
     let dst = put_u32 dst (get_type_id SGIP Deliver);
     let dst = put_u32 dst node_id;
     let (seq_id, w) = sgip_seq 1 w;
     let seq_ids = seq_ids @ [seq_id];
     let dst = put_u64 dst seq_id;
     dst \<leftarrow> fill_bytes_zero dst src_id 21;
     dst \<leftarrow> fill_bytes_zero dst dest_id 21;
     let dst = put_u8 dst 0;
     let dst = put_u8 dst (if sms_len = 1 then 0 else 1);
     let dst = put_u8 dst msg_fmt;
     let dst = put_u32 dst (of_nat (length this_msg_content + msg_content_head_len));
     let dst = put_head dst msg_content_head_len msg_content_seq_id sms_len i;
     let dst = dst @ this_msg_content;
     let dst = dst @ zeros 8;
     Some (dst, seq_ids, w)
   }"

definition sgip_encode_deliver :: "ext \<Rightarrow> json \<Rightarrow> world \<Rightarrow> buf enc" where
  "sgip_encode_deliver x json w =
     require (as_u32 (idx json NODE_ID)) (fail NotFound json w) (\<lambda>node_id.
     require (as_str (idx json MSG_CONTENT)) (fail NotFound json w) (\<lambda>msg_content.
     let msg_fmt = msg_fmt_of json in
     case encode_msg_content x msg_fmt msg_content of
       Inl e \<Rightarrow> fail Other json w
     | Inr msg_content_code \<Rightarrow>
     require (as_str (idx json SRC_ID)) (fail NotFound json w) (\<lambda>src_id.
     require (as_str (idx json DEST_ID)) (fail NotFound json w) (\<lambda>dest_id. do {
       let (seg, w) = sms_head (length msg_content_code) w;
       let sms_len = snd (snd (snd seg));
       (dst, seq_ids, w) \<leftarrow>
         for_each [0..<sms_len]
           (sgip_deliver_part node_id src_id dest_id msg_fmt msg_content_code seg)
           ([], [], w);
       succeed dst (setk json SEQ_IDS (nums seq_ids)) w
     }))))"

subsection \<open>Submit\<close>

definition sgip_submit_part ::
    "u32 \<Rightarrow> string \<Rightarrow> string \<Rightarrow> string \<Rightarrow> string list \<Rightarrow> u8 \<Rightarrow> buf \<Rightarrow> nat \<times> nat \<times> u8 \<times> nat \<Rightarrow>
     nat \<Rightarrow> buf \<times> u64 list \<times> world \<Rightarrow> (buf \<times> u64 list \<times> world) option" where
  "sgip_submit_part node_id service_id corp_id src_id dest_ids msg_format msg_content_code seg i st = do {
     let (msg_content_head_len, one_content_len, msg_content_seq_id, sms_len) = seg;
     let (dst, seq_ids, w) = st;
     this_msg_content \<leftarrow> segment msg_content_code one_content_len sms_len i;
     let dst = put_u32 dst (of_nat
       (143 + length dest_ids * 21 + msg_content_head_len + length this_msg_content));
     let dst = put_u32 dst (get_type_id SGIP Submit);
     let dst = put_u32 dst node_id;
     let (seq_id, w) = sgip_seq (of_nat (length dest_ids)) w;
     let dst = put_u64 dst seq_id;
     let seq_ids = seq_ids @ [seq_id];
     dst \<leftarrow> fill_bytes_zero dst src_id 21;
     let dst = dst @ zeros 21;
     let dst = put_u8 dst (of_nat (length dest_ids));
     dst \<leftarrow> fill_all_86 dest_ids dst;
     corp \<leftarrow> prefix_bytes corp_id 5;
     let dst = dst @ corp;
     dst \<leftarrow> fill_bytes_zero dst service_id 10;
     let dst = put_u8 dst 1;
     let dst = dst @ as_bytes ''000001'';
     let dst = dst @ as_bytes ''000000'';
     let dst = put_u8 dst 0;
     let dst = put_u8 dst 0;
     let dst = put_u8 dst 0;
     let dst = dst @ zeros 16;
     let dst = dst @ zeros 16;
     let dst = put_u8 dst 1;
     let dst = put_u8 dst 0;
     let dst = put_u8 dst (if sms_len = 1 then 0 else 1);
     let dst = put_u8 dst msg_format;
     let dst = put_u8 dst 0;
     let dst = put_u32 dst (of_nat (length this_msg_content + msg_content_head_len));
     let dst = put_head dst msg_content_head_len msg_content_seq_id sms_len i;
     let dst = dst @ this_msg_content;
     let dst = dst @ zeros 8;
     Some (dst, seq_ids, w)
   }"

definition sgip_encode_submit :: "ext \<Rightarrow> json \<Rightarrow> world \<Rightarrow> buf enc" where
  "sgip_encode_submit x json w =
     require (as_str (idx json MSG_CONTENT)) (fail NotFound json w) (\<lambda>msg_content.
     let msg_format = msg_fmt_of json in
     case encode_msg_content x msg_format msg_content of
       Inl e \<Rightarrow> fail Other json w
     | Inr msg_content_code \<Rightarrow>
     require (as_str (idx json SERVICE_ID)) (fail NotFound json w) (\<lambda>service_id.
     require (as_str (idx json SP_ID)) (fail NotFound json w) (\<lambda>corp_id.
     require (as_u32 (idx json NODE_ID)) (fail NotFound json w) (\<lambda>node_id.
     require (as_str (idx json SRC_ID)) (fail NotFound json w) (\<lambda>src_id.
     if \<not> is_array (idx json DEST_IDS) then fail NotFound json w else do {
       dest_ids \<leftarrow> unwrap_strs (members (idx json DEST_IDS));
       let (seg, w) = sms_head (length msg_content_code) w;
       let sms_len = snd (snd (snd seg));
       (dst, seq_ids, w) \<leftarrow>
         for_each [0..<sms_len]
           (sgip_submit_part node_id service_id corp_id src_id dest_ids msg_format
              msg_content_code seg)
           ([], [], w);
       succeed dst (setk json SEQ_IDS (nums seq_ids)) w
     })))))"

subsection \<open>Decoding\<close>

text \<open>The object every decoder of SGIP starts from, and the rest of the buffer.\<close>

definition sgip_header :: "buf \<Rightarrow> u32 \<Rightarrow> u32 \<Rightarrow> (json \<times> buf) option" where
  "sgip_header buf node_id tp = do {
     let json = setk new_object MSG_TYPE_U32 (num tp);
     let json = setk json SP_ID (num node_id);
     (seq_id, buf) \<leftarrow> get_u64 buf;
     let json = setk json SEQ_ID (num seq_id);
     Some (setk json MSG_ID (JStr (sgip_msg_id_u64_to_str node_id seq_id)), buf)
   }"

definition sgip_decode_connect_resp :: "buf \<Rightarrow> u32 \<Rightarrow> u32 \<Rightarrow> json res" where
  "sgip_decode_connect_resp buf node_id tp = do {
     (json, buf) \<leftarrow> sgip_header buf node_id tp;
     (v, buf) \<leftarrow> get_u8 buf;
     Ok (setk json STATUS (num v))
   }"

definition sgip_decode_submit_or_deliver_resp :: "buf \<Rightarrow> u32 \<Rightarrow> u32 \<Rightarrow> json res" where
  "sgip_decode_submit_or_deliver_resp buf node_id tp = do {
     (json, buf) \<leftarrow> sgip_header buf node_id tp;
     (result, buf) \<leftarrow> get_u8 buf;
     let json = setk json RESULT (num result);
     Ok (if is_speed_limit SGIP (ucast result) then setk json SPEED_LIMIT (JBool True) else json)
   }"

definition sgip_decode_nobody :: "buf \<Rightarrow> u32 \<Rightarrow> u32 \<Rightarrow> json res" where
  "sgip_decode_nobody buf node_id tp = do {
     (json, buf) \<leftarrow> sgip_header buf node_id tp;
     Ok json
   }"

definition sgip_decode_report :: "buf \<Rightarrow> u32 \<Rightarrow> u32 \<Rightarrow> json res" where
  "sgip_decode_report buf node_id tp = do {
     let json = setk new_object MSG_TYPE_U32 (num tp);
     let json = setk json SP_ID (num node_id);
     (v, buf) \<leftarrow> get_u64 buf;
     let json = setk json SEQ_ID (num v);
     (node_id, buf) \<leftarrow> get_u32 buf;
     (seq_id, buf) \<leftarrow> get_u64 buf;
     let json = setk json MSG_ID (JStr (sgip_msg_id_u64_to_str node_id seq_id));
     buf \<leftarrow> advance buf 1;
     let (s, buf) = load_utf8_string buf 21;
     let json = setk json SRC_ID (JStr s);
     let json = setk json STATE (JStr ''DELIVRD'');
     (v, buf) \<leftarrow> get_u8 buf;
     let json = setk json STATE (JStr
       (if v = 0 then ''DELIVRD'' else if v = 1 then ''ACCEPTD'' else ''SGIPERR''));
     (v, buf) \<leftarrow> get_u8 buf;
     Ok (setk json ERROR_CODE (num v))
   }"

definition sgip_decode_deliver :: "ext \<Rightarrow> buf \<Rightarrow> u32 \<Rightarrow> u32 \<Rightarrow> json res" where
  "sgip_decode_deliver x buf node_id tp = do {
     (json, buf) \<leftarrow> sgip_header buf node_id tp;
     let (s, buf) = load_utf8_string buf 21;
     let json = setk json SRC_ID (JStr s);
     let (s, buf) = load_utf8_string buf 21;
     let json = setk json DEST_ID (JStr s);
     buf \<leftarrow> advance buf 1;
     (tp_udhi, buf) \<leftarrow> get_u8 buf;
     (msg_fmt, buf) \<leftarrow> get_u8 buf;
     let json = setk json MSG_FMT (num msg_fmt);
     (msg_content_len, buf) \<leftarrow> get_u32 buf;
     json_of (decode_msg_content x buf msg_fmt (ucast msg_content_len) json (tp_udhi \<noteq> 0))
   }"

definition sgip_decode_report_resp :: "buf \<Rightarrow> u32 \<Rightarrow> u32 \<Rightarrow> json res" where
  "sgip_decode_report_resp buf node_id tp = do {
     (json, buf) \<leftarrow> sgip_header buf node_id tp;
     (v, buf) \<leftarrow> get_u8 buf;
     Ok (setk json RESULT (num v))
   }"

definition sgip_decode_submit :: "ext \<Rightarrow> buf \<Rightarrow> u32 \<Rightarrow> u32 \<Rightarrow> json res" where
  "sgip_decode_submit x buf node_id tp = do {
     (json, buf) \<leftarrow> sgip_header buf node_id tp;
     let (s, buf) = load_utf8_string buf 21;
     let json = setk json SRC_ID (JStr s);
     buf \<leftarrow> advance buf 21;
     (dest_len, buf) \<leftarrow> get_u8 buf;
     let (dest_ids, buf) = load_strings (unat dest_len) 21 buf;
     let json = setk json DEST_IDS (strs dest_ids);
     buf \<leftarrow> advance buf 65;
     (tp_udhi, buf) \<leftarrow> get_u8 buf;
     (msg_fmt, buf) \<leftarrow> get_u8 buf;
     let json = setk json MSG_FMT (num msg_fmt);
     buf \<leftarrow> advance buf 1;
     (msg_content_len, buf) \<leftarrow> get_u32 buf;
     json_of (decode_msg_content x buf msg_fmt (ucast msg_content_len) json (tp_udhi \<noteq> 0))
   }"

definition sgip_decode_connect :: "buf \<Rightarrow> u32 \<Rightarrow> u32 \<Rightarrow> json res" where
  "sgip_decode_connect buf node_id tp = do {
     (json, buf) \<leftarrow> sgip_header buf node_id tp;
     (v, buf) \<leftarrow> get_u8 buf;
     let json = setk json CAN_WRITE (JBool (v = 1));
     let (s, buf) = load_utf8_string buf 16;
     let json = setk json LOGIN_NAME (JStr s);
     let (s, buf) = load_utf8_string buf 16;
     let json = setk json PASSWORD (JStr s);
     Ok (setk json VERSION (JNum 1))
   }"

subsection \<open>What the encoders send\<close>

lemma fill_all_86_eq_Some:
  "fill_all_86 ss dst = Some d \<longleftrightarrow>
     list_all (fits 19) ss \<and> d = dst @ concat (map (\<lambda>s. as_bytes ''86'' @ field s 19) ss)"
  unfolding fill_all_86_def
  by (induction ss arbitrary: dst) (auto simp: bind_eq_Some fill_bytes_zero_eq_Some)

lemma length_fields_86 [simp, frame_simps]:
  "length (concat (map (\<lambda>s. 56 # 54 # field s 19) ss)) = length ss * 21"
  by (induction ss) simp_all

lemma sgip_deliver_part_sent:
  assumes "sms_head (length code) v = ((h, one, s, n), v')" and "length code < 2 ^ 24" and "i < n"
    and "sgip_deliver_part node_id src_id dest_id fmt code (h, one, s, n) i (dst, sq, w) =
      Some (dst', sq', w')"
    and "sent (pdu_u64 12) (69 + h) 8 dst (take i (segments code)) sq"
  shows "sent (pdu_u64 12) (69 + h) 8 dst' (take (Suc i) (segments code)) sq'"
  using assms(4,5) segment_bound [OF assms(1-3)]
  by (auto simp: sgip_deliver_part_def part_simps simp del: of_nat_add intro!: sent_snoc)

lemma sgip_deliver_loop:
  assumes "sms_head (length code) v = ((h, one, s, n), v')" and "length code < 2 ^ 24"
    and "for_each [0..<n] (sgip_deliver_part node_id src_id dest_id fmt code (h, one, s, n))
      ([], [], w) = Some (dst, sq, w')"
  shows "sent (pdu_u64 12) (69 + h) 8 dst (segments code) sq"
  using for_each_invariant [OF assms(3), of
      "\<lambda>i (dst, sq, w). sent (pdu_u64 12) (69 + h) 8 dst (take i (segments code)) sq"]
    sgip_deliver_part_sent [OF assms(1,2)] sms_head_segments(1) [OF assms(1,2)]
  by fastforce

lemma sgip_encode_deliver_carries:
  assumes "sgip_encode_deliver x json w = Some (Inr out, json', w')"
    and "content_code x json = Some code" and "length code < 2 ^ 24"
  shows "carries (pdu_u64 12) 69 8 code out (idx json' SEQ_IDS)"
proof -
  obtain h one s n w1 where head: "sms_head (length code) w = ((h, one, s, n), w1)"
    by (metis surj_pair)
  show ?thesis
    using assms(1) content_codeD [OF assms(2)] head sms_head_head_len [OF head]
      sgip_deliver_loop [OF head assms(3)]
    by (auto simp: sgip_encode_deliver_def require_eq_Some bind_eq_Some Let_def intro!: carriesI)
qed

lemma sgip_encode_deliver_total:
  assumes "content_code x json = Some code" and "length code < 2 ^ 24"
    and "as_u32 (idx json NODE_ID) \<noteq> None"
    and "field_fits 21 (idx json SRC_ID)" and "field_fits 21 (idx json DEST_ID)"
  shows "\<exists>out json' w'. sgip_encode_deliver x json w = Some (Inr out, json', w')"
proof -
  obtain h one s n w1 where head: "sms_head (length code) w = ((h, one, s, n), w1)"
    by (metis surj_pair)
  have "\<exists>st'. sgip_deliver_part nd b c fmt code (h, one, s, n) i st = Some st'"
    if "i < n" "fits 21 b" "fits 21 c" for i st nd b c fmt
    using that segment_bound(1) [OF head assms(2)] by (simp add: sgip_deliver_part_def split_def Let_def)
  then have "\<exists>t. for_each [0..<n] (sgip_deliver_part nd b c fmt code (h, one, s, n)) st = Some t"
    if "fits 21 b" "fits 21 c" for st nd b c fmt
    using that by (intro for_each_upt_total) simp
  moreover obtain c nd b d where f: "as_str (idx json MSG_CONTENT) = Some c"
    "encode_msg_content x (msg_fmt_of json) c = Inr code"
    "as_u32 (idx json NODE_ID) = Some nd" "as_str (idx json SRC_ID) = Some b" "fits 21 b"
    "as_str (idx json DEST_ID) = Some d" "fits 21 d"
    using content_codeD [OF assms(1)] assms(4,5) [THEN field_fitsD] assms(3) by blast
  ultimately obtain t where "for_each [0..<n]
      (sgip_deliver_part nd b d (msg_fmt_of json) code (h, one, s, n)) ([], [], w1) = Some t"
    by blast
  then show ?thesis
    using f head by (cases t) (auto simp: sgip_encode_deliver_def succeed_def Let_def)
qed

lemma sgip_submit_part_sent:
  assumes "sms_head (length code) v = ((h, one, s, n), v')" and "length code < 2 ^ 24" and "i < n"
    and "length dest_ids < 2 ^ 24"
    and "sgip_submit_part node_id service_id corp_id src_id dest_ids fmt code (h, one, s, n) i
      (dst, sq, w) = Some (dst', sq', w')"
    and "sent (pdu_u64 12) (135 + length dest_ids * 21 + h) 8 dst (take i (segments code)) sq"
  shows "sent (pdu_u64 12) (135 + length dest_ids * 21 + h) 8 dst' (take (Suc i) (segments code)) sq'"
  using assms(4-6) segment_bound [OF assms(1-3)]
  by (auto simp: sgip_submit_part_def part_simps fill_all_86_eq_Some simp del: of_nat_add of_nat_mult
      intro!: sent_snoc dest!: prefix_bytes_length)

lemma sgip_submit_loop:
  assumes "sms_head (length code) v = ((h, one, s, n), v')" and "length code < 2 ^ 24"
    and "m < 2 ^ 24" and "length dest_ids = m"
    and "for_each [0..<n] (sgip_submit_part node_id service_id corp_id src_id dest_ids fmt code
      (h, one, s, n)) ([], [], w) = Some (dst, sq, w')"
  shows "sent (pdu_u64 12) (135 + m * 21 + h) 8 dst (segments code) sq"
  using for_each_invariant [OF assms(5), of
      "\<lambda>i (dst, sq, w). sent (pdu_u64 12) (135 + length dest_ids * 21 + h) 8 dst (take i (segments code)) sq"]
    sgip_submit_part_sent [OF assms(1,2)] assms(3,4) sms_head_segments(1) [OF assms(1,2)]
  by fastforce

lemma sgip_encode_submit_carries:
  assumes "sgip_encode_submit x json w = Some (Inr out, json', w')"
    and "content_code x json = Some code" and "length code < 2 ^ 24"
    and "jlen (idx json DEST_IDS) < 2 ^ 24"
  shows "carries (pdu_u64 12) (135 + jlen (idx json DEST_IDS) * 21) 8 code out (idx json' SEQ_IDS)"
proof -
  obtain h one s n w1 where head: "sms_head (length code) w = ((h, one, s, n), w1)"
    by (metis surj_pair)
  show ?thesis
    using assms(1,4) content_codeD [OF assms(2)] head sms_head_head_len [OF head]
      sgip_submit_loop [OF head assms(3)]
    by (auto simp: sgip_encode_submit_def require_eq_Some bind_eq_Some Let_def
        split: if_splits intro!: carriesI elim!: is_arrayE dest!: unwrap_strs_length)
qed

lemma sgip_encode_submit_total:
  assumes "content_code x json = Some code" and "length code < 2 ^ 24"
    and "field_fits 10 (idx json SERVICE_ID)" and "field_fits 21 (idx json SRC_ID)"
    and "\<exists>s. as_str (idx json SP_ID) = Some s \<and> prefix_bytes s 5 \<noteq> None"
    and "as_u32 (idx json NODE_ID) \<noteq> None" and "strs_fit 19 (idx json DEST_IDS)"
  shows "\<exists>out json' w'. sgip_encode_submit x json w = Some (Inr out, json', w')"
proof -
  obtain h one s n w1 where head: "sms_head (length code) w = ((h, one, s, n), w1)"
    by (metis surj_pair)
  have "\<exists>st'. sgip_submit_part nd a sp d ids fmt code (h, one, s, n) i st = Some st'"
    if "i < n" "fits 10 a" "prefix_bytes sp 5 \<noteq> None" "fits 21 d" "list_all (fits 19) ids"
    for i st nd a sp d ids fmt
    using that segment_bound(1) [OF head assms(2)]
    by (auto simp: sgip_submit_part_def split_def Let_def fill_all_86_eq_Some bind_eq_Some)
  then have "\<exists>t. for_each [0..<n] (sgip_submit_part nd a sp d ids fmt code (h, one, s, n)) st = Some t"
    if "fits 10 a" "prefix_bytes sp 5 \<noteq> None" "fits 21 d" "list_all (fits 19) ids"
    for st nd a sp d ids fmt
    using that by (intro for_each_upt_total) simp
  moreover obtain c a sp nd d ids where f: "as_str (idx json MSG_CONTENT) = Some c"
    "encode_msg_content x (msg_fmt_of json) c = Inr code"
    "as_str (idx json SERVICE_ID) = Some a" "fits 10 a" "as_str (idx json SRC_ID) = Some d" "fits 21 d"
    "as_str (idx json SP_ID) = Some sp" "prefix_bytes sp 5 \<noteq> None" "as_u32 (idx json NODE_ID) = Some nd"
    "is_array (idx json DEST_IDS)" "unwrap_strs (members (idx json DEST_IDS)) = Some ids"
    "list_all (fits 19) ids"
    using content_codeD [OF assms(1)] assms(3,4) [THEN field_fitsD] strs_fitD [OF assms(7)] assms(5,6)
    by blast
  ultimately obtain t where "for_each [0..<n]
      (sgip_submit_part nd a sp d ids (msg_fmt_of json) code (h, one, s, n)) ([], [], w1) = Some t"
    by blast
  then show ?thesis
    using f head by (cases t) (auto simp: sgip_encode_submit_def succeed_def Let_def)
qed

text \<open>The messages of fixed length; \<open>encode_deliver_resp\<close> is not among them.\<close>

lemma sgip_encode_connect_frame:
  "sgip_encode_connect json w = Some (Inr b, j, w') \<Longrightarrow> pdu_ok b"
  by (auto simp: sgip_encode_connect_def fixed_simps sgip_get_auth_field)

lemma sgip_encode_terminate_frame:
  "sgip_encode_terminate json w = Some (Inr b, j, w') \<Longrightarrow> pdu_ok b"
  by (auto simp: sgip_encode_terminate_def fixed_simps)

lemma sgip_encode_report_frame:
  "sgip_encode_report json w = Some (Inr b, j, w') \<Longrightarrow> pdu_ok b"
  by (auto simp: sgip_encode_report_def fixed_simps)

lemma sgip_encode_active_test_frame:
  "sgip_encode_active_test json w = Some (Inr b, j, w') \<Longrightarrow> pdu_ok b"
  by (auto simp: sgip_encode_active_test_def fixed_simps fill_all_86_eq_Some dest!: prefix_bytes_length)

lemma sgip_encode_connect_rep_frame:
  "sgip_encode_connect_rep st json w = Some (Some b, j, w') \<Longrightarrow> pdu_ok b"
  by (auto simp: sgip_encode_connect_rep_def fixed_simps)

lemma sgip_encode_submit_resp_frame:
  "sgip_encode_submit_resp st json w = Some (Some b, j, w') \<Longrightarrow> pdu_ok b"
  by (auto simp: sgip_encode_submit_resp_def fixed_simps)

lemma sgip_encode_report_resp_frame:
  "sgip_encode_report_resp st json w = Some (Some b, j, w') \<Longrightarrow> pdu_ok b"
  by (auto simp: sgip_encode_report_resp_def fixed_simps)

lemmas sgip_fixed_frames =
  sgip_encode_connect_frame sgip_encode_terminate_frame sgip_encode_report_frame
  sgip_encode_active_test_frame

lemmas sgip_reply_frames =
  sgip_encode_connect_rep_frame sgip_encode_submit_resp_frame sgip_encode_report_resp_frame

end
