(* ===== verification/Dispatch.thy ===== *)
theory Dispatch
  imports Cmpp32 Smgp Sgip
begin

text \<open>
  \<open>protocol/mod.rs\<close> and \<open>decode_read_msg\<close> of \<open>protocol/implements.rs\<close>: choosing a protocol by
  name and version, and sending each message through the encoder or decoder its protocol
  provides (its own where it overrides the trait, the default otherwise).  CMPP 3.0 and SMPP
  override nothing but the framing.
\<close>

subsection \<open>Choosing a protocol\<close>

text \<open>
  \<open>to_uppercase\<close> on the UTF-8 bytes.  Only a comparison with the four names follows, so beside
  the ASCII letters the two characters matter whose upper case is one of them: the dotless i
  (\<open>C4 B1\<close>) and the long s (\<open>C5 BF\<close>).
\<close>

definition upper_char :: "char \<Rightarrow> char" where
  "upper_char c =
     (if 97 \<le> (of_char c :: nat) \<and> (of_char c :: nat) \<le> 122 then char_of (of_char c - 32 :: nat) else c)"

fun to_uppercase :: "string \<Rightarrow> string" where
  "to_uppercase (c # d # s) =
     (if c = CHR 0xC4 \<and> d = CHR 0xB1 then CHR ''I'' # to_uppercase s
      else if c = CHR 0xC5 \<and> d = CHR 0xBF then CHR ''S'' # to_uppercase s
      else upper_char c # to_uppercase (d # s))"
| "to_uppercase [c] = [upper_char c]"
| "to_uppercase [] = []"

definition protocol_from_str :: "string \<Rightarrow> protocol option" where
  "protocol_from_str name = do {
     head \<leftarrow> str_slice name 0 4;
     let u = to_uppercase head;
     Some (if u = ''CMPP'' then CMPP48
       else if u = ''SMGP'' then SMGP
       else if u = ''SGIP'' then SGIP
       else if u = ''SMPP'' then SMPP
       else NoProtocol)
   }"

fun protocol_parse :: "protocol \<Rightarrow> string" where
  "protocol_parse CMPP48 = ''CMPP''"
| "protocol_parse CMPP32 = ''CMPP''"
| "protocol_parse SMGP = ''SMGP''"
| "protocol_parse SGIP = ''SGIP''"
| "protocol_parse SMPP = ''SMPP''"
| "protocol_parse NoProtocol = ''None''"

definition get_protocol :: "string \<Rightarrow> u32 \<Rightarrow> protocol" where
  "get_protocol name version =
     (let u = to_uppercase name in
      if u = ''CMPP'' \<and> version = 48 then CMPP48
      else if u = ''CMPP'' \<and> version = 32 then CMPP32
      else if u = ''SGIP'' then SGIP
      else if u = ''SMGP'' then SMGP
      else if u = ''SMPP'' then SMPP
      else CMPP48)"

definition match_version :: "protocol \<Rightarrow> u32 \<Rightarrow> protocol" where
  "match_version p version = (let name = protocol_parse p in get_protocol name version)"

fun has :: "protocol \<Rightarrow> u32 \<Rightarrow> bool" where
  "has CMPP48 version = (version = 32 \<or> version = 48)"
| "has CMPP32 version = (version = 32 \<or> version = 48)"
| "has SMGP version = True"
| "has SGIP version = True"
| "has SMPP version = True"
| "has NoProtocol version = False"

fun get_auth :: "protocol \<Rightarrow> ext \<Rightarrow> string \<Rightarrow> string \<Rightarrow> u32 \<Rightarrow> buf" where
  "get_auth NoProtocol x login password timestamp = replicate 16 0"
| "get_auth p x login password timestamp = impl_get_auth p x login password timestamp"

fun get_status_enum :: "protocol \<Rightarrow> u32 \<Rightarrow> SmsStatus" where
  "get_status_enum NoProtocol v = StatusUnknown"
| "get_status_enum p v = impl_status_enum p v"

subsection \<open>The encoders of each protocol\<close>

fun encode_connect :: "protocol \<Rightarrow> ext \<Rightarrow> json \<Rightarrow> world \<Rightarrow> buf enc" where
  "encode_connect SMGP x json w = smgp_encode_connect x json w"
| "encode_connect SGIP x json w = sgip_encode_connect json w"
| "encode_connect p x json w = default_encode_connect p x json w"

fun encode_submit :: "protocol \<Rightarrow> ext \<Rightarrow> json \<Rightarrow> world \<Rightarrow> buf enc" where
  "encode_submit CMPP32 x json w = cmpp32_encode_submit x json w"
| "encode_submit SMGP x json w = smgp_encode_submit x json w"
| "encode_submit SGIP x json w = sgip_encode_submit x json w"
| "encode_submit p x json w = default_encode_submit p x json w"

fun encode_deliver :: "protocol \<Rightarrow> ext \<Rightarrow> json \<Rightarrow> world \<Rightarrow> buf enc" where
  "encode_deliver CMPP32 x json w = cmpp32_encode_deliver x json w"
| "encode_deliver SMGP x json w = smgp_encode_deliver x json w"
| "encode_deliver SGIP x json w = sgip_encode_deliver x json w"
| "encode_deliver p x json w = default_encode_deliver p x json w"

fun encode_report :: "protocol \<Rightarrow> json \<Rightarrow> world \<Rightarrow> buf enc" where
  "encode_report CMPP32 json w = cmpp32_encode_report json w"
| "encode_report SMGP json w = smgp_encode_report json w"
| "encode_report SGIP json w = sgip_encode_report json w"
| "encode_report p json w = default_encode_report p json w"

fun encode_active_test :: "protocol \<Rightarrow> json \<Rightarrow> world \<Rightarrow> buf enc" where
  "encode_active_test SGIP json w = sgip_encode_active_test json w"
| "encode_active_test p json w = default_encode_active_test p json w"

fun encode_terminate :: "protocol \<Rightarrow> json \<Rightarrow> world \<Rightarrow> buf enc" where
  "encode_terminate SGIP json w = sgip_encode_terminate json w"
| "encode_terminate p json w = default_encode_terminate p json w"

definition encode_message :: "protocol \<Rightarrow> ext \<Rightarrow> json \<Rightarrow> world \<Rightarrow> buf enc" where
  "encode_message p x json w =
     (if p = NoProtocol then fail Other json w
      else
        require (as_str (idx json MSG_TYPE_STR)) (fail NotFound json w) (\<lambda>msg_type.
          case msg_type_from_str msg_type of
            Connect \<Rightarrow> encode_connect p x json w
          | Submit \<Rightarrow> encode_submit p x json w
          | Deliver \<Rightarrow> encode_deliver p x json w
          | Report \<Rightarrow> encode_report p json w
          | ActiveTest \<Rightarrow> encode_active_test p json w
          | Terminate \<Rightarrow> encode_terminate p json w
          | _ \<Rightarrow> fail Other json w))"

subsection \<open>Receipts\<close>

fun encode_connect_rep :: "protocol \<Rightarrow> SmsStatus \<Rightarrow> json \<Rightarrow> world \<Rightarrow> reply" where
  "encode_connect_rep CMPP32 status json w = cmpp32_encode_connect_rep status json w"
| "encode_connect_rep SGIP status json w = sgip_encode_connect_rep status json w"
| "encode_connect_rep p status json w = default_encode_connect_rep p status json w"

fun encode_submit_resp :: "protocol \<Rightarrow> SmsStatus \<Rightarrow> json \<Rightarrow> world \<Rightarrow> reply" where
  "encode_submit_resp CMPP32 status json w = cmpp32_encode_submit_resp status json w"
| "encode_submit_resp SMGP status json w = smgp_encode_submit_resp status json w"
| "encode_submit_resp SGIP status json w = sgip_encode_submit_resp status json w"
| "encode_submit_resp p status json w = default_encode_submit_resp p status json w"

fun encode_deliver_resp :: "protocol \<Rightarrow> SmsStatus \<Rightarrow> json \<Rightarrow> world \<Rightarrow> reply" where
  "encode_deliver_resp CMPP32 status json w = cmpp32_encode_deliver_resp status json w"
| "encode_deliver_resp SGIP status json w = sgip_encode_deliver_resp status json w"
| "encode_deliver_resp p status json w = default_encode_deliver_resp p status json w"

fun encode_report_resp :: "protocol \<Rightarrow> SmsStatus \<Rightarrow> json \<Rightarrow> world \<Rightarrow> reply" where
  "encode_report_resp SGIP status json w = sgip_encode_report_resp status json w"
| "encode_report_resp p status json w = default_encode_report_resp p status json w"

definition encode_receipt :: "protocol \<Rightarrow> SmsStatus \<Rightarrow> json \<Rightarrow> world \<Rightarrow> reply" where
  "encode_receipt p status json w =
     (if p = NoProtocol then no_reply json w
      else do {
        tp \<leftarrow> as_u32 (idx json MSG_TYPE_U32);
        case get_type_enum p tp of
          Connect \<Rightarrow> encode_connect_rep p status json w
        | Submit \<Rightarrow> encode_submit_resp p status json w
        | Deliver \<Rightarrow> encode_deliver_resp p status json w
        | Report \<Rightarrow> encode_report_resp p status json w
        | ActiveTest \<Rightarrow> default_encode_active_test_resp p status json w
        | _ \<Rightarrow> no_reply json w
      })"

subsection \<open>Decoding\<close>

fun decode_submit :: "protocol \<Rightarrow> ext \<Rightarrow> buf \<Rightarrow> u32 \<Rightarrow> u32 \<Rightarrow> json res" where
  "decode_submit CMPP32 x buf seq tp = cmpp32_decode_submit x buf seq tp"
| "decode_submit SMGP x buf seq tp = smgp_decode_submit x buf seq tp"
| "decode_submit SGIP x buf seq tp = sgip_decode_submit x buf seq tp"
| "decode_submit p x buf seq tp = default_decode_submit x buf seq tp"

fun decode_submit_or_deliver_resp :: "protocol \<Rightarrow> buf \<Rightarrow> u32 \<Rightarrow> u32 \<Rightarrow> json res" where
  "decode_submit_or_deliver_resp CMPP32 buf seq tp = cmpp32_decode_submit_or_deliver_resp buf seq tp"
| "decode_submit_or_deliver_resp SMGP buf seq tp = smgp_decode_submit_or_deliver_resp buf seq tp"
| "decode_submit_or_deliver_resp SGIP buf seq tp = sgip_decode_submit_or_deliver_resp buf seq tp"
| "decode_submit_or_deliver_resp p buf seq tp = default_decode_submit_or_deliver_resp p buf seq tp"

fun decode_deliver :: "protocol \<Rightarrow> ext \<Rightarrow> buf \<Rightarrow> u32 \<Rightarrow> u32 \<Rightarrow> json res" where
  "decode_deliver CMPP32 x buf seq tp = cmpp32_decode_deliver x buf seq tp"
| "decode_deliver SMGP x buf seq tp = smgp_decode_deliver x buf seq tp"
| "decode_deliver SGIP x buf seq tp = sgip_decode_deliver x buf seq tp"
| "decode_deliver p x buf seq tp = default_decode_deliver p x buf seq tp"

fun decode_nobody :: "protocol \<Rightarrow> buf \<Rightarrow> u32 \<Rightarrow> u32 \<Rightarrow> json res" where
  "decode_nobody SGIP buf seq tp = sgip_decode_nobody buf seq tp"
| "decode_nobody p buf seq tp = default_decode_nobody buf seq tp"

fun decode_connect :: "protocol \<Rightarrow> buf \<Rightarrow> u32 \<Rightarrow> u32 \<Rightarrow> json res" where
  "decode_connect SMGP buf seq tp = smgp_decode_connect buf seq tp"
| "decode_connect SGIP buf seq tp = sgip_decode_connect buf seq tp"
| "decode_connect p buf seq tp = default_decode_connect buf seq tp"

fun decode_connect_resp :: "protocol \<Rightarrow> buf \<Rightarrow> u32 \<Rightarrow> u32 \<Rightarrow> json res" where
  "decode_connect_resp SGIP buf seq tp = sgip_decode_connect_resp buf seq tp"
| "decode_connect_resp p buf seq tp = default_decode_connect_resp buf seq tp"

fun decode_report :: "protocol \<Rightarrow> buf \<Rightarrow> u32 \<Rightarrow> u32 \<Rightarrow> json res" where
  "decode_report SGIP buf seq tp = sgip_decode_report buf seq tp"
| "decode_report p buf seq tp = default_decode_report buf seq tp"

fun decode_report_resp :: "protocol \<Rightarrow> buf \<Rightarrow> u32 \<Rightarrow> u32 \<Rightarrow> json res" where
  "decode_report_resp SGIP buf seq tp = sgip_decode_report_resp buf seq tp"
| "decode_report_resp p buf seq tp = default_decode_report_resp buf seq tp"

text \<open>The frame handed over by the codec starts behind the length field.\<close>

definition decode_frame :: "protocol \<Rightarrow> ext \<Rightarrow> buf \<Rightarrow> json res" where
  "decode_frame p x buf = do {
     (tp, buf) \<leftarrow> get_u32 buf;
     (seq, buf) \<leftarrow> get_u32 buf;
     let msg_type = get_type_enum p tp;
     r \<leftarrow> (case msg_type of
         Submit \<Rightarrow> decode_submit p x buf seq tp
       | DeliverResp \<Rightarrow> decode_submit_or_deliver_resp p buf seq tp
       | SubmitResp \<Rightarrow> decode_submit_or_deliver_resp p buf seq tp
       | Deliver \<Rightarrow> decode_deliver p x buf seq tp
       | ActiveTest \<Rightarrow> decode_nobody p buf seq tp
       | ActiveTestResp \<Rightarrow> decode_nobody p buf seq tp
       | Connect \<Rightarrow> decode_connect p buf seq tp
       | ConnectResp \<Rightarrow> decode_connect_resp p buf seq tp
       | Terminate \<Rightarrow> decode_nobody p buf seq tp
       | TerminateResp \<Rightarrow> decode_nobody p buf seq tp
       | Report \<Rightarrow> decode_report p buf seq tp
       | ReportResp \<Rightarrow> decode_report_resp p buf seq tp
       | _ \<Rightarrow> Err Other);
     case r of
       Inl e \<Rightarrow> Err e
     | Inr msg \<Rightarrow>
         (let msg_type = (if msg_type = Deliver \<and> as_bool (idx msg IS_REPORT) = Some True
                          then Report else msg_type)
          in Ok (setk msg MSG_TYPE_STR (JStr (msg_type_to_str msg_type))))
   }"

text \<open>
  The framing codec (\<open>LengthDelimitedCodec\<close> of crate \<open>tokio_util\<close>) is a parameter: from its
  state and the receive buffer it gives an error, nothing yet, or a frame.
\<close>

type_synonym 'c codec = "'c \<Rightarrow> buf \<Rightarrow> (io_error + buf option) \<times> 'c \<times> buf"

definition decode_read_msg ::
    "protocol \<Rightarrow> ext \<Rightarrow> 'c codec \<Rightarrow> 'c \<Rightarrow> buf \<Rightarrow> json option res \<times> 'c \<times> buf" where
  "decode_read_msg p x get_framed c buf =
     (case get_framed c buf of
        (Inr (Some frame), c, buf) \<Rightarrow> (map_option (map_sum id Some) (decode_frame p x frame), c, buf)
      | (Inr None, c, buf) \<Rightarrow> (Ok None, c, buf)
      | (Inl _, c, buf) \<Rightarrow> (Ok None, c, buf))"

definition decode :: "protocol \<Rightarrow> ext \<Rightarrow> 'c codec \<Rightarrow> 'c \<Rightarrow> buf \<Rightarrow> json option res \<times> 'c \<times> buf" where
  "decode p x get_framed c buf =
     (if p = NoProtocol then (Ok None, c, buf) else decode_read_msg p x get_framed c buf)"

end
