(* ===== verification/Wire.thy ===== *)
theory Wire
  imports Dispatch
begin

text \<open>
  What the encoders of all protocols put on the wire, stated for \<open>encode_message\<close> and
  \<open>encode_receipt\<close>: every message is a row of units whose length fields are right, a long
  content is divided among them without loss, the sequence numbers reported back to the
  caller are those sent, and a complete request is encoded without a panic.
\<close>

subsection \<open>Where a unit holds its sequence number and its content\<close>

definition seq_of :: "protocol \<Rightarrow> buf \<Rightarrow> json" where
  "seq_of p u = (if p = SGIP then num (pdu_u64 12 u) else num (pdu_u32 8 u))"

fun submit_offset :: "protocol \<Rightarrow> nat \<Rightarrow> nat" where
  "submit_offset CMPP32 dests = 130 + dests * 21"
| "submit_offset SMGP dests = 118 + dests * 21"
| "submit_offset SGIP dests = 135 + dests * 21"
| "submit_offset _ dests = 143 + dests * 32"

fun submit_tail :: "protocol \<Rightarrow> nat \<Rightarrow> nat" where
  "submit_tail CMPP32 len = 8"
| "submit_tail SMGP len = 8 + tlv_tail (head_len len) 15"
| "submit_tail SGIP len = 8"
| "submit_tail _ len = 20"

fun deliver_offset :: "protocol \<Rightarrow> nat" where
  "deliver_offset CMPP32 = 77"
| "deliver_offset SMGP = 81"
| "deliver_offset SGIP = 69"
| "deliver_offset _ = 89"

fun deliver_tail :: "protocol \<Rightarrow> nat \<Rightarrow> nat" where
  "deliver_tail CMPP32 len = 8"
| "deliver_tail SMGP len = 8 + tlv_tail (head_len len) 5"
| "deliver_tail SGIP len = 8"
| "deliver_tail _ len = 20"

definition units :: "protocol \<Rightarrow> nat \<Rightarrow> nat \<Rightarrow> buf \<Rightarrow> buf \<Rightarrow> json list \<Rightarrow> bool" where
  "units p off tail code out seq_ids \<longleftrightarrow>
     (\<exists>ps. split_frames out = Some ps \<and> length ps = seg_count (length code) \<and>
        concat (map (pdu_content (off + head_len (length code)) tail) ps) = code \<and>
        seq_ids = map (seq_of p) ps)"

lemma length_segments [simp]: "length (segments code) = seg_count (length code)"
  by (simp add: segments_def Let_def)

lemma carries_units:
  assumes "carries g off tail code out j" and "\<And>u. num (g u) = seq_of p u"
  shows "\<exists>js. j = JArr js \<and> units p off tail code out js"
proof -
  obtain ps where ps: "split_frames out = Some ps"
    and c: "map (pdu_content (off + head_len (length code)) tail) ps = segments code"
    and j: "j = JArr (map (seq_of p) ps)"
    using assms(1) by (auto simp: carries_def comp_def assms(2))
  have "length ps = seg_count (length code)" using c by (metis length_map length_segments)
  with ps j show ?thesis
    using segments_concat [of code] by (auto simp: units_def simp flip: c)
qed

lemma msg_type_names [simp]:
  "msg_type_from_str ''Submit'' = Submit"
  "msg_type_from_str ''Deliver'' = Deliver"
  "msg_type_from_str ''Report'' = Report"
  "msg_type_from_str ''Connect'' = Connect"
  "msg_type_from_str ''ActiveTest'' = ActiveTest"
  "msg_type_from_str ''Terminate'' = Terminate"
  by (simp_all add: msg_type_from_str_def lookup_or_def)

definition of_type :: "string \<Rightarrow> json \<Rightarrow> bool" where
  "of_type t json \<longleftrightarrow> as_str (idx json MSG_TYPE_STR) = Some t"

subsection \<open>Example data\<close>

text \<open>A digest and character sets that satisfy \<open>ext_ok\<close>, a clock, and messages, for examples.\<close>

definition demo_ext :: ext where
  "demo_ext = \<lparr>md5 = (\<lambda>b. take 16 (b @ replicate 16 0)), utf16be_encode = (\<lambda>s. Some (as_bytes s)),
     utf16be_decode = (\<lambda>b. Some (from_bytes b)), gbk_encode = (\<lambda>s. Some (as_bytes s)),
     gbk_decode = (\<lambda>b. Some (from_bytes b))\<rparr>"

definition demo_json :: "string \<Rightarrow> json" where
  "demo_json t = JObj
     [(MSG_TYPE_STR, JStr t), (MSG_CONTENT, JStr ''hello''), (MSG_FMT, JNum 0),
      (SERVICE_ID, JStr ''svc''), (SP_ID, JStr ''901234''), (NODE_ID, JNum 3),
      (SRC_ID, JStr ''10690001''), (DEST_ID, JStr ''13800000000''),
      (DEST_IDS, JArr [JStr ''13800000000'']), (MSG_IDS, JArr [JStr ''1'']),
      (MSG_ID, JStr []), (SMGP_RECEIVE_TIME, JStr ''20230101120000''),
      (STATE, JStr ''DELIVRD''), (SUBMIT_TIME, JStr ''2301011200''), (DONE_TIME, JStr ''2301011201''),
      (LOGIN_NAME, JStr ''901234''), (PASSWORD, JStr ''secret''), (VERSION, JNum 48)]"

lemma demo_ext_ok [simp]: "ext_ok demo_ext"
  by (simp add: ext_ok_def demo_ext_def min_def)

lemma demo_fields [simp]:
  "idx (demo_json t) MSG_TYPE_STR = JStr t" "idx (demo_json t) MSG_CONTENT = JStr ''hello''"
  "idx (demo_json t) MSG_FMT = JNum 0" "idx (demo_json t) SERVICE_ID = JStr ''svc''"
  "idx (demo_json t) SP_ID = JStr ''901234''" "idx (demo_json t) NODE_ID = JNum 3"
  "idx (demo_json t) SRC_ID = JStr ''10690001''" "idx (demo_json t) DEST_ID = JStr ''13800000000''"
  "idx (demo_json t) DEST_IDS = JArr [JStr ''13800000000'']" "idx (demo_json t) MSG_IDS = JArr [JStr ''1'']"
  "idx (demo_json t) MSG_ID = JStr []" "idx (demo_json t) SMGP_RECEIVE_TIME = JStr ''20230101120000''"
  "idx (demo_json t) STATE = JStr ''DELIVRD''" "idx (demo_json t) SUBMIT_TIME = JStr ''2301011200''"
  "idx (demo_json t) DONE_TIME = JStr ''2301011201''" "idx (demo_json t) LOGIN_NAME = JStr ''901234''"
  "idx (demo_json t) PASSWORD = JStr ''secret''" "idx (demo_json t) VERSION = JNum 48"
  "idx (demo_json t) VALID_TIME = JNull" "idx (demo_json t) AT_TIME = JNull"
  by (simp_all add: demo_json_def)

lemma ascii_example: "list_all (\<lambda>c. of_char c < (128 :: nat)) s \<Longrightarrow> ascii s"
  by (simp add: ascii_def list_all_iff)

lemma demo_content: "content_code demo_ext (demo_json t) = Some (as_bytes ''hello'')"
  by (simp add: content_code_def msg_fmt_of_def encode_msg_content_def as_word.simps)

lemma demo_fits [simp]:
  "fits n ''svc''" "fits n ''10690001''" "fits n ''13800000000''" "fits n ''20230101120000''" "fits n []"
  by (auto intro!: ascii_fits ascii_example)

lemma demo_prefix: "prefix_bytes ''901234'' 6 \<noteq> None" "prefix_bytes ''901234'' 5 \<noteq> None"
  using prefix_bytes_ascii [of "''901234''" 6] prefix_bytes_ascii [of "''901234''" 5]
  by (simp_all add: ascii_example)

lemma demo_of_type: "of_type t (demo_json t)"
  by (simp add: of_type_def)

subsection \<open>Submit\<close>

lemma submit_units:
  assumes "encode_message p x json w = Some (Inr out, json', w')"
    and "of_type ''Submit'' json"
    and "content_code x json = Some code" and "length code < 2 ^ 24"
    and "jlen (idx json DEST_IDS) < 2 ^ 24"
  shows "\<exists>ps. split_frames out = Some ps \<and> length ps = seg_count (length code) \<and>
    concat (map (pdu_content (submit_offset p (jlen (idx json DEST_IDS)) + head_len (length code))
      (submit_tail p (length code))) ps) = code \<and>
    idx json' SEQ_IDS = JArr (map (seq_of p) ps)"
proof -
  have np: "p \<noteq> NoProtocol" using assms(1) by (auto simp: encode_message_def)
  then have e: "encode_submit p x json w = Some (Inr out, json', w')"
    using assms(1,2) by (simp add: encode_message_def of_type_def)
  have "\<exists>js. idx json' SEQ_IDS = JArr js \<and>
      units p (submit_offset p (jlen (idx json DEST_IDS))) (submit_tail p (length code)) code out js"
    using np e default_encode_submit_carries [OF _ assms(3-5), THEN carries_units]
      cmpp32_encode_submit_carries [OF _ assms(3-5), THEN carries_units]
      smgp_encode_submit_carries [OF _ assms(3-5), THEN carries_units]
      sgip_encode_submit_carries [OF _ assms(3-5), THEN carries_units]
    by (cases p) (simp_all add: seq_of_def)
  then show ?thesis by (auto simp: units_def)
qed

text \<open>C13: a submit message that \<open>encode_message\<close> accepts is, in every protocol,
  a row of well-formed units, as many as the content has segments; their contents put together
  are the encoded text, and \<open>SEQ_IDS\<close> lists their sequence numbers in order.\<close>

theorem submit_frames:
  assumes "encode_message p x json w = Some (Inr out, json', w')"
    and "of_type ''Submit'' json"
    and "content_code x json = Some code" and "length code < 2 ^ 24"
    and "jlen (idx json DEST_IDS) < 2 ^ 24"
  shows "\<exists>ps. split_frames out = Some ps \<and> length ps = seg_count (length code) \<and>
    concat (map (pdu_content (submit_offset p (jlen (idx json DEST_IDS)) + head_len (length code))
      (submit_tail p (length code))) ps) = code \<and>
    idx json' SEQ_IDS = JArr (map (seq_of p) ps)"
  by (rule submit_units [OF assms])

definition submit_ready :: "protocol \<Rightarrow> json \<Rightarrow> bool" where
  "submit_ready p json \<longleftrightarrow>
     p \<noteq> NoProtocol \<and> of_type ''Submit'' json \<and>
     field_fits 10 (idx json SERVICE_ID) \<and> field_fits 21 (idx json SRC_ID) \<and>
     (p \<noteq> SMGP \<longrightarrow> (case as_str (idx json SP_ID) of
        Some s \<Rightarrow> prefix_bytes s (if p = SGIP then 5 else 6) \<noteq> None | None \<Rightarrow> False)) \<and>
     (p \<noteq> SGIP \<longrightarrow> fits 17 (str_or_empty (idx json VALID_TIME)) \<and>
        fits 17 (str_or_empty (idx json AT_TIME)) \<and> is_array (idx json MSG_IDS)) \<and>
     (p = SGIP \<longrightarrow> as_u32 (idx json NODE_ID) \<noteq> None) \<and>
     strs_fit (case p of CMPP32 \<Rightarrow> 21 | SMGP \<Rightarrow> 21 | SGIP \<Rightarrow> 19 | _ \<Rightarrow> 32) (idx json DEST_IDS)"

lemma submit_ready_encodes:
  assumes "submit_ready p json" and "content_code x json = Some code" and "length code < 2 ^ 24"
  shows "\<exists>out json' w'. encode_message p x json w = Some (Inr out, json', w')"
  using assms(1) default_encode_submit_total [OF assms(2,3)] cmpp32_encode_submit_total [OF assms(2,3)]
    smgp_encode_submit_total [OF assms(2,3)] sgip_encode_submit_total [OF assms(2,3)]
  by (cases p) (auto simp: submit_ready_def of_type_def encode_message_def split: option.splits)

lemma demo_submit_ready: "p \<noteq> NoProtocol \<Longrightarrow> submit_ready p (demo_json ''Submit'')"
  using demo_prefix
  by (cases p) (simp_all add: submit_ready_def demo_of_type field_fits_def strs_fit_def str_or_empty_def as_word.simps)

lemma submit_frames_witness:
  "\<exists>out json' w' ps. encode_message CMPP48 demo_ext (demo_json ''Submit'') demo_world = Some (Inr out, json', w') \<and>
     split_frames out = Some ps \<and> length ps = 1"
proof -
  obtain out json' w' where
    e: "encode_message CMPP48 demo_ext (demo_json ''Submit'') demo_world = Some (Inr out, json', w')"
    using submit_ready_encodes [OF demo_submit_ready demo_content, of CMPP48 demo_world] by auto
  then show ?thesis
    using submit_frames [OF e demo_of_type demo_content] by (auto simp: seg_count_def)
qed

text \<open>C31: a submit message with its fields present, its texts cuttable at their field widths and a content
  that can be encoded in the character set it names, to less than \<open>2 ^ 24\<close> bytes, is encoded in
  every protocol: no panic, no error.\<close>

theorem submit_total:
  assumes "submit_ready p json" and "content_code x json = Some code" and "length code < 2 ^ 24"
  shows "\<exists>out json' w'. encode_message p x json w = Some (Inr out, json', w')"
  by (rule submit_ready_encodes [OF assms])

lemma submit_total_witness:
  "\<exists>out json' w'. encode_message SMGP demo_ext (demo_json ''Submit'') demo_world = Some (Inr out, json', w')"
  by (rule submit_total [OF demo_submit_ready demo_content]) simp_all

subsection \<open>Deliver\<close>

definition doubled :: "'a list \<Rightarrow> 'a list" where
  "doubled xs = concat (map (\<lambda>s. [s, s]) xs)"

lemma deliver_units:
  assumes "encode_deliver p x json w = Some (Inr out, json', w')" and "p \<noteq> NoProtocol"
    and "content_code x json = Some code" and "length code < 2 ^ 24"
  shows "\<exists>js. idx json' SEQ_IDS = JArr (if p = SMGP then doubled js else js) \<and>
    units p (deliver_offset p) (deliver_tail p (length code)) code out js"
proof (cases "p = SMGP")
  case True
  then have "smgp_encode_deliver x json w = Some (Inr out, json', w')" using assms(1) by simp
  from smgp_encode_deliver_carries [OF this assms(3,4)] obtain sq :: "u32 list" where
    "carries (pdu_u32 8) 81 (8 + tlv_tail (head_len (length code)) 5) code out (nums sq)"
    and sq: "idx json' SEQ_IDS = nums (concat (map (\<lambda>s. [s, s]) sq))"
    by blast
  then have "units p 81 (8 + tlv_tail (head_len (length code)) 5) code out (map num sq)"
    using carries_units [of "pdu_u32 8" 81 _ code out "nums sq" p] True by (auto simp: seq_of_def)
  moreover have "map num (concat (map (\<lambda>s. [s, s]) sq)) = doubled (map num sq)"
    by (simp add: doubled_def map_concat comp_def)
  ultimately show ?thesis using True sq by auto
next
  case False
  then show ?thesis
    using assms(1,2) default_encode_deliver_carries [OF _ assms(3,4), THEN carries_units]
      cmpp32_encode_deliver_carries [OF _ assms(3,4), THEN carries_units]
      sgip_encode_deliver_carries [OF _ assms(3,4), THEN carries_units]
    by (cases p) (simp_all add: seq_of_def)
qed

text \<open>The same of a deliver message, except that SMGP lists every sequence number twice in
  \<open>SEQ_IDS\<close>.\<close>

theorem deliver_frames:
  assumes "encode_message p x json w = Some (Inr out, json', w')"
    and "of_type ''Deliver'' json"
    and "content_code x json = Some code" and "length code < 2 ^ 24"
  shows "\<exists>ps. split_frames out = Some ps \<and> length ps = seg_count (length code) \<and>
    concat (map (pdu_content (deliver_offset p + head_len (length code))
      (deliver_tail p (length code))) ps) = code \<and>
    idx json' SEQ_IDS =
      JArr (if p = SMGP then doubled (map (seq_of p) ps) else map (seq_of p) ps)"
proof -
  have "p \<noteq> NoProtocol" "encode_deliver p x json w = Some (Inr out, json', w')"
    using assms(1,2) by (auto simp: encode_message_def of_type_def split: if_splits)
  then obtain js where "idx json' SEQ_IDS = JArr (if p = SMGP then doubled js else js)"
    and "units p (deliver_offset p) (deliver_tail p (length code)) code out js"
    using deliver_units [OF _ _ assms(3,4)] by blast
  then show ?thesis unfolding units_def by blast
qed

definition deliver_ready :: "protocol \<Rightarrow> json \<Rightarrow> bool" where
  "deliver_ready p json \<longleftrightarrow>
     p \<noteq> NoProtocol \<and> of_type ''Deliver'' json \<and>
     (p \<noteq> CMPP32 \<and> p \<noteq> SGIP \<longrightarrow> as_str (idx json MSG_ID) \<noteq> None) \<and>
     (p \<noteq> SMGP \<and> p \<noteq> SGIP \<longrightarrow> field_fits 10 (idx json SERVICE_ID)) \<and>
     (p = SMGP \<longrightarrow> field_fits 14 (idx json SMGP_RECEIVE_TIME)) \<and>
     (p = SGIP \<longrightarrow> as_u32 (idx json NODE_ID) \<noteq> None) \<and>
     field_fits (case p of CMPP32 \<Rightarrow> 21 | SMGP \<Rightarrow> 21 | SGIP \<Rightarrow> 21 | _ \<Rightarrow> 32) (idx json SRC_ID) \<and>
     field_fits 21 (idx json DEST_ID)"

lemma deliver_ready_encodes:
  assumes "deliver_ready p json" and "content_code x json = Some code" and "length code < 2 ^ 24"
  shows "\<exists>out json' w'. encode_message p x json w = Some (Inr out, json', w')"
  using assms(1) default_encode_deliver_total [OF assms(2,3)] cmpp32_encode_deliver_total [OF assms(2,3)]
    smgp_encode_deliver_total [OF assms(2,3)] sgip_encode_deliver_total [OF assms(2,3)]
  by (cases p) (auto simp: deliver_ready_def of_type_def encode_message_def)

lemma demo_deliver_ready: "p \<noteq> NoProtocol \<Longrightarrow> deliver_ready p (demo_json ''Deliver'')"
  by (cases p) (simp_all add: deliver_ready_def demo_of_type field_fits_def as_word.simps)

lemma deliver_frames_witness:
  "\<exists>out json' w' ps. encode_message SMGP demo_ext (demo_json ''Deliver'') demo_world = Some (Inr out, json', w') \<and>
     split_frames out = Some ps \<and> length ps = 1 \<and> idx json' SEQ_IDS = JArr (doubled (map (seq_of SMGP) ps))"
proof -
  obtain out json' w' where
    e: "encode_message SMGP demo_ext (demo_json ''Deliver'') demo_world = Some (Inr out, json', w')"
    using deliver_ready_encodes [OF demo_deliver_ready demo_content, of SMGP demo_world] by auto
  then show ?thesis
    using deliver_frames [OF e demo_of_type demo_content] by (auto simp: seg_count_def)
qed

text \<open>A deliver message with its fields present is encoded in every protocol.\<close>

theorem deliver_total:
  assumes "deliver_ready p json" and "content_code x json = Some code" and "length code < 2 ^ 24"
  shows "\<exists>out json' w'. encode_message p x json w = Some (Inr out, json', w')"
  by (rule deliver_ready_encodes [OF assms])

lemma deliver_total_witness:
  "\<exists>out json' w'. encode_message SGIP demo_ext (demo_json ''Deliver'') demo_world = Some (Inr out, json', w')"
  by (rule deliver_total [OF demo_deliver_ready demo_content]) simp_all

subsection \<open>Messages of fixed length\<close>

lemma fixed_message_frame:
  assumes "encode_message p x json w = Some (Inr out, json', w')" and "ext_ok x"
    and "of_type t json" and "t \<in> {''Connect'', ''ActiveTest'', ''Terminate''} \<or> t = ''Report'' \<and> p \<noteq> SMGP"
  shows "pdu_ok out"
  using assms default_fixed_frames smgp_encode_connect_frame sgip_fixed_frames cmpp32_encode_report_frame
  by (cases p) (auto simp: encode_message_def of_type_def)

text \<open>The login, keep-alive and close messages of every protocol, and the status report of
  every protocol but SMGP, have the length their length field says.\<close>

theorem fixed_message_frames:
  assumes "encode_message p x json w = Some (Inr out, json', w')" and "ext_ok x"
    and "of_type t json" and "t \<in> {''Connect'', ''ActiveTest'', ''Terminate''} \<or> t = ''Report'' \<and> p \<noteq> SMGP"
  shows "split_frames out = Some [out]"
  using fixed_message_frame [OF assms] by (rule split_frames_single)

lemma fixed_message_frames_witness:
  "\<exists>out json' w'. encode_message CMPP48 demo_ext (demo_json ''Terminate'') demo_world = Some (Inr out, json', w') \<and>
     split_frames out = Some [out]"
proof -
  obtain out json' w' where
    e: "encode_message CMPP48 demo_ext (demo_json ''Terminate'') demo_world = Some (Inr out, json', w')"
    by (simp add: encode_message_def default_encode_terminate_def succeed_def Let_def split_def)
  then show ?thesis
    using fixed_message_frames [OF e demo_ext_ok demo_of_type] by auto
qed

text \<open>The status report of SMGP is four bytes longer than its length field says, so a peer
  that reads frames by their length loses its place in the stream.\<close>

theorem smgp_report_overlong:
  assumes "encode_message SMGP x json w = Some (Inr out, json', w')" and "of_type ''Report'' json"
    and "as_str (idx json MSG_ID) = Some v" and "length (smgp_msg_id_str_to_buf v) = 10"
  shows "length out = 187 \<and> be_nat (take 4 out) = 183"
  using assms by (auto simp: encode_message_def of_type_def smgp_encode_report_def fixed_simps)

lemma demo_report_times [simp]: "fits n ''2301011200''" "fits n ''2301011201''" "fits n ''DELIVRD''"
  by (auto intro!: ascii_fits ascii_example)

definition demo_smgp_report :: json where
  "demo_smgp_report = setk (demo_json ''Report'') MSG_ID (JStr ''12345601311523000007'')"

lemma smgp_report_overlong_witness:
  "\<exists>out json' w'. encode_message SMGP demo_ext demo_smgp_report demo_world = Some (Inr out, json', w') \<and>
     length out = 187 \<and> be_nat (take 4 out) = 183"
proof -
  let ?v = "''12345601311523000007''"
  have v: "as_str (idx demo_smgp_report MSG_ID) = Some ?v" by (simp add: demo_smgp_report_def)
  have t: "of_type ''Report'' demo_smgp_report" by (simp add: of_type_def demo_smgp_report_def)
  have l: "length (smgp_msg_id_str_to_buf ?v) = 10"
    by (simp add: smgp_msg_id_str_to_buf_def put_u8_def Let_def)
  obtain out json' w' where
    e: "encode_message SMGP demo_ext demo_smgp_report demo_world = Some (Inr out, json', w')"
    using t v
    by (auto simp: encode_message_def of_type_def smgp_encode_report_def succeed_def Let_def split_def
        demo_smgp_report_def)
  then show ?thesis using smgp_report_overlong [OF e t v l] by blast
qed

subsection \<open>Receipts\<close>

lemma sgip_deliver_resp_length:
  "sgip_encode_deliver_resp st json w = Some (Some b, j, w') \<Longrightarrow> length b = 32 \<and> be_nat (take 4 b) = 29"
  by (auto simp: sgip_encode_deliver_resp_def fixed_simps)

lemma receipt_frame:
  assumes "encode_receipt p st json w = Some (Some b, json', w')"
  shows "pdu_ok b \<longleftrightarrow> \<not> (p = SGIP \<and> (\<exists>tp. as_u32 (idx json MSG_TYPE_U32) = Some tp \<and> get_type_enum p tp = Deliver))"
proof -
  obtain tp where tp: "as_u32 (idx json MSG_TYPE_U32) = Some tp" "p \<noteq> NoProtocol"
    using assms by (auto simp: encode_receipt_def bind_eq_Some split: if_splits)
  show ?thesis
  proof (cases p)
    case CMPP48
    with tp assms show ?thesis
      by (cases "get_type_enum p tp") (auto simp: encode_receipt_def dest: default_reply_frames)
  next
    case CMPP32
    with tp assms show ?thesis
      by (cases "get_type_enum p tp")
        (auto simp: encode_receipt_def dest: default_reply_frames cmpp32_reply_frames)
  next
    case SMGP
    with tp assms show ?thesis
      by (cases "get_type_enum p tp")
        (auto simp: encode_receipt_def dest: default_reply_frames smgp_encode_submit_resp_frame)
  next
    case SGIP
    with tp assms show ?thesis
      by (cases "get_type_enum p tp")
        (auto simp: encode_receipt_def pdu_ok_def [of b]
          dest: default_reply_frames(5) sgip_reply_frames sgip_deliver_resp_length)
  next
    case SMPP
    with tp assms show ?thesis
      by (cases "get_type_enum p tp") (auto simp: encode_receipt_def dest: default_reply_frames)
  qed (use tp in simp)
qed

text \<open>Every receipt has the length its length field says, except the answer of SGIP to a
  deliver message: it declares 29 bytes and has 32.\<close>

theorem receipt_frames:
  assumes "encode_receipt p st json w = Some (Some b, json', w')"
    and "as_u32 (idx json MSG_TYPE_U32) = Some tp"
  shows "if p = SGIP \<and> get_type_enum p tp = Deliver then length b = 32 \<and> be_nat (take 4 b) = 29
    else split_frames b = Some [b]"
proof (cases "p = SGIP \<and> get_type_enum p tp = Deliver")
  case True
  then show ?thesis using assms sgip_deliver_resp_length by (auto simp: encode_receipt_def)
next
  case False
  then show ?thesis using receipt_frame [OF assms(1)] assms(2) by (auto intro: split_frames_single)
qed

definition demo_sgip_deliver :: json where
  "demo_sgip_deliver = JObj [(MSG_TYPE_U32, JNum 4), (MSG_ID, JStr (sgip_msg_id_u64_to_str 3 7))]"

lemma receipt_frames_witness:
  "\<exists>b json' w'. encode_receipt SGIP Success demo_sgip_deliver demo_world = Some (Some b, json', w') \<and>
     length b = 32 \<and> be_nat (take 4 b) = 29"
proof -
  have t: "as_u32 (idx demo_sgip_deliver MSG_TYPE_U32) = Some 4"
    by (simp add: demo_sgip_deliver_def as_word.simps)
  have g: "get_type_enum SGIP 4 = Deliver" by (simp add: sgip_type_enum_def lookup_or_def)
  have m: "as_str (idx demo_sgip_deliver MSG_ID) = Some (sgip_msg_id_u64_to_str 3 7)"
    by (simp add: demo_sgip_deliver_def)
  obtain b json' w' where
    e: "encode_receipt SGIP Success demo_sgip_deliver demo_world = Some (Some b, json', w')"
    using t g m sgip_msg_id_roundtrip [of 3 7]
    by (auto simp: encode_receipt_def sgip_encode_deliver_resp_def reply_def)
  then show ?thesis using receipt_frames [OF e t] g by simp
qed

end

