(* ===== verification/Mpsc.thy ===== *)
theory Mpsc
  imports World Json MsgType
begin

text \<open>
  What the tasks of the gateway talk through.

  Between two tasks runs a bounded queue of crate \<open>tokio\<close> (\<open>tokio::sync::mpsc\<close>), which is a
  parameter: a sender's \<open>send\<close> either appends the message or hands it back because the receiver
  is gone, \<open>capacity\<close> tells how many more messages fit, a receiver's \<open>recv\<close> gives nothing yet,
  the first message, or the end (which it does once the queue is closed and empty), and \<open>close\<close> lets nobody send any more, which \<open>is_closed\<close> tells.  \<open>mpsc_contents\<close> names
  what is waiting in a queue; the code never reads it.  A \<open>send\<close> on a full queue suspends the
  task; it is modelled from where it goes on.

  A message to Kafka (\<open>KafkaMessageProducer::send\<close>) is an event: topic, key and the JSON
  object whose text is sent.
\<close>

record 'q mpsc =
  mpsc_send :: "json \<Rightarrow> 'q \<Rightarrow> bool \<times> 'q"
  mpsc_capacity :: "'q \<Rightarrow> u64"
  mpsc_recv :: "'q \<Rightarrow> json option option \<times> 'q"
  mpsc_close :: "'q \<Rightarrow> 'q"
  mpsc_is_closed :: "'q \<Rightarrow> bool"
  mpsc_contents :: "'q \<Rightarrow> json list"

text \<open>\<open>CHANNEL_BUFF_NUM\<close> of \<open>global.rs\<close>: the size every queue to a connection is created with.\<close>

definition CHANNEL_BUFF_NUM :: u64 where
  "CHANNEL_BUFF_NUM = 0xFFFFFFFF"

text \<open>What the documentation of the queue promises.\<close>

definition mpsc_ok :: "'q mpsc \<Rightarrow> bool" where
  "mpsc_ok m \<longleftrightarrow>
     (\<forall>v q. fst (mpsc_send m v q) = (\<not> mpsc_is_closed m q) \<and>
        mpsc_is_closed m (snd (mpsc_send m v q)) = mpsc_is_closed m q \<and>
        mpsc_contents m (snd (mpsc_send m v q)) =
          (if mpsc_is_closed m q then mpsc_contents m q else mpsc_contents m q @ [v])) \<and>
     (\<forall>q. case mpsc_contents m q of
        [] \<Rightarrow> (\<forall>v. fst (mpsc_recv m q) \<noteq> Some (Some v)) \<and> mpsc_contents m (snd (mpsc_recv m q)) = []
      | v # vs \<Rightarrow> fst (mpsc_recv m q) = Some (Some v) \<and> mpsc_contents m (snd (mpsc_recv m q)) = vs) \<and>
     (\<forall>q. mpsc_contents m (mpsc_close m q) = mpsc_contents m q \<and> mpsc_is_closed m (mpsc_close m q)) \<and>
     (\<forall>q. mpsc_is_closed m (snd (mpsc_recv m q)) = mpsc_is_closed m q \<and>
        (mpsc_is_closed m q \<and> mpsc_contents m q = [] \<longrightarrow> fst (mpsc_recv m q) = Some None))"

lemma mpsc_send_law:
  assumes "mpsc_ok m" and "mpsc_send m v q = (ok, q')"
  shows "ok = (\<not> mpsc_is_closed m q)" and "mpsc_is_closed m q' = mpsc_is_closed m q"
    and "mpsc_contents m q' = (if mpsc_is_closed m q then mpsc_contents m q else mpsc_contents m q @ [v])"
  using assms unfolding mpsc_ok_def by (metis fst_conv snd_conv)+

lemma mpsc_sent: "mpsc_ok m \<Longrightarrow> mpsc_send m v q = (True, q') \<Longrightarrow> mpsc_contents m q' = mpsc_contents m q @ [v]"
  using mpsc_send_law by fastforce

lemma mpsc_refused: "mpsc_ok m \<Longrightarrow> mpsc_send m v q = (False, q') \<Longrightarrow> mpsc_contents m q' = mpsc_contents m q"
  using mpsc_send_law by fastforce

lemma mpsc_recv_law:
  "mpsc_ok m \<Longrightarrow> case mpsc_contents m q of
        [] \<Rightarrow> (\<forall>v. fst (mpsc_recv m q) \<noteq> Some (Some v)) \<and> mpsc_contents m (snd (mpsc_recv m q)) = []
      | v # vs \<Rightarrow> fst (mpsc_recv m q) = Some (Some v) \<and> mpsc_contents m (snd (mpsc_recv m q)) = vs"
  unfolding mpsc_ok_def by blast

lemma mpsc_received:
  "mpsc_ok m \<Longrightarrow> mpsc_recv m q = (Some (Some v), q') \<Longrightarrow> mpsc_contents m q = v # mpsc_contents m q'"
  using mpsc_recv_law [of m q] by (auto split: list.splits)

lemma mpsc_nothing:
  assumes "mpsc_ok m" and "mpsc_recv m q = (r, q')" and "\<nexists>v. r = Some (Some v)"
  shows "mpsc_contents m q = []" and "mpsc_contents m q' = []"
  using mpsc_recv_law [OF assms(1), of q] assms(2,3) by (auto split: list.splits)

lemma mpsc_closed:
  "mpsc_ok m \<Longrightarrow> mpsc_contents m (mpsc_close m q) = mpsc_contents m q"
  "mpsc_ok m \<Longrightarrow> mpsc_is_closed m (mpsc_close m q)"
  by (simp_all add: mpsc_ok_def)

lemma mpsc_recv_closed:
  "mpsc_ok m \<Longrightarrow> mpsc_is_closed m (snd (mpsc_recv m q)) = mpsc_is_closed m q"
  "mpsc_ok m \<Longrightarrow> mpsc_is_closed m q \<Longrightarrow> mpsc_contents m q = [] \<Longrightarrow> fst (mpsc_recv m q) = Some None"
  by (simp_all add: mpsc_ok_def)

text \<open>\<open>while let Some(msg) = rx.recv().await\<close>, at most \<open>n\<close> times round.\<close>

fun drain :: "'q mpsc \<Rightarrow> nat \<Rightarrow> 'q \<Rightarrow> json list \<times> 'q" where
  "drain m 0 q = ([], q)"
| "drain m (Suc n) q =
     (case mpsc_recv m q of
        (Some (Some msg), q) \<Rightarrow> (let (msgs, q) = drain m n q in (msg # msgs, q))
      | (_, q) \<Rightarrow> ([], q))"

text \<open>One round more than there are messages takes all of them; further rounds would take no other.\<close>

lemma drain_contents:
  assumes "mpsc_ok m"
  shows "length (mpsc_contents m q) < n \<Longrightarrow> drain m n q = (mpsc_contents m q, q') \<Longrightarrow> mpsc_contents m q' = []"
    and "length (mpsc_contents m q) < n \<Longrightarrow> fst (drain m n q) = mpsc_contents m q"
    and "mpsc_is_closed m (snd (drain m n q)) = mpsc_is_closed m q"
proof -
  have "(length (mpsc_contents m q) < n \<longrightarrow>
      fst (drain m n q) = mpsc_contents m q \<and> mpsc_contents m (snd (drain m n q)) = []) \<and>
    mpsc_is_closed m (snd (drain m n q)) = mpsc_is_closed m q"
  proof (induction n arbitrary: q)
    case 0
    then show ?case by simp
  next
    case (Suc n)
    obtain r q' where r: "mpsc_recv m q = (r, q')" by fastforce
    have cl: "mpsc_is_closed m q' = mpsc_is_closed m q" using mpsc_recv_closed(1) [OF assms, of q] r by simp
    show ?case
    proof (cases "\<exists>v. r = Some (Some v)")
      case False
      then show ?thesis using mpsc_nothing [OF assms r] r cl by (auto split: option.split)
    next
      case True
      then obtain v where v: "r = Some (Some v)" by blast
      then have "mpsc_contents m q = v # mpsc_contents m q'" using mpsc_received [OF assms] r by simp
      then show ?thesis using Suc [of q'] r v cl by (simp add: split_def Let_def)
    qed
  qed
  then show "length (mpsc_contents m q) < n \<Longrightarrow> drain m n q = (mpsc_contents m q, q') \<Longrightarrow> mpsc_contents m q' = []"
    "length (mpsc_contents m q) < n \<Longrightarrow> fst (drain m n q) = mpsc_contents m q"
    "mpsc_is_closed m (snd (drain m n q)) = mpsc_is_closed m q"
    by (metis snd_conv)+
qed

type_synonym event = "string \<times> string \<times> json"

subsection \<open>Topics\<close>

abbreviation (input) TOPIC_TO_B_SUBMIT :: string where
  "TOPIC_TO_B_SUBMIT \<equiv> ''toB.submit''"

abbreviation (input) TOPIC_TO_B_SUBMIT_RESP :: string where
  "TOPIC_TO_B_SUBMIT_RESP \<equiv> ''toB.submit.response''"

abbreviation (input) TOPIC_TO_B_DELIVER :: string where
  "TOPIC_TO_B_DELIVER \<equiv> ''toB.deliver''"

abbreviation (input) TOPIC_TO_B_DELIVER_RESP :: string where
  "TOPIC_TO_B_DELIVER_RESP \<equiv> ''toB.deliver.response''"

abbreviation (input) TOPIC_TO_B_REPORT :: string where
  "TOPIC_TO_B_REPORT \<equiv> ''toB.report''"

abbreviation (input) TOPIC_TO_B_REPORT_RESP :: string where
  "TOPIC_TO_B_REPORT_RESP \<equiv> ''toB.deliver.response''"

abbreviation (input) TOPIC_TO_B_FAILURE :: string where
  "TOPIC_TO_B_FAILURE \<equiv> ''sms.send.failure''"

abbreviation (input) TOPIC_TO_B_PASSAGE_STATE_CHANGE :: string where
  "TOPIC_TO_B_PASSAGE_STATE_CHANGE \<equiv> ''passage.state.change''"

abbreviation (input) TOPIC_TO_B_ACCOUNT_STATE_CHANGE :: string where
  "TOPIC_TO_B_ACCOUNT_STATE_CHANGE \<equiv> ''account.state.change''"

abbreviation (input) TOPIC_ACCOUNT_MODIFY :: string where
  "TOPIC_ACCOUNT_MODIFY \<equiv> ''account.modify''"

abbreviation (input) TOPIC_ACCOUNT_ADD :: string where
  "TOPIC_ACCOUNT_ADD \<equiv> ''account.add''"

abbreviation (input) TOPIC_ACCOUNT_INIT :: string where
  "TOPIC_ACCOUNT_INIT \<equiv> ''account.init''"

abbreviation (input) TOPIC_ACCOUNT_REMOVE :: string where
  "TOPIC_ACCOUNT_REMOVE \<equiv> ''account.remove''"

abbreviation (input) TOPIC_PASSAGE_MODIFY :: string where
  "TOPIC_PASSAGE_MODIFY \<equiv> ''passage.modify''"

abbreviation (input) TOPIC_PASSAGE_ADD :: string where
  "TOPIC_PASSAGE_ADD \<equiv> ''passage.add''"

abbreviation (input) TOPIC_PASSAGE_INIT :: string where
  "TOPIC_PASSAGE_INIT \<equiv> ''passage.init''"

abbreviation (input) TOPIC_PASSAGE_REMOVE :: string where
  "TOPIC_PASSAGE_REMOVE \<equiv> ''passage.remove''"

abbreviation (input) TOPIC_PASSAGE_REQUEST_STATE :: string where
  "TOPIC_PASSAGE_REQUEST_STATE \<equiv> ''passage.request.state''"

abbreviation (input) TOPIC_TO_B_LOWER_COMPUTER_INIT :: string where
  "TOPIC_TO_B_LOWER_COMPUTER_INIT \<equiv> ''lower.computer.init''"

abbreviation (input) TOPIC_FROM_B_SUBMIT :: string where
  "TOPIC_FROM_B_SUBMIT \<equiv> ''send.submit''"

abbreviation (input) TOPIC_FROM_B_DELIVER :: string where
  "TOPIC_FROM_B_DELIVER \<equiv> ''send.deliver''"

abbreviation (input) TOPIC_FROM_B_REPORT :: string where
  "TOPIC_FROM_B_REPORT \<equiv> ''send.report''"

subsection \<open>Hash maps\<close>

text \<open>
  The contract of a \<open>HashMap\<close> as the tasks use it: what a lookup returns after an insert and
  after a remove, and which keys it holds.  A map is the list of its entries, in some order.
\<close>

locale hash_map =
  fixes lookup :: "'m \<Rightarrow> 'k \<Rightarrow> 'v option"
    and insert_key :: "'k \<Rightarrow> 'v \<Rightarrow> 'm \<Rightarrow> 'm"
    and remove_key :: "'k \<Rightarrow> 'm \<Rightarrow> 'm"
  assumes lookup_insert: "lookup (insert_key k v m) k' = (if k = k' then Some v else lookup m k')"
    and lookup_remove: "lookup (remove_key k m) k' = (if k = k' then None else lookup m k')"
begin

lemma insert_insert_same: "lookup (insert_key k v (insert_key k u m)) = lookup (insert_key k v m)"
  by (rule ext) (simp add: lookup_insert)

text \<open>Inserting a list of entries: the last entry of a key wins, the other keys stay.\<close>

lemma fold_insert_other:
  "k \<notin> fst ` set kvs \<Longrightarrow> lookup (fold (\<lambda>(k, v). insert_key k v) kvs m) k = lookup m k"
  by (induction kvs arbitrary: m) (auto simp: lookup_insert)

lemma fold_insert_distinct:
  "distinct (map fst kvs) \<Longrightarrow> (k, v) \<in> set kvs \<Longrightarrow>
   lookup (fold (\<lambda>(k, v). insert_key k v) kvs m) k = Some v"
proof (induction kvs arbitrary: m)
  case Nil
  then show ?case by simp
next
  case (Cons kv kvs)
  obtain k' v' where kv: "kv = (k', v')" by (cases kv)
  show ?case
  proof (cases "k = k'")
    case True
    with Cons.prems kv have "v = v'" by (force simp: image_iff)
    with Cons.prems(1) kv True show ?thesis by (simp add: fold_insert_other lookup_insert)
  next
    case False
    with Cons kv show ?thesis by simp
  qed
qed

end

interpretation amap: hash_map map_of AList.update AList.delete
  by unfold_locales (simp_all add: update_conv delete_conv)

text \<open>\<open>retain\<close>: the entries for which the closure says true.\<close>

abbreviation (input) retain :: "('a \<Rightarrow> bool) \<Rightarrow> 'a list \<Rightarrow> 'a list" where
  "retain P xs \<equiv> filter P xs"

subsection \<open>Time\<close>

text \<open>\<open>i64\<close> addition, which wraps in a release build.\<close>

definition i64_add :: "int \<Rightarrow> int \<Rightarrow> int" where
  "i64_add a b = signed_take_bit 63 (a + b)"

lemma i64_add_small: "- (2 ^ 63) \<le> a + b \<Longrightarrow> a + b < 2 ^ 63 \<Longrightarrow> i64_add a b = a + b"
  unfolding i64_add_def by (rule signed_take_bit_int_eq_self)

end
