(* ===== verification/Running.thy ===== *)
theory Running
  imports Mpsc Encoding
begin

text \<open>
  \<open>entity/entity_running.rs\<close>: the task of an account or of an operator link.  It keeps the
  connections it may send through, the messages that wait for a receipt, and the parts of long
  messages; it takes messages from the manager and from its connections, chooses a connection
  for what has to be sent and publishes what was received.

  The handlers take the queue operations \<open>m\<close>, the state, and the readings of the clock; they
  return \<open>None\<close> where the code panics.  Log output is not modelled.
\<close>

subsection \<open>State\<close>

datatype EntityType = Custom | Server

record 'q channel_states =
  cs_id :: u64
  is_active :: bool
  can_write :: bool
  entity_to_channel_priority_tx :: 'q
  entity_to_channel_common_tx :: 'q

record 'q run_context =
  entity_id :: u32
  entity_type :: EntityType
  service_id :: string
  sp_id :: string
  node_id :: u32
  index :: u64
  send_channels :: "'q channel_states list"
  wait_receipt_map :: "(u64 \<times> json) list"
  long_sms_cache :: "(string \<times> json option list) list"
  to_queue :: "event list"
  now_conn_num :: u8
  state_change_json :: json
  send_buff_cap :: u64
  write_limit :: u64
  is_buff_full :: bool

text \<open>\<open>TEMP_SAVE\<close>: the two queues of a connection that has logged in and is not yet known here.\<close>

type_synonym 'q temp_save = "(u32 \<times> 'q \<times> 'q) list"

definition DISCONNECT :: u8 where
  "DISCONNECT = 0"

definition CONNECT :: u8 where
  "CONNECT = 1"

definition BUFF_FULL :: u8 where
  "BUFF_FULL = 2"

definition emit :: "string \<Rightarrow> string \<Rightarrow> json \<Rightarrow> 'q run_context \<Rightarrow> 'q run_context" where
  "emit topic key json c = c\<lparr>to_queue := to_queue c @ [(topic, key, json)]\<rparr>"

text \<open>Macro \<open>send_to_queue!\<close>.\<close>

definition strip_internal :: "json \<Rightarrow> json" where
  "strip_internal json =
     removek (removek (removek (removek json MANAGER_TYPE) SEQ_ID) SEQ_IDS) MSG_TYPE_U32"

definition send_to_queue :: "string \<Rightarrow> string \<Rightarrow> json \<Rightarrow> 'q run_context \<Rightarrow> 'q run_context" where
  "send_to_queue topic key json c = emit topic key (strip_internal json) c"

text \<open>Macro \<open>send_entity_state!\<close>.\<close>

fun state_code :: "bool \<Rightarrow> u8 \<Rightarrow> u8" where
  "state_code full n = (if n = 0 then DISCONNECT else if full then BUFF_FULL else CONNECT)"

definition send_entity_state :: "'q run_context \<Rightarrow> 'q run_context" where
  "send_entity_state c =
     (let state = state_code (is_buff_full c) (now_conn_num c);
          c = c\<lparr>state_change_json := setk (state_change_json c) STATE (num state)\<rparr>
      in case entity_type c of
           Custom \<Rightarrow> emit TOPIC_TO_B_ACCOUNT_STATE_CHANGE [] (state_change_json c) c
         | Server \<Rightarrow> emit TOPIC_TO_B_PASSAGE_STATE_CHANGE [] (state_change_json c) c)"

text \<open>\<open>start_entity\<close> up to its loop.\<close>

definition start_context ::
    "u32 \<Rightarrow> string \<Rightarrow> string \<Rightarrow> u32 \<Rightarrow> u8 \<Rightarrow> EntityType \<Rightarrow> u64 \<Rightarrow> u64 \<Rightarrow> 'q run_context" where
  "start_context eid service sp node conn_num etype buff_cap limit =
     (let buff_cap = (if buff_cap = 0 then CHANNEL_BUFF_NUM else buff_cap);
          msg_type = (case etype of Custom \<Rightarrow> ''AccountStateChange'' | Server \<Rightarrow> ''PassageStateChange'')
      in \<lparr>entity_id = eid, entity_type = etype, service_id = service, sp_id = sp,
          node_id = node, index = 0, send_channels = [], wait_receipt_map = [],
          long_sms_cache = [], to_queue = [], now_conn_num = conn_num,
          state_change_json = JObj [(''msg_type'', JStr msg_type), (''id'', num eid),
            (''state'', num DISCONNECT)],
          send_buff_cap = buff_cap, write_limit = limit, is_buff_full = False\<rparr>)"

subsection \<open>Choosing a connection\<close>

definition buff_num :: "'q mpsc \<Rightarrow> 'q channel_states \<Rightarrow> u64" where
  "buff_num m select =
     CHANNEL_BUFF_NUM - mpsc_capacity m (entity_to_channel_priority_tx select)
       + CHANNEL_BUFF_NUM - mpsc_capacity m (entity_to_channel_common_tx select)"

definition note_buff_full :: "'q mpsc \<Rightarrow> 'q channel_states \<Rightarrow> 'q run_context \<Rightarrow> 'q run_context" where
  "note_buff_full m select c =
     (if entity_type c = Server \<and> send_buff_cap c < CHANNEL_BUFF_NUM
         \<and> send_buff_cap c < buff_num m select \<and> \<not> is_buff_full c
      then send_entity_state (c\<lparr>is_buff_full := True\<rparr>)
      else c)"

text \<open>The queue of a connection for a message, and its replacement.\<close>

definition sender :: "bool \<Rightarrow> 'q channel_states \<Rightarrow> 'q" where
  "sender priority s =
     (if priority then entity_to_channel_priority_tx s else entity_to_channel_common_tx s)"

definition set_sender :: "bool \<Rightarrow> 'q \<Rightarrow> 'q channel_states \<Rightarrow> 'q channel_states" where
  "set_sender priority q s =
     (if priority then s\<lparr>entity_to_channel_priority_tx := q\<rparr> else s\<lparr>entity_to_channel_common_tx := q\<rparr>)"

definition drop_channel :: "u64 \<Rightarrow> 'q run_context \<Rightarrow> 'q run_context" where
  "drop_channel channel_id c =
     (let rest = retain (\<lambda>item. cs_id item \<noteq> channel_id) (send_channels c)
      in c\<lparr>send_channels := rest, now_conn_num := of_nat (length rest)\<rparr>)"

definition next_index :: "u64 \<Rightarrow> u64" where
  "next_index i = (if i = 0xFFFFFFFFFFFFFFFF then 1 else i) + 1"

text \<open>
  The loop of \<open>send_to_channels\<close>: \<open>None\<close> in the first component means that a connection took
  the message and the function has returned, \<open>Some msg\<close> that the loop ended with the message
  in hand.  The remainder by the number of connections panics when there are none.
\<close>

fun send_loop ::
    "'q mpsc \<Rightarrow> bool \<Rightarrow> nat \<Rightarrow> json \<Rightarrow> 'q run_context \<Rightarrow> (json option \<times> 'q run_context) option" where
  "send_loop m priority 0 send_msg c = Some (Some send_msg, c)"
| "send_loop m priority (Suc n) send_msg c =
     (let c = c\<lparr>index := next_index (index c)\<rparr> in
      if send_channels c = [] then Panic
      else
        let i = unat (index c) mod length (send_channels c);
            select = send_channels c ! i
        in if can_write select then
             let c = note_buff_full m select c;
                 (ok, q) = mpsc_send m send_msg (sender priority select);
                 c = c\<lparr>send_channels := (send_channels c)[i := set_sender priority q select]\<rparr>
             in if ok then Some (None, c)
                else send_loop m priority n send_msg (drop_channel (cs_id select) c)
           else send_loop m priority n send_msg c)"

definition stamp_msg :: "'q run_context \<Rightarrow> json \<Rightarrow> json" where
  "stamp_msg c msg =
     (let send_msg = setk msg ENTITY_ID (num (entity_id c));
          send_msg = setk send_msg SP_ID (JStr (sp_id c));
          send_msg = setk send_msg NODE_ID (num (node_id c))
      in if service_id c \<noteq> [] then setk send_msg SERVICE_ID (JStr (service_id c)) else send_msg)"

definition is_priority :: "json \<Rightarrow> bool" where
  "is_priority send_msg = (case as_bool (idx send_msg IS_PRIORITY) of Some b \<Rightarrow> b | None \<Rightarrow> False)"

definition send_to_channels :: "'q mpsc \<Rightarrow> json \<Rightarrow> 'q run_context \<Rightarrow> 'q run_context option" where
  "send_to_channels m msg c =
     (let send_msg = stamp_msg c msg;
          size = length (send_channels c);
          priority = is_priority send_msg
      in do {
        (left, c) \<leftarrow> send_loop m priority size send_msg c;
        case left of
          None \<Rightarrow> Some c
        | Some send_msg \<Rightarrow> Some (send_entity_state (emit TOPIC_TO_B_FAILURE [] send_msg c))
      })"

subsection \<open>Waiting for receipts\<close>

definition get_key :: "json \<Rightarrow> u64" where
  "get_key msg = (case as_u64 (idx msg SEQ_ID) of Some v \<Rightarrow> v | None \<Rightarrow> 0)"

text \<open>One turn of the loop; \<open>None\<close> is the early return where \<open>MSG_IDS\<close> is too short.\<close>

fun insert_parts :: "json \<Rightarrow> nat list \<Rightarrow> (u64 \<times> json) list \<Rightarrow> (u64 \<times> json) list" where
  "insert_parts json [] wait = wait"
| "insert_parts json (i # is) wait =
     (case as_u64 (idx_n (idx json SEQ_IDS) i) of
        None \<Rightarrow> insert_parts json is wait
      | Some seq_id \<Rightarrow>
          (let new_one = setk json NEED_RE_SEND (JBool (i = 0)) in
           case as_str (idx_n (idx json MSG_IDS) i) of
             None \<Rightarrow> wait
           | Some msg_id \<Rightarrow>
               insert_parts json is
                 (AList.update seq_id (setk new_one ACCOUNT_MSG_ID (JStr msg_id)) wait)))"

definition insert_into_wait_receipt :: "json \<Rightarrow> (u64 \<times> json) list \<Rightarrow> (u64 \<times> json) list" where
  "insert_into_wait_receipt json wait =
     (if is_array (idx json SEQ_IDS) \<and> \<not> is_empty (idx json SEQ_IDS)
         \<and> is_array (idx json MSG_IDS) \<and> \<not> is_empty (idx json MSG_IDS)
      then insert_parts json [0..<length (members (idx json SEQ_IDS))] wait
      else wait)"

definition clear_send_sms_cache :: "int \<Rightarrow> int \<Rightarrow> (u64 \<times> json) list \<Rightarrow> (u64 \<times> json) list" where
  "clear_send_sms_cache now duration cache =
     retain (\<lambda>(_, value). i64_add (case as_i64 (idx value RECEIVE_TIME) of Some t \<Rightarrow> t | None \<Rightarrow> now) duration > now)
       cache"

text \<open>Macro \<open>re_send!\<close>: what is due is taken out of the map, then sent from the last to the first.\<close>

definition re_send_due :: "int \<Rightarrow> json \<Rightarrow> bool" where
  "re_send_due now v =
     (let receive_time = (case as_i64 (idx v RECEIVE_TIME) of Some t \<Rightarrow> t | None \<Rightarrow> 0);
          duration = (case as_i64 (idx v DURATION) of Some d \<Rightarrow> d | None \<Rightarrow> 30)
      in i64_add receive_time duration < now
         \<and> (case as_bool (idx v NEED_RE_SEND) of Some b \<Rightarrow> b | None \<Rightarrow> True))"

fun send_all :: "'q mpsc \<Rightarrow> json list \<Rightarrow> 'q run_context \<Rightarrow> 'q run_context option" where
  "send_all m [] c = Some c"
| "send_all m (msg # msgs) c = do { c \<leftarrow> send_to_channels m msg c; send_all m msgs c }"

definition re_send :: "'q mpsc \<Rightarrow> int \<Rightarrow> 'q run_context \<Rightarrow> 'q run_context option" where
  "re_send m now c =
     (let re_sends = map snd (filter (\<lambda>(_, v). re_send_due now v) (wait_receipt_map c));
          c = c\<lparr>wait_receipt_map := retain (\<lambda>(_, v). \<not> re_send_due now v) (wait_receipt_map c)\<rparr>
      in send_all m (rev re_sends) c)"

subsection \<open>Long messages\<close>

definition long_sms_key :: "json \<Rightarrow> string" where
  "long_sms_key msg =
     str_or_empty (idx msg SRC_ID) @
     (case as_str (idx msg DEST_ID) of
        Some d \<Rightarrow> d
      | None \<Rightarrow> str_or_empty (idx_n (idx msg DEST_IDS) 0))"

text \<open>
  The parts seen so far, with the new one in its place.  The number of a part counts from one;
  \<open>index - 1\<close> wraps for the number zero, and an index past the end panics.
\<close>

definition put_part :: "json option list option \<Rightarrow> u8 \<Rightarrow> u8 \<Rightarrow> json \<Rightarrow> json option list option" where
  "put_part cached parts number msg =
     (let i = unat (number - 1);
          vec = (case cached of
                   None \<Rightarrow> replicate (unat parts) None
                 | Some vec \<Rightarrow> if length vec \<noteq> unat parts then replicate (unat parts) None else vec)
      in if i < length vec then Some (vec[i := Some msg]) else Panic)"

definition join_parts :: "json list \<Rightarrow> json" where
  "join_parts items =
     (let msg_ids = map (\<lambda>item. str_or_empty (idx item MSG_ID)) items;
          msg_content = concat (map (\<lambda>item. str_or_empty (idx item MSG_CONTENT)) items);
          json = setk (hd items) MSG_CONTENT (JStr msg_content);
          json = setk json MSG_IDS (strs msg_ids)
      in removek (removek (removek json MSG_ID) LONG_SMS_TOTAL) LONG_SMS_NOW_NUMBER)"

definition handle_long_sms ::
    "json \<Rightarrow> u8 \<Rightarrow> 'q run_context \<Rightarrow> (json option \<times> 'q run_context) option" where
  "handle_long_sms msg parts c =
     (let key = long_sms_key msg in
      case as_u8 (idx msg LONG_SMS_NOW_NUMBER) of
        None \<Rightarrow> Some (None, c)
      | Some number \<Rightarrow>
          if number > parts \<or> parts < 2 then Some (None, c)
          else do {
            let cached = map_of (long_sms_cache c) key;
            vec \<leftarrow> put_part cached parts number msg;
            if cached = None \<or> None \<in> set vec
            then Some (None, c\<lparr>long_sms_cache := AList.update key vec (long_sms_cache c)\<rparr>)
            else Some (Some (join_parts (map the vec)),
              c\<lparr>long_sms_cache := AList.delete key (long_sms_cache c)\<rparr>)
          })"

definition clear_long_sms_cache ::
    "int \<Rightarrow> int \<Rightarrow> (string \<times> json option list) list \<Rightarrow> (string \<times> json option list) list" where
  "clear_long_sms_cache now duration cache =
     retain (\<lambda>(_, value). \<not> list_ex (\<lambda>item. case item of
         None \<Rightarrow> False
       | Some json \<Rightarrow>
           i64_add (case as_i64 (idx json RECEIVE_TIME) of Some t \<Rightarrow> t | None \<Rightarrow> 0) duration < now) value)
       cache"

subsection \<open>Messages from the connections\<close>

fun recheck_buff :: "'q mpsc \<Rightarrow> 'q channel_states list \<Rightarrow> 'q run_context \<Rightarrow> 'q run_context" where
  "recheck_buff m [] c = c"
| "recheck_buff m (select # rest) c =
     (let c = c\<lparr>is_buff_full := write_limit c < buff_num m select\<rparr>
      in if \<not> is_buff_full c then send_entity_state c else recheck_buff m rest c)"

definition on_submit_resp :: "'q mpsc \<Rightarrow> json \<Rightarrow> 'q run_context \<Rightarrow> 'q run_context option" where
  "on_submit_resp m msg c =
     (case map_of (wait_receipt_map c) (get_key msg) of
        Some source \<Rightarrow>
          (let c = c\<lparr>wait_receipt_map := AList.delete (get_key msg) (wait_receipt_map c)\<rparr> in
           if as_bool (idx msg SPEED_LIMIT) = Some True then send_to_channels m source c
           else
             let c = (if is_buff_full c then recheck_buff m (send_channels c) c else c);
                 msg = setk msg ACCOUNT_MSG_ID (idx source ACCOUNT_MSG_ID);
                 msg = setk (removek msg MSG_ID) PASSAGE_MSG_ID (idx msg MSG_ID)
             in Some (send_to_queue TOPIC_TO_B_SUBMIT_RESP [] msg c))
      | None \<Rightarrow> Some (send_to_queue TOPIC_TO_B_SUBMIT_RESP [] msg c))"

definition on_sent_deliver :: "json \<Rightarrow> 'q run_context \<Rightarrow> 'q run_context" where
  "on_sent_deliver msg c =
     (if is_array (idx msg SEQ_IDS) \<and> \<not> is_empty (idx msg SEQ_IDS)
      then case as_u64 (idx_n (idx msg SEQ_IDS) 0) of
             Some seq_id \<Rightarrow> c\<lparr>wait_receipt_map := AList.update seq_id msg (wait_receipt_map c)\<rparr>
           | None \<Rightarrow> c
      else c)"

definition on_report_resp :: "json \<Rightarrow> 'q run_context \<Rightarrow> 'q run_context" where
  "on_report_resp msg c =
     send_to_queue TOPIC_TO_B_REPORT_RESP [] msg
       (c\<lparr>wait_receipt_map := AList.delete (get_key msg) (wait_receipt_map c)\<rparr>)"

definition on_deliver_resp :: "json \<Rightarrow> 'q run_context \<Rightarrow> 'q run_context" where
  "on_deliver_resp msg c =
     (case map_of (wait_receipt_map c) (get_key msg) of
        Some item \<Rightarrow>
          send_to_queue TOPIC_TO_B_DELIVER_RESP [] (setk msg ACCOUNT_MSG_ID (idx item MSG_ID))
            (c\<lparr>wait_receipt_map := AList.delete (get_key msg) (wait_receipt_map c)\<rparr>)
      | None \<Rightarrow> send_to_queue TOPIC_TO_B_DELIVER_RESP [] msg c)"

definition on_report :: "json \<Rightarrow> 'q run_context \<Rightarrow> 'q run_context" where
  "on_report msg c =
     (let msg = (if \<not> is_empty (idx msg PASSAGE_MSG_ID)
                 then setk (removek msg PASSAGE_MSG_ID) MSG_ID (idx msg PASSAGE_MSG_ID) else msg)
      in send_to_queue TOPIC_TO_B_REPORT [] msg c)"

definition on_deliver :: "json \<Rightarrow> 'q run_context \<Rightarrow> 'q run_context option" where
  "on_deliver msg c =
     (case as_u8 (idx msg LONG_SMS_TOTAL) of
        Some parts \<Rightarrow> do {
          (joined, c) \<leftarrow> handle_long_sms msg parts c;
          Some (case joined of Some json \<Rightarrow> send_to_queue TOPIC_TO_B_DELIVER [] json c | None \<Rightarrow> c)
        }
      | None \<Rightarrow> Some (send_to_queue TOPIC_TO_B_DELIVER [] msg c))"

definition on_submit :: "'q mpsc \<Rightarrow> json \<Rightarrow> 'q run_context \<Rightarrow> 'q run_context option" where
  "on_submit m msg c =
     (if as_bool (idx msg SPEED_LIMIT) = Some True then send_to_channels m (removek msg SPEED_LIMIT) c
      else case as_u8 (idx msg LONG_SMS_TOTAL) of
        Some parts \<Rightarrow> do {
          (joined, c) \<leftarrow> handle_long_sms msg parts c;
          Some (case joined of Some json \<Rightarrow> send_to_queue TOPIC_TO_B_SUBMIT [] json c | None \<Rightarrow> c)
        }
      | None \<Rightarrow>
          (let msg = removek (setk msg MSG_IDS (strs [str_or_empty (idx msg MSG_ID)])) MSG_ID
           in Some (send_to_queue TOPIC_TO_B_SUBMIT [] msg c)))"

definition on_terminate :: "json \<Rightarrow> 'q run_context \<Rightarrow> 'q run_context" where
  "on_terminate msg c =
     (case as_u64 (idx msg ID) of
        None \<Rightarrow> c
      | Some channel_id \<Rightarrow>
          (let c = drop_channel channel_id c in
           if send_channels c = []
           then send_entity_state
             (c\<lparr>state_change_json := setk (state_change_json c) STATE (num DISCONNECT)\<rparr>)
           else c))"

definition on_connect ::
    "json \<Rightarrow> 'q temp_save \<Rightarrow> 'q run_context \<Rightarrow> 'q temp_save \<times> 'q run_context" where
  "on_connect msg save c =
     (case as_u32 (idx msg CHANNEL_ID) of
        None \<Rightarrow> (save, c)
      | Some ind \<Rightarrow>
          (case map_of save ind of
             None \<Rightarrow> (save, c)
           | Some (priority_tx, common_tx) \<Rightarrow>
               (let channel = \<lparr>cs_id = ucast ind, is_active = True,
                      can_write = (case as_bool (idx msg CAN_WRITE) of Some b \<Rightarrow> b | None \<Rightarrow> True),
                      entity_to_channel_priority_tx = priority_tx,
                      entity_to_channel_common_tx = common_tx\<rparr>;
                    channels = send_channels c @ [channel];
                    c = c\<lparr>send_channels := channels, now_conn_num := of_nat (length channels)\<rparr>
                in (AList.delete ind save, if now_conn_num c = 1 then send_entity_state c else c))))"

text \<open>The \<open>match\<close> on the type of the message and on whether it is one a connection has sent.\<close>

definition on_channel_msg ::
    "'q mpsc \<Rightarrow> json \<Rightarrow> MsgType \<Rightarrow> 'q temp_save \<Rightarrow> 'q run_context \<Rightarrow>
       (bool \<times> 'q temp_save \<times> 'q run_context) option" where
  "on_channel_msg m msg ty save c =
     (let keep = map_option (\<lambda>c. (True, save, c));
          sent = as_bool (idx msg WAIT_RECEIPT) = Some True
      in case ty of
           SubmitResp \<Rightarrow> keep (on_submit_resp m msg c)
         | Submit \<Rightarrow>
             if sent
             then Some (True, save,
               c\<lparr>wait_receipt_map := insert_into_wait_receipt msg (wait_receipt_map c)\<rparr>)
             else keep (on_submit m msg c)
         | Deliver \<Rightarrow>
             if sent then Some (True, save, on_sent_deliver msg c) else keep (on_deliver msg c)
         | Report \<Rightarrow>
             Some (True, save, if sent then on_sent_deliver msg c else on_report msg c)
         | ReportResp \<Rightarrow> Some (True, save, on_report_resp msg c)
         | DeliverResp \<Rightarrow> Some (True, save, on_deliver_resp msg c)
         | Terminate \<Rightarrow> Some (True, save, on_terminate msg c)
         | Connect \<Rightarrow> Some (True, on_connect msg save c)
         | _ \<Rightarrow> Some (True, save, c))"

definition received :: "u32 \<Rightarrow> int \<Rightarrow> json \<Rightarrow> json" where
  "received eid now msg = setk (setk msg RECEIVE_TIME (JNum now)) ENTITY_ID (num eid)"

text \<open>
  \<open>handle_from_channel_rx\<close>.  The result says whether the task goes on; \<open>now\<close> is the reading
  of the clock.
\<close>

definition handle_from_channel_rx ::
    "'q mpsc \<Rightarrow> int \<Rightarrow> json option \<Rightarrow> 'q temp_save \<Rightarrow> 'q run_context \<Rightarrow>
       (bool \<times> 'q temp_save \<times> 'q run_context) option" where
  "handle_from_channel_rx m now msg save c =
     (case msg of
        None \<Rightarrow> Some (False, save, c)
      | Some msg \<Rightarrow>
          (let msg = received (entity_id c) now msg
           in case as_str (idx msg MSG_TYPE_STR) of
                None \<Rightarrow> Some (True, save, c)
              | Some v \<Rightarrow> on_channel_msg m msg (msg_type_from_str v) save c))"

subsection \<open>Messages from the manager\<close>

definition terminate_msg :: json where
  "terminate_msg = JObj [(''msg_type'', JStr ''Terminate'')]"

definition close_channels :: "'q mpsc \<Rightarrow> 'q channel_states list \<Rightarrow> 'q channel_states list" where
  "close_channels m =
     map (\<lambda>channel. channel\<lparr>entity_to_channel_priority_tx :=
       snd (mpsc_send m terminate_msg (entity_to_channel_priority_tx channel))\<rparr>)"

definition handle_from_manager_rx ::
    "'q mpsc \<Rightarrow> json option \<Rightarrow> 'q run_context \<Rightarrow> (bool \<times> 'q run_context) option" where
  "handle_from_manager_rx m msg c =
     (case msg of
        None \<Rightarrow> Some (False, c)
      | Some msg \<Rightarrow>
          (case as_str (idx msg MANAGER_TYPE) of
             None \<Rightarrow> Some (True, c)
           | Some t \<Rightarrow>
               if t = ''send'' then map_option (Pair True) (send_to_channels m msg c)
               else if t = ''passage.request.state'' then Some (True, send_entity_state c)
               else if t = ''close''
               then Some (False,
                 send_entity_state (c\<lparr>send_channels := close_channels m (send_channels c)\<rparr>))
               else Some (True, c)))"

subsection \<open>The loop of the task\<close>

record timers =
  clear_msg_timestamp :: int
  clear_timestamp :: int
  re_send_timestamp :: int

datatype wake = FromManager "json option" | FromChannel "json option" | Sleep

text \<open>
  One turn of the loop.  \<open>now k\<close> is the reading of the clock at the \<open>k\<close>-th place of the turn
  that reads it; \<open>wake\<close> is the branch of \<open>select!\<close> that completes.
\<close>

definition clear_msg_turn :: "(nat \<Rightarrow> int) \<Rightarrow> timers \<times> 'q run_context \<Rightarrow> timers \<times> 'q run_context" where
  "clear_msg_turn now = (\<lambda>(t, c).
     if i64_add (clear_msg_timestamp t) (86400 * 4) < now 0
     then (t\<lparr>clear_msg_timestamp := now 2\<rparr>,
       c\<lparr>wait_receipt_map := clear_send_sms_cache (now 1) (86400 * 4) (wait_receipt_map c)\<rparr>)
     else (t, c))"

definition clear_turn :: "(nat \<Rightarrow> int) \<Rightarrow> timers \<times> 'q run_context \<Rightarrow> timers \<times> 'q run_context" where
  "clear_turn now = (\<lambda>(t, c).
     if i64_add (clear_timestamp t) 86400 < now 3
     then (t\<lparr>clear_timestamp := now 5\<rparr>,
       c\<lparr>long_sms_cache := clear_long_sms_cache (now 4) 86400 (long_sms_cache c)\<rparr>)
     else (t, c))"

definition re_send_turn ::
    "'q mpsc \<Rightarrow> (nat \<Rightarrow> int) \<Rightarrow> timers \<times> 'q run_context \<Rightarrow> (timers \<times> 'q run_context) option" where
  "re_send_turn m now = (\<lambda>(t, c).
     if i64_add (re_send_timestamp t) 10 < now 6
     then map_option (Pair (t\<lparr>re_send_timestamp := now 8\<rparr>)) (re_send m (now 7) c)
     else Some (t, c))"

definition entity_turn ::
    "'q mpsc \<Rightarrow> (nat \<Rightarrow> int) \<Rightarrow> wake \<Rightarrow> timers \<times> 'q temp_save \<times> 'q run_context \<Rightarrow>
       (bool \<times> timers \<times> 'q temp_save \<times> 'q run_context) option" where
  "entity_turn m now wake = (\<lambda>(t, save, c). do {
     (t, c) \<leftarrow> re_send_turn m now (clear_turn now (clear_msg_turn now (t, c)));
     case wake of
       FromManager msg \<Rightarrow>
         map_option (\<lambda>(go, c). (go, t, save, c)) (handle_from_manager_rx m msg c)
     | FromChannel msg \<Rightarrow>
         map_option (\<lambda>(go, save, c). (go, t, save, c)) (handle_from_channel_rx m (now 9) msg save c)
     | Sleep \<Rightarrow> Some (True, t, save, c)
   })"

end
