(* ===== verification/Sending.thy ===== *)
theory Sending
  imports Running
begin

text \<open>
  What \<open>send_to_channels\<close> does with a message: it is taken by exactly one connection or
  published as a failure, never both and never neither, whatever connections have died; and
  live connections are used in turn.
\<close>

subsection \<open>Frame\<close>

text \<open>What sending leaves alone.\<close>

definition settings where
  "settings c = (entity_id c, entity_type c, service_id c, sp_id c, node_id c, send_buff_cap c,
     write_limit c)"

definition stores where
  "stores c = (wait_receipt_map c, long_sms_cache c)"

lemma emit_simps [simp]:
  "settings (emit t k j c) = settings c" "stores (emit t k j c) = stores c"
  "send_channels (emit t k j c) = send_channels c" "now_conn_num (emit t k j c) = now_conn_num c"
  "to_queue (emit t k j c) = to_queue c @ [(t, k, j)]" "index (emit t k j c) = index c"
  "is_buff_full (emit t k j c) = is_buff_full c" "wait_receipt_map (emit t k j c) = wait_receipt_map c"
  "long_sms_cache (emit t k j c) = long_sms_cache c" "entity_id (emit t k j c) = entity_id c"
  by (simp_all add: emit_def settings_def stores_def)

lemma send_to_queue_simps [simp]:
  "settings (send_to_queue t k j c) = settings c" "stores (send_to_queue t k j c) = stores c"
  "send_channels (send_to_queue t k j c) = send_channels c"
  "now_conn_num (send_to_queue t k j c) = now_conn_num c"
  "to_queue (send_to_queue t k j c) = to_queue c @ [(t, k, strip_internal j)]"
  "is_buff_full (send_to_queue t k j c) = is_buff_full c"
  "wait_receipt_map (send_to_queue t k j c) = wait_receipt_map c"
  "long_sms_cache (send_to_queue t k j c) = long_sms_cache c"
  by (simp_all add: send_to_queue_def)

definition state_topic :: "EntityType \<Rightarrow> string" where
  "state_topic t = (case t of Custom \<Rightarrow> TOPIC_TO_B_ACCOUNT_STATE_CHANGE | Server \<Rightarrow> TOPIC_TO_B_PASSAGE_STATE_CHANGE)"

lemma send_entity_state_simps [simp]:
  "settings (send_entity_state c) = settings c" "stores (send_entity_state c) = stores c"
  "send_channels (send_entity_state c) = send_channels c"
  "now_conn_num (send_entity_state c) = now_conn_num c" "index (send_entity_state c) = index c"
  "is_buff_full (send_entity_state c) = is_buff_full c"
  "wait_receipt_map (send_entity_state c) = wait_receipt_map c"
  "long_sms_cache (send_entity_state c) = long_sms_cache c"
  "entity_type (send_entity_state c) = entity_type c"
  by (simp_all add: send_entity_state_def Let_def settings_def stores_def emit_def split: EntityType.split)

lemma send_entity_state_queue [simp]:
  "to_queue (send_entity_state c) = to_queue c @
     [(state_topic (entity_type c), [],
       setk (state_change_json c) STATE (num (state_code (is_buff_full c) (now_conn_num c))))]"
  by (simp add: send_entity_state_def Let_def state_topic_def emit_def split: EntityType.split)

lemma note_buff_full_simps [simp]:
  "settings (note_buff_full m s c) = settings c" "stores (note_buff_full m s c) = stores c"
  "send_channels (note_buff_full m s c) = send_channels c"
  "now_conn_num (note_buff_full m s c) = now_conn_num c" "index (note_buff_full m s c) = index c"
  by (simp_all add: note_buff_full_def) (simp_all add: settings_def stores_def)

definition failures :: "event list \<Rightarrow> event list" where
  "failures es = filter (\<lambda>(t, _, _). t = TOPIC_TO_B_FAILURE) es"

lemma failures_simps [simp]:
  "failures [] = []" "failures (xs @ ys) = failures xs @ failures ys"
  "failures ((state_topic t, k, j) # es) = failures es"
  "failures ((TOPIC_TO_B_FAILURE, k, j) # es) = (TOPIC_TO_B_FAILURE, k, j) # failures es"
  by (simp_all add: failures_def state_topic_def split: EntityType.split)

lemma note_buff_full_queue:
  "\<exists>es. to_queue (note_buff_full m s c) = to_queue c @ es \<and> failures es = []"
  by (simp add: note_buff_full_def)

lemma drop_channel_simps [simp]:
  "settings (drop_channel k c) = settings c" "stores (drop_channel k c) = stores c"
  "to_queue (drop_channel k c) = to_queue c" "index (drop_channel k c) = index c"
  "send_channels (drop_channel k c) = filter (\<lambda>s. cs_id s \<noteq> k) (send_channels c)"
  "now_conn_num (drop_channel k c) = of_nat (length (filter (\<lambda>s. cs_id s \<noteq> k) (send_channels c)))"
  by (simp_all add: drop_channel_def Let_def settings_def stores_def)

lemma cs_id_set_sender [simp]: "cs_id (set_sender p q s) = cs_id s" "can_write (set_sender p q s) = can_write s"
  by (simp_all add: set_sender_def)

lemma sender_set_sender [simp]: "sender p (set_sender p q s) = q"
  by (simp add: sender_def set_sender_def)

subsection \<open>One connection or a failure\<close>

text \<open>The connections \<open>chans'\<close> are \<open>chans\<close>, with the message added to the queue of one of them.\<close>

definition handed where
  "handed m priority v chans chans' \<longleftrightarrow>
     (\<exists>xs s ys q. chans = xs @ s # ys \<and> can_write s \<and> chans' = xs @ set_sender priority q s # ys \<and>
        mpsc_contents m q = mpsc_contents m (sender priority s) @ [v])"

text \<open>The connections \<open>kept\<close> are those of \<open>chans\<close> that did not refuse the message.\<close>

definition only_dead_dropped where
  "only_dead_dropped m priority v chans kept \<longleftrightarrow>
     (\<exists>P. kept = filter P chans \<and>
        (\<forall>s \<in> set chans. \<not> P s \<longrightarrow> can_write s \<and> \<not> fst (mpsc_send m v (sender priority s))))"

definition loop_result where
  "loop_result m priority v c left c' \<longleftrightarrow>
     settings c' = settings c \<and> stores c' = stores c \<and>
     (\<exists>es. to_queue c' = to_queue c @ es \<and> failures es = []) \<and>
     (\<exists>kept. only_dead_dropped m priority v (send_channels c) kept \<and>
        (left = None \<and> handed m priority v kept (send_channels c') \<or>
         left = Some v \<and> send_channels c' = kept))"

lemma loop_resultI:
  assumes "settings c' = settings c" and "stores c' = stores c"
    and "to_queue c' = to_queue c @ es" and "failures es = []"
    and "only_dead_dropped m priority v (send_channels c) kept"
    and "left = None \<and> handed m priority v kept (send_channels c') \<or>
         left = Some v \<and> send_channels c' = kept"
  shows "loop_result m priority v c left c'"
  using assms unfolding loop_result_def by blast

lemma loop_resultE:
  assumes "loop_result m priority v c left c'"
  obtains es kept where "settings c' = settings c" and "stores c' = stores c"
    and "to_queue c' = to_queue c @ es" and "failures es = []"
    and "only_dead_dropped m priority v (send_channels c) kept"
    and "left = None \<and> handed m priority v kept (send_channels c') \<or>
         left = Some v \<and> send_channels c' = kept"
  using assms unfolding loop_result_def by blast

lemma only_dead_dropped_refl: "only_dead_dropped m priority v chans chans"
  unfolding only_dead_dropped_def by (rule exI [of _ "\<lambda>_. True"]) simp

lemma only_dead_dropped_step:
  assumes "distinct (map cs_id chans)" and "i < length chans"
    and "can_write (chans ! i)" and "\<not> fst (mpsc_send m v (sender priority (chans ! i)))"
    and "only_dead_dropped m priority v (filter (\<lambda>s. cs_id s \<noteq> cs_id (chans ! i)) chans) kept"
  shows "only_dead_dropped m priority v chans kept"
proof -
  let ?k = "cs_id (chans ! i)"
  obtain P where kept: "kept = filter P (filter (\<lambda>s. cs_id s \<noteq> ?k) chans)"
    and P: "\<And>s. s \<in> set chans \<Longrightarrow> cs_id s \<noteq> ?k \<Longrightarrow> \<not> P s \<Longrightarrow>
      can_write s \<and> \<not> fst (mpsc_send m v (sender priority s))"
    using assms(5) by (auto simp: only_dead_dropped_def)
  have same: "s = chans ! i" if "s \<in> set chans" "cs_id s = ?k" for s
    using assms(1,2) that by (metis (no_types) distinct_map inj_onD nth_mem)
  have "kept = filter (\<lambda>s. cs_id s \<noteq> ?k \<and> P s) chans"
    by (simp add: kept conj_commute)
  moreover have "can_write s \<and> \<not> fst (mpsc_send m v (sender priority s))"
    if "s \<in> set chans" "\<not> (cs_id s \<noteq> ?k \<and> P s)" for s
  proof (cases "cs_id s = ?k")
    case True
    with same that(1) have "s = chans ! i" by blast
    then show ?thesis using assms(3,4) by simp
  next
    case False
    with P that show ?thesis by blast
  qed
  ultimately show ?thesis unfolding only_dead_dropped_def by blast
qed

text \<open>Putting a queue back at a connection that is dropped next changes nothing.\<close>

lemma filter_id_split:
  assumes "distinct (map cs_id (xs @ s # ys))" and "cs_id s' = cs_id s"
  shows "filter (\<lambda>t. cs_id t \<noteq> cs_id s) (xs @ s' # ys) = xs @ ys"
proof -
  have "filter (\<lambda>t. cs_id t \<noteq> cs_id s) xs = xs"
    by (rule filter_True) (use assms(1) in \<open>auto simp: image_iff\<close>)
  moreover have "filter (\<lambda>t. cs_id t \<noteq> cs_id s) ys = ys"
    by (rule filter_True) (use assms(1) in \<open>auto simp: image_iff\<close>)
  ultimately show ?thesis using assms(2) by simp
qed

lemma filter_id:
  assumes "distinct (map cs_id chans)" and "i < length chans"
  shows "cs_id s' = cs_id (chans ! i) \<Longrightarrow>
      filter (\<lambda>s. cs_id s \<noteq> cs_id (chans ! i)) (chans[i := s']) =
      filter (\<lambda>s. cs_id s \<noteq> cs_id (chans ! i)) chans"
    and "Suc (length (filter (\<lambda>s. cs_id s \<noteq> cs_id (chans ! i)) chans)) = length chans"
proof -
  obtain xs s ys where c: "chans = xs @ s # ys" and i: "length xs = i"
    using id_take_nth_drop [OF assms(2)] assms(2) by (metis length_take less_imp_le_nat min.absorb2)
  have d: "distinct (map cs_id (xs @ s # ys))" using assms(1) c by simp
  have n: "chans ! i = s" "chans[i := s'] = xs @ s' # ys" for s' using c i by (auto simp: list_update_append)
  show "filter (\<lambda>s. cs_id s \<noteq> cs_id (chans ! i)) (chans[i := s']) =
      filter (\<lambda>s. cs_id s \<noteq> cs_id (chans ! i)) chans" if "cs_id s' = cs_id (chans ! i)"
    using filter_id_split [OF d, of s'] filter_id_split [OF d refl] that n c by simp
  show "Suc (length (filter (\<lambda>s. cs_id s \<noteq> cs_id (chans ! i)) chans)) = length chans"
    using filter_id_split [OF d refl] n(1) c by simp
qed

lemma handed_nth:
  assumes "i < length chans" and "can_write (chans ! i)"
    and "mpsc_contents m q = mpsc_contents m (sender priority (chans ! i)) @ [v]"
  shows "handed m priority v chans (chans[i := set_sender priority q (chans ! i)])"
  unfolding handed_def
  by (rule exI [of _ "take i chans"], rule exI [of _ "chans ! i"], rule exI [of _ "drop (Suc i) chans"],
      rule exI [of _ q]) (use assms in \<open>simp add: id_take_nth_drop [symmetric] upd_conv_take_nth_drop\<close>)

lemma send_loop_result:
  assumes "mpsc_ok m"
  shows "distinct (map cs_id (send_channels c)) \<Longrightarrow> n \<le> length (send_channels c) \<Longrightarrow>
    \<exists>left c'. send_loop m priority n v c = Some (left, c') \<and> loop_result m priority v c left c'"
proof (induction n arbitrary: c)
  case 0
  then show ?case by (auto simp: loop_result_def intro!: only_dead_dropped_refl)
next
  case (Suc n)
  let ?c = "c\<lparr>index := next_index (index c)\<rparr>"
  let ?chans = "send_channels c"
  define i where "i = unat (next_index (index c)) mod length ?chans"
  let ?s = "?chans ! i"
  let ?c1 = "note_buff_full m ?s ?c"
  have i: "i < length ?chans" unfolding i_def by (rule mod_less_divisor) (use Suc.prems(2) in linarith)
  have frame: "settings ?c = settings c" "stores ?c = stores c" "to_queue ?c = to_queue c"
    by (simp_all add: settings_def stores_def)
  show ?case
  proof (cases "can_write ?s")
    case False
    obtain left c' where r: "send_loop m priority n v ?c = Some (left, c')" "loop_result m priority v ?c left c'"
      using Suc.IH [of ?c] Suc.prems by auto
    then have "loop_result m priority v c left c'" by (simp add: loop_result_def frame)
    moreover have "send_loop m priority (Suc n) v c = Some (left, c')"
      using False i r(1) by (auto simp: Let_def i_def)
    ultimately show ?thesis by blast
  next
    case True
    obtain ok q where q: "mpsc_send m v (sender priority ?s) = (ok, q)" by fastforce
    let ?c2 = "?c1\<lparr>send_channels := ?chans[i := set_sender priority q ?s]\<rparr>"
    obtain es where es: "to_queue ?c1 = to_queue c @ es" "failures es = []"
      using note_buff_full_queue [of m ?s ?c] by auto
    have frame2: "settings ?c2 = settings c" "stores ?c2 = stores c"
      using note_buff_full_simps(1,2) [of m ?s ?c] frame by (simp_all add: settings_def stores_def)
    have step: "send_loop m priority (Suc n) v c =
        (if ok then Some (None, ?c2) else send_loop m priority n v (drop_channel (cs_id ?s) ?c2))"
      using True i q by (auto simp: Let_def i_def)
    show ?thesis
    proof (cases ok)
      case ok: True
      have "handed m priority v ?chans (send_channels ?c2)"
        using handed_nth [OF i True mpsc_sent [OF assms]] q ok by simp
      then have "loop_result m priority v c None ?c2"
        using frame2 es only_dead_dropped_refl by (intro loop_resultI) auto
      then show ?thesis using step ok by auto
    next
      case refused: False
      let ?c3 = "drop_channel (cs_id ?s) ?c2"
      note fid = filter_id [OF Suc.prems(1) i]
      have chans3: "send_channels ?c3 = filter (\<lambda>s. cs_id s \<noteq> cs_id ?s) ?chans"
        using fid(1) by simp
      have "distinct (map cs_id (send_channels ?c3))"
        unfolding chans3 by (rule distinct_map_filter [OF Suc.prems(1)])
      moreover have "n \<le> length (send_channels ?c3)"
        unfolding chans3 using fid(2) Suc.prems(2) by linarith
      ultimately obtain left c' where r: "send_loop m priority n v ?c3 = Some (left, c')"
        and res: "loop_result m priority v ?c3 left c'"
        using Suc.IH by blast
      have "loop_result m priority v c left c'"
      proof (rule loop_resultE [OF res])
        fix es' kept
        assume "settings c' = settings ?c3" "stores c' = stores ?c3" "to_queue c' = to_queue ?c3 @ es'"
          "failures es' = []" "only_dead_dropped m priority v (send_channels ?c3) kept"
          "left = None \<and> handed m priority v kept (send_channels c') \<or>
           left = Some v \<and> send_channels c' = kept"
        then show ?thesis
          using frame2 es only_dead_dropped_step [OF Suc.prems(1) i True, of m v priority] q refused
          unfolding chans3 by (intro loop_resultI [of c' c "es @ es'"]) auto
      qed
      then show ?thesis using r step refused by auto
    qed
  qed
qed

lemma idx_stamp_msg [simp]:
  "k \<notin> {ENTITY_ID, SP_ID, NODE_ID, SERVICE_ID} \<Longrightarrow> idx (stamp_msg c msg) k = idx msg k"
  by (auto simp: stamp_msg_def Let_def)

lemma is_priority_stamp [simp]: "is_priority (stamp_msg c msg) = is_priority msg"
  by (simp add: is_priority_def)

text \<open>Example data: a queue is open or closed and holds a list.\<close>

definition demo_mpsc :: "(bool \<times> json list) mpsc" where
  "demo_mpsc = \<lparr>mpsc_send = (\<lambda>v (alive, xs). (alive, (alive, if alive then xs @ [v] else xs))),
     mpsc_capacity = (\<lambda>(_, xs). CHANNEL_BUFF_NUM - of_nat (length xs)),
     mpsc_recv = (\<lambda>(alive, xs). case xs of
         [] \<Rightarrow> (if alive then None else Some None, (alive, []))
       | v # vs \<Rightarrow> (Some (Some v), (alive, vs))),
     mpsc_close = (\<lambda>(_, xs). (False, xs)), mpsc_is_closed = (\<lambda>(alive, _). \<not> alive),
     mpsc_contents = snd\<rparr>"

lemma demo_mpsc_simps [simp]:
  "mpsc_send demo_mpsc v (alive, xs) = (alive, (alive, if alive then xs @ [v] else xs))"
  "mpsc_contents demo_mpsc (alive, xs) = xs"
  "mpsc_capacity demo_mpsc (alive, xs) = CHANNEL_BUFF_NUM - of_nat (length xs)"
  "mpsc_recv demo_mpsc (alive, []) = (if alive then None else Some None, (alive, []))"
  "mpsc_recv demo_mpsc (alive, v # vs) = (Some (Some v), (alive, vs))"
  "mpsc_close demo_mpsc (alive, xs) = (False, xs)"
  "mpsc_is_closed demo_mpsc (alive, xs) = (\<not> alive)"
  by (simp_all add: demo_mpsc_def)

lemma demo_mpsc_ok [simp]: "mpsc_ok demo_mpsc"
  by (simp add: mpsc_ok_def demo_mpsc_def split_def split: list.split)

definition demo_channel :: "u64 \<Rightarrow> bool \<Rightarrow> bool \<Rightarrow> (bool \<times> json list) channel_states" where
  "demo_channel k writable alive = \<lparr>cs_id = k, is_active = True, can_write = writable,
     entity_to_channel_priority_tx = (alive, []), entity_to_channel_common_tx = (alive, [])\<rparr>"

definition demo_context ::
    "EntityType \<Rightarrow> u64 \<Rightarrow> (bool \<times> json list) channel_states list \<Rightarrow> (bool \<times> json list) run_context" where
  "demo_context t i chans = (start_context 9 ''svc'' ''901234'' 3 (of_nat (length chans)) t 0 200)
     \<lparr>index := i, send_channels := chans\<rparr>"

lemma demo_context_simps [simp]:
  "send_channels (demo_context t i chans) = chans" "index (demo_context t i chans) = i"
  "to_queue (demo_context t i chans) = []" "wait_receipt_map (demo_context t i chans) = []"
  "long_sms_cache (demo_context t i chans) = []" "entity_type (demo_context t i chans) = t"
  "now_conn_num (demo_context t i chans) = of_nat (length chans)"
  "send_buff_cap (demo_context t i chans) = CHANNEL_BUFF_NUM"
  by (simp_all add: demo_context_def start_context_def Let_def)

lemma send_to_channels_result:
  assumes "mpsc_ok m" and "distinct (map cs_id (send_channels c))"
  shows "\<exists>c' kept es. send_to_channels m msg c = Some c' \<and>
    settings c' = settings c \<and> stores c' = stores c \<and> to_queue c' = to_queue c @ es \<and>
    only_dead_dropped m (is_priority msg) (stamp_msg c msg) (send_channels c) kept \<and>
    (failures es = [] \<and>
       handed m (is_priority msg) (stamp_msg c msg) kept (send_channels c') \<or>
     failures es = [(TOPIC_TO_B_FAILURE, [], stamp_msg c msg)] \<and> send_channels c' = kept)"
proof -
  let ?p = "is_priority msg"
  obtain left c1 where l: "send_loop m ?p (length (send_channels c)) (stamp_msg c msg) c = Some (left, c1)"
    and r: "loop_result m ?p (stamp_msg c msg) c left c1"
    using send_loop_result [OF assms order_refl] by blast
  have s: "send_to_channels m msg c = Some (case left of None \<Rightarrow> c1
      | Some v \<Rightarrow> send_entity_state (emit TOPIC_TO_B_FAILURE [] v c1))"
    by (simp add: send_to_channels_def Let_def l split: option.split)
  show ?thesis
  proof (rule loop_resultE [OF r])
    fix es kept
    assume a: "settings c1 = settings c" "stores c1 = stores c" "to_queue c1 = to_queue c @ es"
      "failures es = []" "only_dead_dropped m ?p (stamp_msg c msg) (send_channels c) kept"
      "left = None \<and> handed m ?p (stamp_msg c msg) kept (send_channels c1) \<or>
       left = Some (stamp_msg c msg) \<and> send_channels c1 = kept"
    show ?thesis
    proof (cases left)
      case None
      with a show ?thesis
        unfolding s by (intro exI [of _ c1] exI [of _ kept] exI [of _ es]) simp
    next
      case (Some v)
      let ?c2 = "send_entity_state (emit TOPIC_TO_B_FAILURE [] v c1)"
      from Some a show ?thesis
        unfolding s by (intro exI [of _ ?c2] exI [of _ kept] exI [of _ "drop (length (to_queue c)) (to_queue ?c2)"]) simp
    qed
  qed
qed

text \<open>C11: a message given to \<open>send_to_channels\<close> never makes it panic, and ends in exactly one place:
  in the queue of one connection that may write, or, once, at the failure topic.  Only
  connections that refused the message are dropped.\<close>

theorem send_to_channels_once:
  assumes "mpsc_ok m" and "distinct (map cs_id (send_channels c))"
  shows "\<exists>c' kept es. send_to_channels m msg c = Some c' \<and>
    settings c' = settings c \<and> stores c' = stores c \<and> to_queue c' = to_queue c @ es \<and>
    only_dead_dropped m (is_priority msg) (stamp_msg c msg) (send_channels c) kept \<and>
    (failures es = [] \<and>
       handed m (is_priority msg) (stamp_msg c msg) kept (send_channels c') \<or>
     failures es = [(TOPIC_TO_B_FAILURE, [], stamp_msg c msg)] \<and> send_channels c' = kept)"
  by (rule send_to_channels_result [OF assms])

lemma send_to_channels_once_witness:
  "\<exists>c'. send_to_channels demo_mpsc new_object (demo_context Server 0 [demo_channel 1 True False]) = Some c' \<and>
     send_channels c' = [] \<and> length (failures (to_queue c')) = 1"
proof -
  let ?c = "demo_context Server 0 [demo_channel 1 True False]"
  obtain c' kept es where r: "send_to_channels demo_mpsc new_object ?c = Some c'" "to_queue c' = es"
    "only_dead_dropped demo_mpsc (is_priority new_object) (stamp_msg ?c new_object) (send_channels ?c) kept"
    "failures es = [] \<and> handed demo_mpsc (is_priority new_object) (stamp_msg ?c new_object) kept (send_channels c') \<or>
     failures es = [(TOPIC_TO_B_FAILURE, [], stamp_msg ?c new_object)] \<and> send_channels c' = kept"
    using send_to_channels_once [of demo_mpsc ?c new_object] by auto
  have "send_channels c' = []"
    using r(1) by (auto simp: send_to_channels_def Let_def demo_channel_def sender_def note_buff_full_def split_def is_priority_def)
  with r show ?thesis by (auto simp: handed_def)
qed

subsection \<open>Taking turns\<close>

definition queued :: "'q mpsc \<Rightarrow> 'q channel_states \<Rightarrow> nat" where
  "queued m s = length (mpsc_contents m (entity_to_channel_priority_tx s)) +
     length (mpsc_contents m (entity_to_channel_common_tx s))"

definition all_open :: "'q mpsc \<Rightarrow> 'q run_context \<Rightarrow> bool" where
  "all_open m c \<longleftrightarrow> list_all (\<lambda>s. can_write s \<and>
     \<not> mpsc_is_closed m (entity_to_channel_priority_tx s) \<and>
     \<not> mpsc_is_closed m (entity_to_channel_common_tx s)) (send_channels c)"

lemma queued_set_sender:
  "mpsc_contents m q = mpsc_contents m (sender p s) @ [v] \<Longrightarrow> queued m (set_sender p q s) = Suc (queued m s)"
  by (simp add: queued_def set_sender_def sender_def split: if_splits)

text \<open>Where the connections are open, the message goes to the one the index says, and to no other.\<close>

lemma send_open_at:
  assumes "mpsc_ok m" and "all_open m c" and "send_channels c \<noteq> []"
  shows "\<exists>c' s'. send_to_channels m msg c = Some c' \<and> index c' = next_index (index c) \<and> all_open m c' \<and>
    settings c' = settings c \<and> failures (to_queue c') = failures (to_queue c) \<and>
    handed m (is_priority msg) (stamp_msg c msg) (send_channels c) (send_channels c') \<and>
    (let i = unat (index c') mod length (send_channels c) in
     send_channels c' = (send_channels c)[i := s'] \<and> queued m s' = Suc (queued m (send_channels c ! i)))"
proof -
  let ?c = "c\<lparr>index := next_index (index c)\<rparr>"
  define i where "i = unat (next_index (index c)) mod length (send_channels c)"
  let ?s = "send_channels c ! i" and ?p = "is_priority msg"
  have i: "i < length (send_channels c)" using assms(3) by (simp add: i_def)
  obtain q where q: "mpsc_send m (stamp_msg c msg) (sender ?p ?s) = (True, q)"
    using assms(1,2) i by (cases "mpsc_send m (stamp_msg c msg) (sender ?p ?s)")
      (auto simp: all_open_def list_all_length sender_def dest: mpsc_send_law(1))
  let ?s' = "set_sender ?p q ?s"
  let ?c' = "(note_buff_full m ?s ?c)\<lparr>send_channels := (send_channels c)[i := ?s']\<rparr>"
  have w: "can_write ?s" using assms(2) i by (simp add: all_open_def list_all_length)
  obtain n where n: "length (send_channels c) = Suc n" using i by (cases "length (send_channels c)") auto
  have "send_to_channels m msg c = Some ?c'"
    using i w q assms(3) by (simp add: send_to_channels_def Let_def n i_def)
  moreover have "queued m ?s' = Suc (queued m ?s)"
    using queued_set_sender mpsc_sent [OF assms(1) q] by metis
  moreover have "handed m ?p (stamp_msg c msg) (send_channels c) ((send_channels c)[i := ?s'])"
    using handed_nth [OF i w mpsc_sent [OF assms(1) q]] .
  moreover have "settings ?c' = settings c" "failures (to_queue ?c') = failures (to_queue c)"
    using note_buff_full_simps(1) [of m ?s ?c] note_buff_full_queue [of m ?s ?c] by (auto simp: settings_def)
  moreover have "all_open m ?c'"
    using assms(2) w i mpsc_send_law(2) [OF assms(1) q]
    by (auto simp: all_open_def list_all_length nth_list_update set_sender_def sender_def)
  ultimately show ?thesis by (intro exI [of _ ?c'] exI [of _ ?s']) (simp add: Let_def i_def)
qed

lemma send_open:
  assumes "mpsc_ok m" and "all_open m c" and "send_channels c \<noteq> []"
  shows "\<exists>c' s'. send_to_channels m msg c = Some c' \<and> index c' = next_index (index c) \<and> all_open m c' \<and>
    (let i = unat (index c') mod length (send_channels c) in
     send_channels c' = (send_channels c)[i := s'] \<and> queued m s' = Suc (queued m (send_channels c ! i)))"
  using send_open_at [OF assms, of msg] by blast

lemma next_index_unat: "unat i + 1 < 2 ^ 64 \<Longrightarrow> unat (next_index i) = unat i + 1"
proof -
  assume *: "unat i + 1 < 2 ^ 64"
  have "i \<noteq> 0xFFFFFFFFFFFFFFFF"
  proof
    assume "i = 0xFFFFFFFFFFFFFFFF"
    with * show False by simp
  qed
  with * show ?thesis by (simp add: next_index_def unat_word_ariths)
qed

text \<open>The turns that fall to connection \<open>j\<close> of \<open>n\<close>, among \<open>l\<close> turns from \<open>a\<close> on.\<close>

definition turns :: "nat \<Rightarrow> nat \<Rightarrow> nat \<Rightarrow> nat \<Rightarrow> nat" where
  "turns a l n j = length (filter (\<lambda>t. (a + t) mod n = j) [0..<l])"

lemma turns_Suc: "turns a (Suc l) n j = (if a mod n = j then 1 else 0) + turns (Suc a) l n j"
proof -
  have "[0..<Suc l] = 0 # map Suc [0..<l]" by (simp add: map_Suc_upt upt_conv_Cons del: upt_Suc)
  then show ?thesis by (simp add: turns_def filter_map comp_def)
qed

lemma turns_once:
  assumes "j < n"
  shows "turns a n n j = 1"
proof -
  have "map (\<lambda>t. (a + t) mod n) [0..<n] = rotate a [0..<n]"
    by (rule nth_equalityI) (simp_all add: nth_rotate)
  moreover have "turns a n n j = length (filter (\<lambda>x. x = j) (map (\<lambda>t. (a + t) mod n) [0..<n]))"
    by (simp add: turns_def comp_def filter_map)
  ultimately have "turns a n n j = length (filter (\<lambda>x. x = j) (rotate a [0..<n]))" by simp
  also have "\<dots> = card ({x. x = j} \<inter> set (rotate a [0..<n]))"
    by (rule distinct_length_filter) simp
  also have "{x. x = j} \<inter> set (rotate a [0..<n]) = {j}" using assms by auto
  finally show ?thesis by simp
qed

lemma turns_times: "j < n \<Longrightarrow> turns a (k * n) n j = k"
proof (induction k arbitrary: a)
  case 0
  then show ?case by (simp add: turns_def)
next
  case (Suc k)
  have "[0..<Suc k * n] = [0..<n] @ map (\<lambda>t. t + n) [0..<k * n]"
    by (simp add: map_add_upt upt_add_eq_append [of 0 n, simplified] add.commute)
  then have "turns a (Suc k * n) n j = turns a n n j + turns (a + n) (k * n) n j"
    by (simp add: turns_def filter_map comp_def ac_simps)
  then show ?case using Suc turns_once by simp
qed

lemma send_all_turns:
  assumes "mpsc_ok m"
  shows "all_open m c \<Longrightarrow> send_channels c \<noteq> [] \<Longrightarrow> unat (index c) + length msgs < 2 ^ 64 \<Longrightarrow>
    \<exists>c'. send_all m msgs c = Some c' \<and> length (send_channels c') = length (send_channels c) \<and>
      (\<forall>j < length (send_channels c). queued m (send_channels c' ! j) = queued m (send_channels c ! j)
         + turns (unat (index c) + 1) (length msgs) (length (send_channels c)) j)"
proof (induction msgs arbitrary: c)
  case Nil
  then show ?case by (simp add: turns_def)
next
  case (Cons msg msgs)
  obtain c1 s' where c1: "send_to_channels m msg c = Some c1" "index c1 = next_index (index c)" "all_open m c1"
    and chans: "send_channels c1 = (send_channels c)[unat (index c1) mod length (send_channels c) := s']"
      "queued m s' = Suc (queued m (send_channels c ! (unat (index c1) mod length (send_channels c))))"
    using send_open [OF assms Cons.prems(1,2), of msg] by (auto simp: Let_def)
  have ix: "unat (index c1) = unat (index c) + 1"
    using next_index_unat [of "index c"] Cons.prems(3) c1(2) by simp
  have ne: "send_channels c1 \<noteq> []" "length (send_channels c1) = length (send_channels c)"
    using Cons.prems(2) chans(1) by simp_all
  obtain c' where c': "send_all m msgs c1 = Some c'" "length (send_channels c') = length (send_channels c1)"
    and q: "\<And>j. j < length (send_channels c1) \<Longrightarrow> queued m (send_channels c' ! j) =
      queued m (send_channels c1 ! j) + turns (unat (index c1) + 1) (length msgs) (length (send_channels c1)) j"
    using Cons.IH [OF c1(3) ne(1)] Cons.prems(3) ix by auto
  have "queued m (send_channels c' ! j) = queued m (send_channels c ! j)
      + turns (unat (index c) + 1) (length (msg # msgs)) (length (send_channels c)) j"
    if "j < length (send_channels c)" for j
    using q [of j] that ne(2) chans ix by (simp add: turns_Suc nth_list_update)
  then show ?case using c1(1) c' ne(2) by auto
qed

text \<open>While all connections are open and may write, messages are dealt out evenly: after \<open>k\<close>
  rounds every connection has \<open>k\<close> messages more in its queues.\<close>

theorem send_all_even:
  assumes "mpsc_ok m" and "all_open m c" and "length msgs = k * length (send_channels c)"
    and "unat (index c) + length msgs < 2 ^ 64"
  shows "\<exists>c'. send_all m msgs c = Some c' \<and>
    map (queued m) (send_channels c') = map (\<lambda>s. queued m s + k) (send_channels c)"
proof (cases "send_channels c = []")
  case True
  with assms(3) show ?thesis by simp
next
  case False
  then show ?thesis
    using send_all_turns [OF assms(1,2) False assms(4)] assms(3)
    by (auto simp: turns_times intro!: nth_equalityI)
qed

lemma send_all_even_witness:
  "\<exists>c'. send_all demo_mpsc [new_object, new_object]
      (demo_context Server 0 [demo_channel 1 True True, demo_channel 2 True True]) = Some c' \<and>
     map (queued demo_mpsc) (send_channels c') = [1, 1]"
proof -
  let ?c = "demo_context Server 0 [demo_channel 1 True True, demo_channel 2 True True]"
  have "all_open demo_mpsc ?c"
    by (simp add: all_open_def demo_channel_def)
  then have "\<exists>c'. send_all demo_mpsc [new_object, new_object] ?c = Some c' \<and>
      map (queued demo_mpsc) (send_channels c') = map (\<lambda>s. queued demo_mpsc s + 1) (send_channels ?c)"
    by (rule send_all_even [OF demo_mpsc_ok]) simp_all
  then show ?thesis by (simp add: queued_def demo_channel_def)
qed

text \<open>A message can be reported as a failure although a connection is open and may write: the
  walk over the connections goes on by the index, and dropping a dead one shifts the others.\<close>

theorem send_to_channels_misses:
  "\<exists>c' s. send_to_channels demo_mpsc new_object
      (demo_context Server 5 [demo_channel 1 False True, demo_channel 2 True False, demo_channel 3 True True]) = Some c' \<and>
     length (failures (to_queue c')) = 1 \<and>
     s \<in> set (send_channels c') \<and> can_write s \<and> fst (mpsc_send demo_mpsc new_object (sender False s))"
proof -
  let ?c = "demo_context Server 5 [demo_channel 1 False True, demo_channel 2 True False, demo_channel 3 True True]"
  have "map_option (\<lambda>c'. (length (failures (to_queue c')), send_channels c')) (send_to_channels demo_mpsc new_object ?c)
      = Some (1, [demo_channel 1 False True, demo_channel 3 True True])"
    by code_simp
  then obtain c' where "send_to_channels demo_mpsc new_object ?c = Some c'"
    "length (failures (to_queue c')) = 1" "demo_channel 3 True True \<in> set (send_channels c')"
    by auto
  moreover have "can_write (demo_channel 3 True True)"
    "fst (mpsc_send demo_mpsc new_object (sender False (demo_channel 3 True True)))"
    by (simp_all add: demo_channel_def sender_def)
  ultimately show ?thesis by blast
qed

end
