(* ===== verification/LongSms.thy ===== *)
theory LongSms
  imports Sending
begin

text \<open>
  Long messages arrive as numbered parts, in any order and possibly more than once.
  \<open>handle_long_sms\<close> gives back nothing until the last part is there and then the whole message.
\<close>

text \<open>The task handling the parts of one message, in the order of their arrival.\<close>

fun handle_parts ::
    "u8 \<Rightarrow> json list \<Rightarrow> 'q run_context \<Rightarrow> (json option list \<times> 'q run_context) option" where
  "handle_parts parts [] c = Some ([], c)"
| "handle_parts parts (msg # msgs) c = do {
     (joined, c) \<leftarrow> handle_long_sms msg parts c;
     (rest, c) \<leftarrow> handle_parts parts msgs c;
     Some (joined # rest, c)
   }"

lemma handle_parts_append:
  "handle_parts parts (xs @ ys) c =
     do { (a, c) \<leftarrow> handle_parts parts xs c; (b, c) \<leftarrow> handle_parts parts ys c; Some (a @ b, c) }"
  by (induction xs arbitrary: c) (auto split: Option.bind_splits)

text \<open>What identifies \<open>msgs\<close> as the parts of one message: the same addresses, numbered from one.\<close>

definition parts_of :: "string \<Rightarrow> u8 \<Rightarrow> json list \<Rightarrow> bool" where
  "parts_of key parts msgs \<longleftrightarrow>
     2 \<le> length msgs \<and> length msgs = unat parts \<and>
     (\<forall>i < length msgs. long_sms_key (msgs ! i) = key \<and>
        idx (msgs ! i) LONG_SMS_NOW_NUMBER = num (of_nat (Suc i) :: u8))"

definition vec :: "json list \<Rightarrow> nat set \<Rightarrow> json option list" where
  "vec msgs S = map (\<lambda>i. if i \<in> S then Some (msgs ! i) else None) [0..<length msgs]"

definition entry :: "json list \<Rightarrow> nat set \<Rightarrow> json option list option" where
  "entry msgs S = (if S = {} then None else Some (vec msgs S))"

lemma length_vec [simp]: "length (vec msgs S) = length msgs"
  by (simp add: vec_def)

lemma vec_empty: "vec msgs {} = replicate (length msgs) None"
  by (simp add: vec_def map_replicate_const)

lemma vec_insert: "i < length msgs \<Longrightarrow> (vec msgs S)[i := Some (msgs ! i)] = vec msgs (insert i S)"
  by (rule nth_equalityI) (auto simp: vec_def nth_list_update)

lemma None_in_vec: "None \<in> set (vec msgs S) \<longleftrightarrow> \<not> {..<length msgs} \<subseteq> S"
  by (auto simp: vec_def image_iff)

lemma vec_full: "{..<length msgs} \<subseteq> S \<Longrightarrow> map the (vec msgs S) = msgs"
  by (rule nth_equalityI) (auto simp: vec_def)

lemma parts_of_number:
  assumes "parts_of key parts msgs" and "i < length msgs"
  shows "as_u8 (idx (msgs ! i) LONG_SMS_NOW_NUMBER) = Some (of_nat (Suc i))"
    and "unat (of_nat (Suc i) - 1 :: u8) = i"
    and "\<not> (of_nat (Suc i) > parts \<or> parts < 2)"
    and "long_sms_key (msgs ! i) = key" "length msgs = unat parts"
proof -
  have l: "length msgs = unat parts" "2 \<le> length msgs" and "unat parts < 256"
    using assms(1) unat_bound [of parts] by (auto simp: parts_of_def)
  then show "unat (of_nat (Suc i) - 1 :: u8) = i" using assms(2) by (simp add: unat_of_nat)
  have "unat (of_nat (Suc i) :: u8) = Suc i"
    using assms(2) l \<open>unat parts < 256\<close> by (simp add: unat_of_nat del: of_nat_Suc)
  then show "\<not> (of_nat (Suc i) > parts \<or> parts < 2)"
    using assms(2) l by (simp add: word_less_nat_alt del: of_nat_Suc)
  show "as_u8 (idx (msgs ! i) LONG_SMS_NOW_NUMBER) = Some (of_nat (Suc i))"
    "long_sms_key (msgs ! i) = key" "length msgs = unat parts"
    using assms by (auto simp: parts_of_def)
qed

text \<open>One part: the message is complete, or the part is filed.\<close>

lemma handle_long_sms_part:
  assumes "parts_of key parts msgs" and "i < length msgs"
    and "map_of (long_sms_cache c) key = entry msgs S"
  shows "handle_long_sms (msgs ! i) parts c =
    (if {..<length msgs} \<subseteq> insert i S
     then Some (Some (join_parts msgs), c\<lparr>long_sms_cache := AList.delete key (long_sms_cache c)\<rparr>)
     else Some (None, c\<lparr>long_sms_cache := AList.update key (vec msgs (insert i S)) (long_sms_cache c)\<rparr>))"
proof -
  note n = parts_of_number [OF assms(1,2)]
  have put: "put_part (entry msgs S) parts (of_nat (Suc i)) (msgs ! i) = Some (vec msgs (insert i S))"
    using n(2) n(5) [symmetric] assms(2) vec_insert [OF assms(2), of S]
    by (auto simp: put_part_def entry_def Let_def simp flip: vec_empty simp del: of_nat_Suc)
  have "\<not> {..<length msgs} \<subseteq> insert i {}"
  proof
    assume *: "{..<length msgs} \<subseteq> insert i {}"
    have "0 \<in> {..<length msgs}" "1 \<in> {..<length msgs}" using assms(1) by (auto simp: parts_of_def)
    with * show False by auto
  qed
  then have "entry msgs S = None \<or> None \<in> set (vec msgs (insert i S)) \<longleftrightarrow> \<not> {..<length msgs} \<subseteq> insert i S"
    by (auto simp: None_in_vec entry_def)
  then show ?thesis
    using n(1,3,4) put assms(3) by (simp add: handle_long_sms_def Let_def vec_full del: of_nat_Suc)
qed

lemma handle_parts_incomplete:
  assumes "parts_of key parts msgs"
  shows "set order \<subseteq> {..<length msgs} \<Longrightarrow> \<not> {..<length msgs} \<subseteq> S \<union> set order \<Longrightarrow>
    map_of (long_sms_cache c) key = entry msgs S \<Longrightarrow>
    \<exists>cache. handle_parts parts (map ((!) msgs) order) c =
        Some (replicate (length order) None, c\<lparr>long_sms_cache := cache\<rparr>) \<and>
      map_of cache = (map_of (long_sms_cache c)) (key := entry msgs (S \<union> set order))"
proof (induction order arbitrary: S c)
  case Nil
  then show ?case by (auto intro!: exI [of _ "long_sms_cache c"])
next
  case (Cons i order)
  let ?c = "c\<lparr>long_sms_cache := AList.update key (vec msgs (insert i S)) (long_sms_cache c)\<rparr>"
  have i: "i < length msgs" "\<not> {..<length msgs} \<subseteq> insert i S" using Cons.prems(1,2) by auto
  have h: "handle_long_sms (msgs ! i) parts c = Some (None, ?c)"
    using handle_long_sms_part [OF assms i(1) Cons.prems(3)] i(2) by simp
  have e: "map_of (long_sms_cache ?c) key = entry msgs (insert i S)"
    by (simp add: entry_def update_conv)
  have p: "set order \<subseteq> {..<length msgs}" "\<not> {..<length msgs} \<subseteq> insert i S \<union> set order"
    using Cons.prems(1,2) by auto
  obtain cache where "handle_parts parts (map ((!) msgs) order) ?c =
      Some (replicate (length order) None, ?c\<lparr>long_sms_cache := cache\<rparr>)"
    and "map_of cache = (map_of (long_sms_cache ?c)) (key := entry msgs (insert i S \<union> set order))"
    using Cons.IH [OF p e] by blast
  then show ?case using h by (auto simp: update_conv fun_eq_iff intro!: exI [of _ cache])
qed

text \<open>The parts of a long message are joined when the last of them arrives, in the order of
  their numbers whatever the order of arrival and even if parts are repeated; until then nothing is
  given out, and afterwards the cache is what it was.\<close>

theorem long_sms_joined:
  assumes "parts_of key parts msgs" and "set (order @ [i]) = {..<length msgs}" and "i \<notin> set order"
    and "map_of (long_sms_cache c) key = None"
  shows "\<exists>cache. handle_parts parts (map ((!) msgs) (order @ [i])) c =
      Some (replicate (length order) None @ [Some (join_parts msgs)], c\<lparr>long_sms_cache := cache\<rparr>) \<and>
    map_of cache = map_of (long_sms_cache c)"
proof -
  have e: "map_of (long_sms_cache c) key = entry msgs {}" using assms(4) by (simp add: entry_def)
  obtain cache where c1: "handle_parts parts (map ((!) msgs) order) c =
      Some (replicate (length order) None, c\<lparr>long_sms_cache := cache\<rparr>)"
    and m: "map_of cache = (map_of (long_sms_cache c)) (key := entry msgs (set order))"
    using handle_parts_incomplete [OF assms(1) _ _ e, of order] assms(2,3) by auto
  have "handle_long_sms (msgs ! i) parts (c\<lparr>long_sms_cache := cache\<rparr>) =
      Some (Some (join_parts msgs), c\<lparr>long_sms_cache := AList.delete key cache\<rparr>)"
    using handle_long_sms_part [OF assms(1), of i "c\<lparr>long_sms_cache := cache\<rparr>" "set order"] m assms(2)
    by auto
  moreover have "map_of (AList.delete key cache) = map_of (long_sms_cache c)"
    using assms(4) by (auto simp: delete_conv m fun_eq_iff)
  ultimately show ?thesis using c1 by (auto simp: handle_parts_append)
qed

subsection \<open>The task receiving the parts\<close>

fun receive_all ::
    "'q mpsc \<Rightarrow> (int \<times> json) list \<Rightarrow> 'q temp_save \<Rightarrow> 'q run_context \<Rightarrow> ('q temp_save \<times> 'q run_context) option" where
  "receive_all m [] save c = Some (save, c)"
| "receive_all m ((now, msg) # msgs) save c = do {
     (go, save, c) \<leftarrow> handle_from_channel_rx m now (Some msg) save c;
     if go then receive_all m msgs save c else Some (save, c)
   }"

lemma idx_received [simp]:
  "k \<noteq> RECEIVE_TIME \<Longrightarrow> k \<noteq> ENTITY_ID \<Longrightarrow> idx (received eid now msg) k = idx msg k"
  by (simp add: received_def)

lemma long_sms_key_received [simp]: "long_sms_key (received eid now msg) = long_sms_key msg"
  by (simp add: long_sms_key_def split: option.split)

text \<open>A part of a long message from a connection: a deliver message that is no sent one.\<close>

definition deliver_part :: "u8 \<Rightarrow> json \<Rightarrow> bool" where
  "deliver_part parts msg \<longleftrightarrow> as_str (idx msg MSG_TYPE_STR) = Some ''Deliver'' \<and>
     as_bool (idx msg WAIT_RECEIPT) \<noteq> Some True \<and> as_u8 (idx msg LONG_SMS_TOTAL) = Some parts"

definition publish :: "string \<Rightarrow> json option \<Rightarrow> 'q run_context \<Rightarrow> 'q run_context" where
  "publish topic joined c = (case joined of Some json \<Rightarrow> send_to_queue topic [] json c | None \<Rightarrow> c)"

lemma handle_deliver_part:
  assumes "deliver_part parts msg"
  shows "handle_from_channel_rx m now (Some msg) save c =
    map_option (\<lambda>(joined, c). (True, save, publish TOPIC_TO_B_DELIVER joined c))
      (handle_long_sms (received (entity_id c) now msg) parts c)"
  using assms
  by (simp add: deliver_part_def handle_from_channel_rx_def on_channel_msg_def on_deliver_def Let_def
      msg_type_from_str_def lookup_or_def publish_def split_def option.map_comp comp_def
      split: option.split Option.bind_split)

lemma handle_long_sms_frame:
  "handle_long_sms msg parts c = Some (joined, c') \<Longrightarrow> \<exists>cache. c' = c\<lparr>long_sms_cache := cache\<rparr>"
  by (auto simp: handle_long_sms_def Let_def bind_eq_Some split: option.splits if_splits
      intro: exI [of _ "long_sms_cache c"])

lemma receive_filed:
  assumes "list_all (\<lambda>(now, msg). deliver_part parts msg) arrivals"
  shows "handle_parts parts (map (\<lambda>(now, msg). received (entity_id c) now msg) arrivals) c =
      Some (replicate (length arrivals) None, c') \<Longrightarrow>
    receive_all m arrivals save c = Some (save, c')"
  using assms
proof (induction arrivals arbitrary: c)
  case Nil
  then show ?case by simp
next
  case (Cons a arrivals)
  obtain now msg where a: "a = (now, msg)" by (cases a)
  from Cons.prems a obtain c1 where h: "handle_long_sms (received (entity_id c) now msg) parts c = Some (None, c1)"
    and r: "handle_parts parts (map (\<lambda>(now, msg). received (entity_id c) now msg) arrivals) c1 =
      Some (replicate (length arrivals) None, c')"
    by (auto simp: bind_eq_Some)
  have "entity_id c1 = entity_id c" using handle_long_sms_frame [OF h] by auto
  with r Cons.IH Cons.prems(2) a have "receive_all m arrivals save c1 = Some (save, c')" by simp
  then show ?case
    using Cons.prems(2) a h by (simp add: handle_deliver_part [of parts] publish_def)
qed

lemma receive_all_append:
  "receive_all m xs save c = Some (save', c') \<Longrightarrow> list_all (\<lambda>(now, msg). deliver_part parts msg) xs \<Longrightarrow>
   receive_all m (xs @ ys) save c = receive_all m ys save' c'"
proof (induction xs arbitrary: save c)
  case Nil
  then show ?case by simp
next
  case (Cons x xs)
  then show ?case by (cases x) (auto simp: bind_eq_Some handle_deliver_part [of parts] split: Option.bind_splits)
qed

lemma joined_fields:
  "idx (strip_internal (join_parts msgs)) MSG_CONTENT = JStr (concat (map (\<lambda>j. str_or_empty (idx j MSG_CONTENT)) msgs))"
  "idx (strip_internal (join_parts msgs)) MSG_IDS = strs (map (\<lambda>j. str_or_empty (idx j MSG_ID)) msgs)"
  by (simp_all add: strip_internal_def join_parts_def Let_def)

text \<open>When the parts of an incoming long message have all arrived, in any order, exactly one
  message has been published: its content is the contents of the parts in the order of their numbers,
  and it lists their ids.\<close>

theorem long_deliver_published:
  assumes "parts_of key parts msgs" and "list_all (deliver_part parts) msgs"
    and "set order = {..<length msgs}" and "distinct order"
    and "map_of (long_sms_cache c) key = None"
  shows "\<exists>c' json. receive_all m (map (\<lambda>i. (t i, msgs ! i)) order) save c = Some (save, c') \<and>
    to_queue c' = to_queue c @ [(TOPIC_TO_B_DELIVER, [], json)] \<and>
    map_of (long_sms_cache c') = map_of (long_sms_cache c) \<and>
    idx json MSG_CONTENT = JStr (concat (map (\<lambda>j. str_or_empty (idx j MSG_CONTENT)) msgs)) \<and>
    idx json MSG_IDS = strs (map (\<lambda>j. str_or_empty (idx j MSG_ID)) msgs)"
proof -
  let ?eid = "entity_id c"
  let ?msgs = "map (\<lambda>i. received ?eid (t i) (msgs ! i)) [0..<length msgs]"
  have len: "length ?msgs = length msgs" by simp
  have parts: "parts_of key parts ?msgs" using assms(1) by (auto simp: parts_of_def)
  have "0 \<in> set order" using assms(1,3) by (auto simp: parts_of_def)
  then obtain rest i where order: "order = rest @ [i]" by (cases order rule: rev_cases) auto
  have i: "i < length msgs" "set rest \<subseteq> {..<length msgs}" "i \<notin> set rest" using assms(3,4) order by auto
  obtain cache where h: "handle_parts parts (map ((!) ?msgs) (rest @ [i])) c =
      Some (replicate (length rest) None @ [Some (join_parts ?msgs)], c\<lparr>long_sms_cache := cache\<rparr>)"
    and m: "map_of cache = map_of (long_sms_cache c)"
    using long_sms_joined [OF parts _ i(3) assms(5)] assms(3) order unfolding len by auto
  let ?arr = "map (\<lambda>i. (t i, msgs ! i))"
  have stamped: "map (\<lambda>(now, msg). received ?eid now msg) (?arr xs) = map ((!) ?msgs) xs"
    if "set xs \<subseteq> {..<length msgs}" for xs
    using that by (induction xs) auto
  have dp: "list_all (\<lambda>(now, msg). deliver_part parts msg) (?arr xs)" if "set xs \<subseteq> {..<length msgs}" for xs
    using that assms(2) by (auto simp: list_all_iff)
  obtain a c1 b c2 where "handle_parts parts (map ((!) ?msgs) rest) c = Some (a, c1)"
    and l: "handle_long_sms (?msgs ! i) parts c1 = Some (b, c2)"
    and "a @ [b] = replicate (length rest) None @ [Some (join_parts ?msgs)]"
    and c2: "c2 = c\<lparr>long_sms_cache := cache\<rparr>"
    using h by (auto simp: handle_parts_append bind_eq_Some simp del: nth_map)
  then have r: "handle_parts parts (map ((!) ?msgs) rest) c = Some (replicate (length rest) None, c1)"
    and b: "b = Some (join_parts ?msgs)" by auto
  have first: "receive_all m (?arr rest) save c = Some (save, c1)"
    using receive_filed [OF dp [OF i(2)], of c c1] r unfolding stamped [OF i(2)] by simp
  have "entity_id c1 = ?eid" using handle_long_sms_frame [OF l] c2 by (metis run_context.select_convs(1) run_context.surjective run_context.update_convs(9))
  then have "receive_all m (?arr [i]) save c1 = Some (save, send_to_queue TOPIC_TO_B_DELIVER [] (join_parts ?msgs) c2)"
    using l b i(1) assms(2) by (simp add: handle_deliver_part [of parts] publish_def list_all_length)
  then have "receive_all m (?arr order) save c =
      Some (save, send_to_queue TOPIC_TO_B_DELIVER [] (join_parts ?msgs) c2)"
    using receive_all_append [OF first dp [OF i(2)]] order by simp
  moreover have "map (\<lambda>j. str_or_empty (idx j f)) ?msgs = map (\<lambda>j. str_or_empty (idx j f)) msgs"
    if "f \<noteq> RECEIVE_TIME" "f \<noteq> ENTITY_ID" for f
    using that by (auto intro: nth_equalityI)
  ultimately show ?thesis
    by (intro exI [of _ "send_to_queue TOPIC_TO_B_DELIVER [] (join_parts ?msgs) c2"]
        exI [of _ "strip_internal (join_parts ?msgs)"]) (simp add: m c2 joined_fields del: map_map)
qed

definition demo_part :: "int \<Rightarrow> string \<Rightarrow> json" where
  "demo_part k content = JObj [(MSG_TYPE_STR, JStr ''Deliver''), (SRC_ID, JStr ''13800000000''),
     (DEST_ID, JStr ''10690001''), (LONG_SMS_TOTAL, JNum 2), (LONG_SMS_NOW_NUMBER, JNum k),
     (MSG_ID, JStr ''id''), (MSG_CONTENT, JStr content)]"

lemma demo_part_fields [simp]:
  "idx (demo_part k s) MSG_CONTENT = JStr s" "idx (demo_part k s) MSG_ID = JStr ''id''"
  "idx (demo_part k s) LONG_SMS_NOW_NUMBER = JNum k" "long_sms_key (demo_part k s) = ''1380000000010690001''"
  "deliver_part 2 (demo_part k s)"
  by (simp_all add: demo_part_def long_sms_key_def deliver_part_def as_word.simps str_or_empty_def)

lemma demo_parts: "parts_of ''1380000000010690001'' 2 [demo_part 1 ''ab'', demo_part 2 ''cd'']"
  by (auto simp: parts_of_def less_Suc_eq)

lemma long_sms_joined_witness:
  "\<exists>c'. handle_parts 2 [demo_part 2 ''cd'', demo_part 2 ''cd'', demo_part 1 ''ab''] (demo_context Custom 0 []) =
     Some ([None, None, Some (join_parts [demo_part 1 ''ab'', demo_part 2 ''cd''])], c')"
proof -
  have "map_of (long_sms_cache (demo_context Custom 0 [])) ''1380000000010690001'' = None" by simp
  from long_sms_joined [OF demo_parts _ _ this, of "[1, 1]" 0]
  show ?thesis by (auto simp: lessThan_Suc numeral_2_eq_2)
qed

lemma long_deliver_published_witness:
  "\<exists>save c' json. receive_all demo_mpsc [(0, demo_part 2 ''cd''), (0, demo_part 1 ''ab'')] [] (demo_context Custom 0 []) = Some (save, c') \<and>
     to_queue c' = [(TOPIC_TO_B_DELIVER, [], json)] \<and> idx json MSG_CONTENT = JStr ''abcd''"
proof -
  have "map_of (long_sms_cache (demo_context Custom 0 [])) ''1380000000010690001'' = None" by simp
  from long_deliver_published [OF demo_parts _ _ _ this, of "[1, 0]" demo_mpsc "\<lambda>_. 0" "[]"]
  show ?thesis by (auto simp: lessThan_Suc numeral_2_eq_2 str_or_empty_def)
qed

text \<open>A part that calls itself number zero of a long message stops the task with a panic: the
  index it computes is 255, past the end of every list of parts.\<close>

theorem part_zero_panics:
  assumes "deliver_part parts msg" and "2 \<le> parts" and "as_u8 (idx msg LONG_SMS_NOW_NUMBER) = Some 0"
  shows "handle_from_channel_rx m now (Some msg) save c = None"
proof -
  have "unat parts < 256" using unat_bound [of parts] by simp
  moreover have "unat (- 1 :: u8) = 255" by code_simp
  ultimately have "put_part cached parts 0 j = None" for cached j
    by (auto simp: put_part_def Let_def split: option.split)
  then show ?thesis
    using assms by (simp add: handle_deliver_part [of parts] handle_long_sms_def Let_def linorder_not_less)
qed

lemma part_zero_panics_witness:
  "handle_from_channel_rx demo_mpsc 0 (Some (demo_part 0 ''x'')) [] (demo_context Custom 0 []) = None"
  by (rule part_zero_panics [of 2]) (simp_all add: as_word.simps)

end
