(* ===== verification/Machine.thy ===== *)
theory Machine
  imports Prelude
begin

text \<open>
  The tasks of the gateway as machines: a step for every thing that can happen, which gives the
  next state, or nothing where the code panics; and a condition on what the environment may do.
  A task that keeps an invariant, and one that never panics under it, are contracts the tasks of
  the gateway are shown to meet.
\<close>

inductive reaches ::
    "('e \<Rightarrow> 's \<Rightarrow> 's option) \<Rightarrow> ('e \<Rightarrow> 's \<Rightarrow> bool) \<Rightarrow> 's \<Rightarrow> 's \<Rightarrow> bool"
  for step may where
  reaches_refl: "reaches step may s s"
| reaches_step: "reaches step may s t \<Longrightarrow> may e t \<Longrightarrow> step e t = Some u \<Longrightarrow> reaches step may s u"

lemma reaches_trans: "reaches step may t u \<Longrightarrow> reaches step may s t \<Longrightarrow> reaches step may s u"
  by (induction rule: reaches.induct) (blast intro: reaches_step)+

text \<open>A run over a list of events, and the condition that the environment keeps along it.\<close>

fun run :: "('e \<Rightarrow> 's \<Rightarrow> 's option) \<Rightarrow> 'e list \<Rightarrow> 's \<Rightarrow> 's option" where
  "run step [] s = Some s"
| "run step (e # es) s = do { t \<leftarrow> step e s; run step es t }"

fun may_run :: "('e \<Rightarrow> 's \<Rightarrow> 's option) \<Rightarrow> ('e \<Rightarrow> 's \<Rightarrow> bool) \<Rightarrow> 'e list \<Rightarrow> 's \<Rightarrow> bool" where
  "may_run step may [] s = True"
| "may_run step may (e # es) s =
     (may e s \<and> (case step e s of None \<Rightarrow> True | Some t \<Rightarrow> may_run step may es t))"

lemma run_reaches: "run step es s = Some t \<Longrightarrow> may_run step may es s \<Longrightarrow> reaches step may s t"
proof (induction es arbitrary: s)
  case Nil
  then show ?case by (simp add: reaches_refl)
next
  case (Cons e es)
  then obtain u where "step e s = Some u" "run step es u = Some t" "may e s" "may_run step may es u"
    by (auto simp: bind_eq_Some)
  with Cons.IH show ?case by (blast intro: reaches_trans reaches_step reaches_refl)
qed

text \<open>A run panics exactly where one of its steps does, in the state the steps before it lead to.\<close>

lemma run_None:
  "run step es s = None \<longleftrightarrow> (\<exists>pre e post t. es = pre @ e # post \<and> run step pre s = Some t \<and> step e t = None)"
proof (induction es arbitrary: s)
  case Nil
  then show ?case by simp
next
  case (Cons e es)
  show ?case
  proof (cases "step e s")
    case None
    then show ?thesis by (auto intro: exI [of _ "[]"])
  next
    case (Some u)
    have "(\<exists>pre e' post t. e # es = pre @ e' # post \<and> run step pre s = Some t \<and> step e' t = None) \<longleftrightarrow>
        (\<exists>pre e' post t. es = pre @ e' # post \<and> run step pre u = Some t \<and> step e' t = None)"
    proof
      assume "\<exists>pre e' post t. e # es = pre @ e' # post \<and> run step pre s = Some t \<and> step e' t = None"
      then obtain pre e' post t where p: "e # es = pre @ e' # post" "run step pre s = Some t" "step e' t = None" by blast
      then show "\<exists>pre e' post t. es = pre @ e' # post \<and> run step pre u = Some t \<and> step e' t = None"
        using Some by (cases pre) auto
    next
      assume "\<exists>pre e' post t. es = pre @ e' # post \<and> run step pre u = Some t \<and> step e' t = None"
      then obtain pre e' post t where "es = pre @ e' # post" "run step pre u = Some t" "step e' t = None" by blast
      with Some show "\<exists>pre e' post t. e # es = pre @ e' # post \<and> run step pre s = Some t \<and> step e' t = None"
        by (intro exI [of _ "e # pre"]) auto
    qed
    with Some Cons.IH [of u] show ?thesis by simp
  qed
qed

locale machine =
  fixes step :: "'e \<Rightarrow> 's \<Rightarrow> 's option"
    and may :: "'e \<Rightarrow> 's \<Rightarrow> bool"
    and inv :: "'s \<Rightarrow> bool"
  assumes step_inv: "inv s \<Longrightarrow> may e s \<Longrightarrow> step e s = Some t \<Longrightarrow> inv t"
begin

lemma reaches_inv: "reaches step may s t \<Longrightarrow> inv s \<Longrightarrow> inv t"
  by (induction rule: reaches.induct) (blast intro: step_inv)+

lemma run_inv: "run step es s = Some t \<Longrightarrow> may_run step may es s \<Longrightarrow> inv s \<Longrightarrow> inv t"
  by (rule reaches_inv [OF run_reaches])

end

locale live_machine = machine +
  assumes progress: "inv s \<Longrightarrow> may e s \<Longrightarrow> \<exists>t. step e s = Some t"
begin

text \<open>Such a task goes through every run the environment may cause.\<close>

lemma run_total: "may_run step may es s \<Longrightarrow> inv s \<Longrightarrow> \<exists>t. run step es s = Some t \<and> inv t"
proof (induction es arbitrary: s)
  case Nil
  then show ?case by simp
next
  case (Cons e es)
  then obtain t where t: "step e s = Some t" "inv t"
    using progress step_inv by (metis may_run.simps(2))
  with Cons show ?case by simp
qed

end

end
