(* ===== verification/Tasks.thy ===== *)
theory Tasks
  imports LongSms Machine
begin

text \<open>
  The task of an account as a machine, together with the logins that leave queues for it in
  \<open>TEMP_SAVE\<close>: its count of connections is right, its connections are distinct, and it does
  not panic unless a peer sends a part of a long message numbered zero.
\<close>

subsection \<open>The invariant\<close>

abbreviation ids :: "'q run_context \<Rightarrow> u64 list" where
  "ids c \<equiv> map cs_id (send_channels c)"

definition conn_count :: "'q run_context \<Rightarrow> bool" where
  "conn_count c \<longleftrightarrow> now_conn_num c = of_nat (length (send_channels c))"

text \<open>A connection that waits in \<open>TEMP_SAVE\<close> is not one the task already has.\<close>

definition conn_inv :: "'q temp_save \<Rightarrow> 'q run_context \<Rightarrow> bool" where
  "conn_inv save c \<longleftrightarrow> conn_count c \<and> distinct (ids c) \<and>
     (\<forall>ind q. map_of save ind = Some q \<longrightarrow> ucast ind \<notin> set (ids c))"

lemma conn_count_simps [simp]:
  "conn_count (emit t k j c) = conn_count c" "conn_count (send_to_queue t k j c) = conn_count c"
  "conn_count (send_entity_state c) = conn_count c" "conn_count (drop_channel i c)"
  "conn_count (note_buff_full m s c) = conn_count c"
  by (simp_all add: conn_count_def)

lemma conn_inv_cong:
  "send_channels c' = send_channels c \<Longrightarrow> now_conn_num c' = now_conn_num c \<Longrightarrow>
   conn_inv save c' = conn_inv save c"
  by (simp add: conn_inv_def conn_count_def)

lemma conn_inv_simps [simp]:
  "conn_inv save (c\<lparr>long_sms_cache := cache\<rparr>) = conn_inv save c"
  "conn_inv save (c\<lparr>wait_receipt_map := wait\<rparr>) = conn_inv save c"
  "conn_inv save (send_to_queue t k j c) = conn_inv save c"
  "conn_inv save (send_entity_state c) = conn_inv save c"
  by (simp_all add: conn_inv_def conn_count_def)

lemma conn_inv_shrink:
  "conn_inv save c \<Longrightarrow> conn_count c' \<Longrightarrow> distinct (ids c') \<Longrightarrow> set (ids c') \<subseteq> set (ids c) \<Longrightarrow> conn_inv save c'"
  by (auto simp: conn_inv_def)

subsection \<open>Sending keeps it\<close>

lemma send_loop_count:
  "conn_count c \<Longrightarrow> send_loop m p n v c = Some (left, c') \<Longrightarrow> conn_count c'"
proof (induction n arbitrary: c)
  case 0
  then show ?case by simp
next
  case (Suc n)
  let ?c = "c\<lparr>index := next_index (index c)\<rparr>"
  let ?s = "send_channels c ! (unat (next_index (index c)) mod length (send_channels c))"
  have "conn_count ?c" using Suc.prems(1) by (simp add: conn_count_def)
  moreover have "conn_count ((note_buff_full m s ?c)\<lparr>send_channels := (send_channels c)[i := s']\<rparr>)" for s s' i
    using Suc.prems(1) by (simp add: conn_count_def)
  ultimately show ?case
    using Suc.prems by (auto simp: Let_def split_def split: if_splits intro: Suc.IH [rotated])
qed

lemma ids_handed: "handed m p v kept chans \<Longrightarrow> map cs_id chans = map cs_id kept"
  by (auto simp: handed_def)

lemma only_dead_ids:
  assumes "only_dead_dropped m p v chans kept" and "distinct (map cs_id chans)"
  shows "distinct (map cs_id kept)" and "set (map cs_id kept) \<subseteq> set (map cs_id chans)"
  using assms by (auto simp: only_dead_dropped_def distinct_map_filter)

lemma send_to_channels_count:
  assumes "conn_count c" and "send_to_channels m msg c = Some c'"
  shows "conn_count c'"
  using assms(2) send_loop_count [OF assms(1)]
  by (auto simp: send_to_channels_def Let_def bind_eq_Some split: option.splits)

lemma send_to_channels_inv:
  assumes "mpsc_ok m" and "conn_inv save c"
  shows "\<exists>c'. send_to_channels m msg c = Some c' \<and> conn_inv save c' \<and>
    settings c' = settings c \<and> stores c' = stores c"
proof -
  have d: "distinct (ids c)" "conn_count c" using assms(2) by (auto simp: conn_inv_def)
  obtain c' kept where r: "send_to_channels m msg c = Some c'" "settings c' = settings c" "stores c' = stores c"
    and k: "only_dead_dropped m (is_priority msg) (stamp_msg c msg) (send_channels c) kept"
    and h: "handed m (is_priority msg) (stamp_msg c msg) kept (send_channels c') \<or> send_channels c' = kept"
    using send_to_channels_result [OF assms(1) d(1), of msg] by blast
  have i: "ids c' = map cs_id kept" using h ids_handed by blast
  have "conn_inv save c'"
    by (rule conn_inv_shrink [OF assms(2) send_to_channels_count [OF d(2) r(1)]])
      (use only_dead_ids [OF k d(1)] i in auto)
  then show ?thesis using r by blast
qed

lemma send_all_inv:
  assumes "mpsc_ok m"
  shows "conn_inv save c \<Longrightarrow> \<exists>c'. send_all m msgs c = Some c' \<and> conn_inv save c' \<and>
    settings c' = settings c \<and> stores c' = stores c"
proof (induction msgs arbitrary: c)
  case Nil
  then show ?case by simp
next
  case (Cons msg msgs)
  obtain c1 where c1: "send_to_channels m msg c = Some c1" "conn_inv save c1"
    "settings c1 = settings c" "stores c1 = stores c"
    using send_to_channels_inv [OF assms Cons.prems] by blast
  with Cons.IH [OF c1(2)] show ?case by auto
qed

lemma re_send_inv:
  assumes "mpsc_ok m" and "conn_inv save c"
  shows "\<exists>c'. re_send m now c = Some c' \<and> conn_inv save c' \<and> settings c' = settings c \<and>
    wait_receipt_map c' = filter (\<lambda>(_, v). \<not> re_send_due now v) (wait_receipt_map c) \<and>
    long_sms_cache c' = long_sms_cache c"
proof -
  let ?c = "c\<lparr>wait_receipt_map := filter (\<lambda>(_, v). \<not> re_send_due now v) (wait_receipt_map c)\<rparr>"
  have "conn_inv save ?c" using assms(2) by simp
  from send_all_inv [OF assms(1) this] show ?thesis
    by (force simp: re_send_def Let_def stores_def settings_def)
qed

subsection \<open>Every handler keeps it\<close>

lemma recheck_buff_simps [simp]:
  "send_channels (recheck_buff m ss c) = send_channels c"
  "now_conn_num (recheck_buff m ss c) = now_conn_num c"
  "wait_receipt_map (recheck_buff m ss c) = wait_receipt_map c"
  "long_sms_cache (recheck_buff m ss c) = long_sms_cache c"
  by (induction ss arbitrary: c) (simp_all add: Let_def)

lemma on_submit_resp_inv:
  assumes "mpsc_ok m" and "conn_inv save c"
  shows "\<exists>c'. on_submit_resp m msg c = Some c' \<and> conn_inv save c'"
proof (cases "map_of (wait_receipt_map c) (get_key msg)")
  case None
  then show ?thesis using assms(2) by (simp add: on_submit_resp_def)
next
  case (Some source)
  let ?c = "c\<lparr>wait_receipt_map := AList.delete (get_key msg) (wait_receipt_map c)\<rparr>"
  have c: "conn_inv save ?c" using assms(2) by simp
  have r: "conn_inv save (recheck_buff m ss ?c)" for ss
    by (subst conn_inv_cong [of _ ?c]) (use c in simp_all)
  show ?thesis
    using Some send_to_channels_inv [OF assms(1) c, of source] r c
    by (simp add: on_submit_resp_def Let_def) blast
qed

definition zero_part :: "json \<Rightarrow> bool" where
  "zero_part msg \<longleftrightarrow> as_u8 (idx msg LONG_SMS_NOW_NUMBER) = Some 0"

lemma put_part_total:
  assumes "number \<noteq> 0" and "\<not> number > parts"
  shows "put_part cached parts number msg \<noteq> None"
proof -
  have "unat (number - 1) < unat parts"
    using assms unat_gt_0 [of number]
    by (simp add: unat_sub_if_size word_less_nat_alt word_le_nat_alt Suc_le_eq)
  then show ?thesis by (auto simp: put_part_def Let_def split: option.split)
qed

lemma handle_long_sms_total:
  assumes "\<not> zero_part msg"
  shows "\<exists>joined cache. handle_long_sms msg parts c = Some (joined, c\<lparr>long_sms_cache := cache\<rparr>)"
proof -
  have "handle_long_sms msg parts c \<noteq> None"
  proof (cases "as_u8 (idx msg LONG_SMS_NOW_NUMBER)")
    case None
    then show ?thesis by (simp add: handle_long_sms_def)
  next
    case (Some number)
    with assms have "number \<noteq> 0" by (simp add: zero_part_def)
    then show ?thesis
      using put_part_total [of number parts "map_of (long_sms_cache c) (long_sms_key msg)" msg] Some
      by (auto simp: handle_long_sms_def Let_def)
  qed
  then obtain joined c' where "handle_long_sms msg parts c = Some (joined, c')" by auto
  moreover from handle_long_sms_frame [OF this] obtain cache where "c' = c\<lparr>long_sms_cache := cache\<rparr>" by blast
  ultimately show ?thesis by blast
qed

lemma on_deliver_inv:
  assumes "\<not> zero_part msg" and "conn_inv save c"
  shows "\<exists>c'. on_deliver msg c = Some c' \<and> conn_inv save c'"
proof (cases "as_u8 (idx msg LONG_SMS_TOTAL)")
  case None
  then show ?thesis using assms(2) by (simp add: on_deliver_def)
next
  case (Some parts)
  obtain joined cache where "handle_long_sms msg parts c = Some (joined, c\<lparr>long_sms_cache := cache\<rparr>)"
    using handle_long_sms_total [OF assms(1)] by blast
  then show ?thesis using assms(2) Some by (auto simp: on_deliver_def split: option.split)
qed

lemma on_submit_inv:
  assumes "mpsc_ok m" and "\<not> zero_part msg" and "conn_inv save c"
  shows "\<exists>c'. on_submit m msg c = Some c' \<and> conn_inv save c'"
proof (cases "as_bool (idx msg SPEED_LIMIT) = Some True")
  case True
  then show ?thesis using send_to_channels_inv [OF assms(1,3)] by (auto simp: on_submit_def)
next
  case False
  show ?thesis
  proof (cases "as_u8 (idx msg LONG_SMS_TOTAL)")
    case None
    then show ?thesis using False assms(3) by (simp add: on_submit_def Let_def)
  next
    case (Some parts)
    obtain joined cache where "handle_long_sms msg parts c = Some (joined, c\<lparr>long_sms_cache := cache\<rparr>)"
      using handle_long_sms_total [OF assms(2)] by blast
    then show ?thesis using False assms(3) Some by (auto simp: on_submit_def split: option.split)
  qed
qed

lemma on_terminate_inv:
  assumes "conn_inv save c"
  shows "conn_inv save (on_terminate msg c)"
proof -
  have "conn_inv save (drop_channel k c)" for k
    by (rule conn_inv_shrink [OF assms]) (use assms in \<open>auto simp: conn_inv_def distinct_map_filter\<close>)
  moreover have "conn_inv save (c'\<lparr>state_change_json := j\<rparr>) = conn_inv save c'" for c' :: "'a run_context" and j
    by (simp add: conn_inv_def conn_count_def)
  ultimately show ?thesis using assms by (auto simp: on_terminate_def Let_def split: option.split)
qed

lemma ucast_inj: "ucast (a :: u32) = (ucast b :: u64) \<Longrightarrow> a = b"
proof -
  have *: "uint (ucast w :: u64) = uint w" for w :: u32 by (rule uint_up_ucast) (simp add: is_up)
  assume "ucast a = (ucast b :: u64)"
  then show "a = b" using * [of a] * [of b] by (simp add: word_uint_eq_iff)
qed

lemma on_connect_inv:
  assumes "conn_inv save c" and "on_connect msg save c = (save', c')"
  shows "conn_inv save' c'"
proof (cases "as_u32 (idx msg CHANNEL_ID)")
  case None
  then show ?thesis using assms by (simp add: on_connect_def)
next
  case (Some ind)
  show ?thesis
  proof (cases "map_of save ind")
    case None
    then show ?thesis using assms Some by (simp add: on_connect_def)
  next
    case (Some q)
    obtain p_tx c_tx where q: "q = (p_tx, c_tx)" by (cases q)
    have fresh: "ucast ind \<notin> set (ids c)" using assms(1) Some by (auto simp: conn_inv_def)
    define chan where "chan = \<lparr>cs_id = ucast ind :: u64, is_active = True,
      can_write = (case as_bool (idx msg CAN_WRITE) of Some b \<Rightarrow> b | None \<Rightarrow> True),
      entity_to_channel_priority_tx = p_tx, entity_to_channel_common_tx = c_tx\<rparr>"
    let ?c = "c\<lparr>send_channels := send_channels c @ [chan],
      now_conn_num := of_nat (length (send_channels c @ [chan]))\<rparr>"
    have "conn_inv (AList.delete ind save) ?c"
      using assms(1) fresh ucast_inj
      by (auto simp: conn_inv_def conn_count_def delete_conv chan_def split: if_splits)
    then show ?thesis
      using assms(2) Some q \<open>as_u32 (idx msg CHANNEL_ID) = _\<close>
      by (auto simp: on_connect_def Let_def chan_def split: if_splits)
  qed
qed

lemma on_channel_msg_inv:
  assumes "mpsc_ok m" and "conn_inv save c" and "\<not> zero_part msg"
  shows "\<exists>go save' c'. on_channel_msg m msg ty save c = Some (go, save', c') \<and> conn_inv save' c'"
proof -
  have simple: "conn_inv save (on_sent_deliver msg c)" "conn_inv save (on_report_resp msg c)"
    "conn_inv save (on_deliver_resp msg c)" "conn_inv save (on_report msg c)"
    using assms(2)
    by (simp_all add: on_sent_deliver_def on_report_resp_def on_deliver_resp_def on_report_def Let_def split: option.split)
  obtain save' c' where connect: "on_connect msg save c = (save', c')" by (cases "on_connect msg save c")
  then have "conn_inv save' c'" using on_connect_inv [OF assms(2)] by blast
  then show ?thesis
    unfolding on_channel_msg_def Let_def
    using on_submit_resp_inv [OF assms(1,2), of msg] on_submit_inv [OF assms(1,3,2)]
      on_deliver_inv [OF assms(3,2)] on_terminate_inv [OF assms(2), of msg] simple assms(2) connect
    by (cases ty) auto
qed

lemma handle_from_channel_rx_inv:
  assumes "mpsc_ok m" and "conn_inv save c" and "pred_option (\<lambda>msg. \<not> zero_part msg) msg"
  shows "\<exists>go save' c'. handle_from_channel_rx m now msg save c = Some (go, save', c') \<and> conn_inv save' c'"
proof (cases msg)
  case None
  then show ?thesis using assms(2) by (auto simp: handle_from_channel_rx_def)
next
  case (Some j)
  then have "\<not> zero_part (received (entity_id c) now j)" using assms(3) by (simp add: zero_part_def)
  then show ?thesis
    using on_channel_msg_inv [OF assms(1,2)] assms(2) Some
    by (auto simp: handle_from_channel_rx_def Let_def split: option.split)
qed

lemma handle_from_manager_rx_inv:
  assumes "mpsc_ok m" and "conn_inv save c"
  shows "\<exists>go c'. handle_from_manager_rx m msg c = Some (go, c') \<and> conn_inv save c'"
proof -
  have "ids (c\<lparr>send_channels := close_channels m (send_channels c)\<rparr>) = ids c"
    by (simp add: close_channels_def comp_def)
  then have "conn_inv save (c\<lparr>send_channels := close_channels m (send_channels c)\<rparr>)"
    using assms(2) by (simp add: conn_inv_def conn_count_def close_channels_def comp_def)
  then show ?thesis
    using assms(2) send_to_channels_inv [OF assms]
    by (auto simp: handle_from_manager_rx_def split: option.split)
qed

subsection \<open>The machine\<close>

text \<open>
  A step is a turn of the loop, or a login that leaves the two queues of its connection in
  \<open>TEMP_SAVE\<close> under a fresh sequence number.  After the loop has returned there are no turns.
\<close>

datatype 'q task_event = Turn "nat \<Rightarrow> int" wake | Attach u32 'q 'q

type_synonym 'q task_state = "bool \<times> timers \<times> 'q temp_save \<times> 'q run_context"

fun task_step :: "'q mpsc \<Rightarrow> 'q task_event \<Rightarrow> 'q task_state \<Rightarrow> 'q task_state option" where
  "task_step m (Turn now wake) (go, t, save, c) = entity_turn m now wake (t, save, c)"
| "task_step m (Attach ind p q) (go, t, save, c) = Some (go, t, AList.update ind (p, q) save, c)"

fun task_may :: "'q task_event \<Rightarrow> 'q task_state \<Rightarrow> bool" where
  "task_may (Turn now wake) (go, t, save, c) =
     (go \<and> (case wake of FromChannel (Some msg) \<Rightarrow> \<not> zero_part msg | _ \<Rightarrow> True))"
| "task_may (Attach ind p q) (go, t, save, c) = (ucast ind \<notin> set (ids c))"

definition task_inv :: "'q mpsc \<Rightarrow> 'q task_state \<Rightarrow> bool" where
  "task_inv m = (\<lambda>(go, t, save, c). mpsc_ok m \<and> conn_inv save c)"

lemma entity_turn_inv:
  assumes "mpsc_ok m" and "conn_inv save c"
    and "case wake of FromChannel (Some msg) \<Rightarrow> \<not> zero_part msg | _ \<Rightarrow> True"
  shows "\<exists>go t' save' c'. entity_turn m now wake (t, save, c) = Some (go, t', save', c') \<and> conn_inv save' c'"
proof -
  let ?tc = "clear_turn now (clear_msg_turn now (t, c))"
  have "conn_inv save (snd ?tc)" using assms(2) by (simp add: clear_turn_def clear_msg_turn_def)
  then have "\<exists>t1 c1. re_send_turn m now ?tc = Some (t1, c1) \<and> conn_inv save c1"
    using re_send_inv [OF assms(1), of save "snd ?tc" "now 7"]
    by (cases ?tc) (auto simp: re_send_turn_def)
  then obtain t1 c1 where re: "re_send_turn m now ?tc = Some (t1, c1)" and c1: "conn_inv save c1"
    by blast
  show ?thesis
    using handle_from_manager_rx_inv [OF assms(1) c1] c1 assms(3)
      handle_from_channel_rx_inv [OF assms(1) c1, of _ "now 9"]
    by (fastforce simp: entity_turn_def re split: wake.splits option.splits)
qed

interpretation task: live_machine "task_step m" task_may "task_inv m"
proof unfold_locales
  fix s t :: "'a task_state" and e
  assume "task_inv m s" and "task_may e s"
  moreover obtain go tm save c where s: "s = (go, tm, save, c)" by (cases s)
  ultimately have inv: "mpsc_ok m" "conn_inv save c" and may: "task_may e (go, tm, save, c)"
    by (simp_all add: task_inv_def)
  have "\<exists>t. task_step m e s = Some t \<and> task_inv m t"
  proof (cases e)
    case (Turn now wake)
    then show ?thesis using entity_turn_inv [OF inv, of wake now tm] may s inv(1) by (auto simp: task_inv_def)
  next
    case (Attach ind p q)
    then have "conn_inv (AList.update ind (p, q) save) c"
      using inv(2) may by (auto simp: conn_inv_def update_conv)
    then show ?thesis using Attach s inv(1) by (simp add: task_inv_def)
  qed
  then show "\<exists>t. task_step m e s = Some t" "task_step m e s = Some t \<Longrightarrow> task_inv m t" by auto
qed

text \<open>C12: the task of an account goes through every run of messages, sleeps and logins without a
  panic, as long as no peer numbers a part zero and sequence numbers are fresh; and at its end the
  count of connections it publishes is their number (as a byte) and they are distinct.\<close>

theorem task_never_panics:
  assumes "mpsc_ok m"
    and "may_run (task_step m) task_may es (True, t, [], start_context eid service sp node 0 etype cap limit)"
  shows "\<exists>go t' save c. run (task_step m) es (True, t, [], start_context eid service sp node 0 etype cap limit) =
      Some (go, t', save, c) \<and>
    now_conn_num c = of_nat (length (send_channels c)) \<and> distinct (map cs_id (send_channels c))"
proof -
  have "task_inv m (True, t, [], start_context eid service sp node 0 etype cap limit)"
    using assms(1) by (simp add: task_inv_def conn_inv_def conn_count_def start_context_def Let_def)
  from task.run_total [OF assms(2) this] show ?thesis
    by (auto simp: task_inv_def conn_inv_def conn_count_def)
qed

definition demo_connect :: json where
  "demo_connect = JObj [(MSG_TYPE_STR, JStr ''Connect''), (CHANNEL_ID, JNum 5), (CAN_WRITE, JBool True)]"

definition demo_timers :: timers where
  "demo_timers = \<lparr>clear_msg_timestamp = 0, clear_timestamp = 0, re_send_timestamp = 0\<rparr>"

lemma task_never_panics_witness:
  "\<exists>go t' save c. run (task_step demo_mpsc)
      [Attach 5 (True, []) (True, []), Turn (\<lambda>_. 0) (FromChannel (Some demo_connect))]
      (True, demo_timers, [], start_context 9 ''svc'' ''901234'' 3 0 Custom 0 200) = Some (go, t', save, c) \<and>
     now_conn_num c = of_nat (length (send_channels c))"
proof -
  have "may_run (task_step demo_mpsc) task_may
      [Attach 5 (True, []) (True, []), Turn (\<lambda>_. 0) (FromChannel (Some demo_connect))]
      (True, demo_timers, [], start_context 9 ''svc'' ''901234'' 3 0 Custom 0 200)"
    by (simp add: start_context_def Let_def zero_part_def demo_connect_def split: option.split)
  from task_never_panics [OF demo_mpsc_ok this] show ?thesis by auto
qed

end
