(* ===== verification/Receipts.thy ===== *)
theory Receipts
  imports Tasks "HOL-Library.Multiset"
begin

text \<open>
  Receipts: a submit message that was sent in several units waits under the sequence number of
  each, and every receipt is published with the id the customer knows the unit by; what is overdue
  is queued again once and only that, counted as a multiset of messages.
\<close>

subsection \<open>Filing a sent message\<close>

text \<open>A sent submit message as the connection hands it back.\<close>

definition sent_submit :: "u32 list \<Rightarrow> string list \<Rightarrow> json \<Rightarrow> bool" where
  "sent_submit seqs msg_ids msg \<longleftrightarrow>
     as_str (idx msg MSG_TYPE_STR) = Some ''Submit'' \<and> as_bool (idx msg WAIT_RECEIPT) = Some True \<and>
     idx msg SEQ_IDS = nums seqs \<and> idx msg MSG_IDS = strs msg_ids \<and>
     seqs \<noteq> [] \<and> length seqs \<le> length msg_ids \<and> distinct seqs"

definition part_entry :: "string list \<Rightarrow> json \<Rightarrow> nat \<Rightarrow> json" where
  "part_entry msg_ids json i =
     setk (setk json NEED_RE_SEND (JBool (i = 0))) ACCOUNT_MSG_ID (JStr (msg_ids ! i))"

lemma insert_parts_fold:
  fixes seqs :: "u32 list"
  assumes "idx json SEQ_IDS = nums seqs" and "idx json MSG_IDS = strs msg_ids"
    and "length seqs \<le> length msg_ids"
  shows "set is \<subseteq> {..<length seqs} \<Longrightarrow> insert_parts json is wait =
    fold (\<lambda>(k, v). AList.update k v) (map (\<lambda>i. (ucast (seqs ! i), part_entry msg_ids json i)) is) wait"
proof (induction "is" arbitrary: wait)
  case Nil
  then show ?case by simp
next
  case (Cons i "is")
  then have i: "i < length seqs" "i < length msg_ids" using assms(3) by auto
  then have "as_u64 (idx_n (idx json SEQ_IDS) i) = Some (ucast (seqs ! i))"
    "as_str (idx_n (idx json MSG_IDS) i) = Some (msg_ids ! i)"
    using assms(1,2) by simp_all
  with Cons show ?case by (simp add: part_entry_def Let_def)
qed

lemma insert_into_wait_receipt_lookup:
  assumes "sent_submit seqs msg_ids msg"
  shows "i < length seqs \<Longrightarrow>
      map_of (insert_into_wait_receipt msg wait) (ucast (seqs ! i)) = Some (part_entry msg_ids msg i)"
    and "k \<notin> ucast ` set seqs \<Longrightarrow> map_of (insert_into_wait_receipt msg wait) k = map_of wait k"
proof -
  let ?kvs = "map (\<lambda>i. (ucast (seqs ! i) :: u64, part_entry msg_ids msg i)) [0..<length seqs]"
  have f: "insert_into_wait_receipt msg wait = fold (\<lambda>(k, v). AList.update k v) ?kvs wait"
    using assms insert_parts_fold [of msg seqs msg_ids "[0..<length seqs]" wait]
    by (auto simp: insert_into_wait_receipt_def sent_submit_def atLeast0LessThan)
  have "distinct (map (ucast :: u32 \<Rightarrow> u64) seqs)"
    using assms ucast_inj by (auto simp: sent_submit_def distinct_map inj_on_def)
  moreover have keys: "map fst ?kvs = map ucast seqs" by (auto intro: nth_equalityI)
  ultimately have d: "distinct (map fst ?kvs)" by simp
  show "map_of (insert_into_wait_receipt msg wait) (ucast (seqs ! i)) = Some (part_entry msg_ids msg i)"
    if "i < length seqs"
    unfolding f by (rule amap.fold_insert_distinct [OF d]) (use that in force)
  show "map_of (insert_into_wait_receipt msg wait) k = map_of wait k" if "k \<notin> ucast ` set seqs"
    unfolding f by (rule amap.fold_insert_other)
      (use that keys in \<open>metis (no_types, lifting) image_set list.set_map\<close>)
qed

subsection \<open>Receipts in any order\<close>

definition submit_receipt :: "u32 \<Rightarrow> json \<Rightarrow> bool" where
  "submit_receipt seq resp \<longleftrightarrow>
     as_str (idx resp MSG_TYPE_STR) = Some ''SubmitResp'' \<and> idx resp SEQ_ID = num seq \<and>
     as_bool (idx resp SPEED_LIMIT) \<noteq> Some True"

text \<open>The receipts published: the id the customer has, and the id the operator gave.\<close>

definition receipts :: "event list \<Rightarrow> (json \<times> json) list" where
  "receipts es = map (\<lambda>(t, k, j). (idx j ACCOUNT_MSG_ID, idx j PASSAGE_MSG_ID))
     (filter (\<lambda>(t, k, j). t = TOPIC_TO_B_SUBMIT_RESP) es)"

lemma receipts_append [simp]: "receipts (xs @ ys) = receipts xs @ receipts ys"
  by (simp add: receipts_def)

lemma receipts_state [simp]: "receipts [(state_topic t, k, j)] = []"
  by (simp add: receipts_def state_topic_def split: EntityType.split)

lemma recheck_buff_receipts [simp]: "receipts (to_queue (recheck_buff m ss c)) = receipts (to_queue c)"
  by (induction ss arbitrary: c) (simp_all add: Let_def)

lemma receipt_published:
  assumes "submit_receipt seq resp" and "map_of (wait_receipt_map c) (ucast seq) = Some source"
  shows "\<exists>c'. handle_from_channel_rx m now (Some resp) save c = Some (True, save, c') \<and>
    receipts (to_queue c') = receipts (to_queue c) @ [(idx source ACCOUNT_MSG_ID, idx resp MSG_ID)] \<and>
    map_of (wait_receipt_map c') = (map_of (wait_receipt_map c)) (ucast seq := None)"
proof -
  let ?r = "received (entity_id c) now resp"
  have k: "get_key ?r = ucast seq" using assms(1) by (simp add: submit_receipt_def get_key_def)
  have n: "msg_type_from_str ''SubmitResp'' = SubmitResp" by (simp add: msg_type_from_str_def lookup_or_def)
  show ?thesis
    using assms k
    by (simp add: handle_from_channel_rx_def on_channel_msg_def submit_receipt_def on_submit_resp_def Let_def n
        receipts_def [of "[_]"] strip_internal_def delete_conv fun_eq_iff)
qed

lemma receipts_in_order:
  assumes "\<And>i. i \<in> set order \<Longrightarrow> submit_receipt (seqs ! i) (resp i)"
    and "distinct seqs" and "distinct order" and "set order \<subseteq> {..<length seqs}"
    and "\<And>i. i \<in> set order \<Longrightarrow> \<exists>e. map_of (wait_receipt_map c) (ucast (seqs ! i)) = Some e \<and>
      idx e ACCOUNT_MSG_ID = JStr (msg_ids ! i)"
  shows "\<exists>c'. receive_all m (map (\<lambda>i. (t i, resp i)) order) save c = Some (save, c') \<and>
    receipts (to_queue c') = receipts (to_queue c) @
      map (\<lambda>i. (JStr (msg_ids ! i), idx (resp i) MSG_ID)) order \<and>
    map_of (wait_receipt_map c') = (map_of (wait_receipt_map c)) |` (- (\<lambda>i. ucast (seqs ! i)) ` set order)"
  using assms
proof (induction order arbitrary: c)
  case Nil
  then show ?case by simp
next
  case (Cons i order)
  let ?k = "\<lambda>i. ucast (seqs ! i) :: u64"
  obtain e where e: "map_of (wait_receipt_map c) (?k i) = Some e" "idx e ACCOUNT_MSG_ID = JStr (msg_ids ! i)"
    using Cons.prems(5) by auto
  obtain c1 where c1: "handle_from_channel_rx m (t i) (Some (resp i)) save c = Some (True, save, c1)"
    "receipts (to_queue c1) = receipts (to_queue c) @ [(JStr (msg_ids ! i), idx (resp i) MSG_ID)]"
    "map_of (wait_receipt_map c1) = (map_of (wait_receipt_map c)) (?k i := None)"
    using receipt_published [OF Cons.prems(1) e(1), where m = m and now = "t i" and save = save] e(2) by auto
  have ne: "?k j \<noteq> ?k i" if "j \<in> set order" for j
  proof
    assume "?k j = ?k i"
    then have "seqs ! j = seqs ! i" by (rule ucast_inj)
    with that Cons.prems(2-4) show False by (auto simp: nth_eq_iff_index_eq)
  qed
  have pre: "\<exists>e. map_of (wait_receipt_map c1) (?k j) = Some e \<and> idx e ACCOUNT_MSG_ID = JStr (msg_ids ! j)"
    if "j \<in> set order" for j
    using Cons.prems(5) [of j] that ne [OF that] by (simp add: c1(3))
  obtain c' where "receive_all m (map (\<lambda>i. (t i, resp i)) order) save c1 = Some (save, c')"
    "receipts (to_queue c') = receipts (to_queue c1) @ map (\<lambda>i. (JStr (msg_ids ! i), idx (resp i) MSG_ID)) order"
    "map_of (wait_receipt_map c') = (map_of (wait_receipt_map c1)) |` (- ?k ` set order)"
    using Cons.IH [of c1] Cons.prems(1-4) pre by auto
  then show ?case
    using c1 by (auto simp: restrict_map_def fun_eq_iff)
qed

lemma sent_submit_received [simp]: "sent_submit seqs msg_ids (received eid now msg) = sent_submit seqs msg_ids msg"
  by (simp add: sent_submit_def)

lemma handle_sent_submit:
  assumes "sent_submit seqs msg_ids msg"
  shows "handle_from_channel_rx m now (Some msg) save c = Some (True, save, c\<lparr>wait_receipt_map :=
    insert_into_wait_receipt (received (entity_id c) now msg) (wait_receipt_map c)\<rparr>)"
  using assms
  by (simp add: handle_from_channel_rx_def on_channel_msg_def sent_submit_def Let_def msg_type_from_str_def lookup_or_def)

text \<open>The receipts for the units of a sent message are matched whatever their order: each is
  published with the customer's id of that unit and the operator's id, the units answered stop
  waiting, the others keep waiting, and no other message is touched.\<close>

theorem receipts_matched:
  assumes "sent_submit seqs msg_ids msg" and "list_all (\<lambda>i. submit_receipt (seqs ! i) (resp i)) order"
    and "distinct order" and "set order \<subseteq> {..<length seqs}"
  shows "\<exists>c'. receive_all m ((t0, msg) # map (\<lambda>i. (t i, resp i)) order) save c = Some (save, c') \<and>
    receipts (to_queue c') = receipts (to_queue c) @ map (\<lambda>i. (JStr (msg_ids ! i), idx (resp i) MSG_ID)) order \<and>
    (\<forall>i < length seqs. map_of (wait_receipt_map c') (ucast (seqs ! i)) = None \<longleftrightarrow> i \<in> set order) \<and>
    (\<forall>k. k \<notin> ucast ` set seqs \<longrightarrow> map_of (wait_receipt_map c') k = map_of (wait_receipt_map c) k)"
proof -
  let ?msg = "received (entity_id c) t0 msg"
  let ?c = "c\<lparr>wait_receipt_map := insert_into_wait_receipt ?msg (wait_receipt_map c)\<rparr>"
  have s: "sent_submit seqs msg_ids ?msg" and d: "distinct seqs" using assms(1) by (simp_all add: sent_submit_def)
  note look = insert_into_wait_receipt_lookup [OF s]
  have "\<exists>e. map_of (wait_receipt_map ?c) (ucast (seqs ! i)) = Some e \<and> idx e ACCOUNT_MSG_ID = JStr (msg_ids ! i)"
    if "i \<in> set order" for i
    using look(1) that assms(4) by (auto simp: part_entry_def)
  moreover have "submit_receipt (seqs ! i) (resp i)" if "i \<in> set order" for i
    using assms(2) that by (simp add: list_all_iff)
  ultimately obtain c' where c': "receive_all m (map (\<lambda>i. (t i, resp i)) order) save ?c = Some (save, c')"
    "receipts (to_queue c') = receipts (to_queue ?c) @ map (\<lambda>i. (JStr (msg_ids ! i), idx (resp i) MSG_ID)) order"
    and w: "map_of (wait_receipt_map c') = (map_of (wait_receipt_map ?c)) |` (- (\<lambda>i. ucast (seqs ! i)) ` set order)"
    using receipts_in_order [OF _ d assms(3,4), of resp ?c msg_ids m t save] by blast
  have u: "ucast (seqs ! i) \<in> (\<lambda>i. ucast (seqs ! i) :: u64) ` set order \<longleftrightarrow> i \<in> set order" if "i < length seqs" for i
    using that assms(4) d by (auto simp: nth_eq_iff_index_eq dest!: ucast_inj)
  have "map_of (wait_receipt_map c') (ucast (seqs ! i)) = None \<longleftrightarrow> i \<in> set order" if "i < length seqs" for i
    using u [OF that] look(1) [OF that] by (simp add: w restrict_map_def)
  moreover have "map_of (wait_receipt_map c') k = map_of (wait_receipt_map c) k" if "k \<notin> ucast ` set seqs" for k
  proof -
    have "k \<notin> (\<lambda>i. ucast (seqs ! i)) ` set order" using that assms(4) by auto
    then show ?thesis using look(2) [OF that] by (simp add: w restrict_map_def)
  qed
  ultimately show ?thesis
    using c' handle_sent_submit [OF assms(1), of m t0 save c] by auto
qed

definition demo_sent :: json where
  "demo_sent = JObj [(MSG_TYPE_STR, JStr ''Submit''), (WAIT_RECEIPT, JBool True),
     (SEQ_IDS, nums [7, 8 :: u32]), (MSG_IDS, strs [''a'', ''b''])]"

definition demo_receipt :: "u32 \<Rightarrow> json" where
  "demo_receipt seq = JObj [(MSG_TYPE_STR, JStr ''SubmitResp''), (SEQ_ID, num seq), (MSG_ID, JStr ''x'')]"

lemma demo_sent_ok: "sent_submit [7, 8] [''a'', ''b''] demo_sent"
  by (simp add: sent_submit_def demo_sent_def)

lemma receipts_matched_witness:
  "\<exists>c'. receive_all demo_mpsc [(0, demo_sent), (1, demo_receipt 8)] [] (demo_context Server 0 []) = Some ([], c') \<and>
     receipts (to_queue c') = [(JStr ''b'', JStr ''x'')] \<and>
     map_of (wait_receipt_map c') 7 \<noteq> None \<and> map_of (wait_receipt_map c') 8 = None"
proof -
  have r: "list_all (\<lambda>i. submit_receipt ([7, 8] ! i) (demo_receipt ([7, 8] ! i))) [1]"
    by (simp add: submit_receipt_def demo_receipt_def)
  obtain c' where c': "receive_all demo_mpsc [(0, demo_sent), (1, demo_receipt 8)] [] (demo_context Server 0 []) = Some ([], c')"
    "receipts (to_queue c') = [(JStr ''b'', JStr ''x'')]"
    and w: "\<forall>i < 2. map_of (wait_receipt_map c') (ucast ([7 :: u32, 8] ! i)) = None \<longleftrightarrow> i \<in> {1}"
    using receipts_matched [OF demo_sent_ok r, where m = demo_mpsc and ?t0.0 = 0 and t = "\<lambda>_. 1" and save = "[]"
        and c = "demo_context Server 0 []"]
    by (auto simp: receipts_def demo_receipt_def)
  have "map_of (wait_receipt_map c') 7 \<noteq> None \<and> map_of (wait_receipt_map c') 8 = None"
    using w [rule_format, of 0] w [rule_format, of 1] by simp
  with c' show ?thesis by blast
qed

subsection \<open>Sending again\<close>

definition queued_all :: "'q mpsc \<Rightarrow> 'q run_context \<Rightarrow> nat" where
  "queued_all m c = sum_list (map (queued m) (send_channels c))"

lemma send_open_total:
  assumes "mpsc_ok m" and "all_open m c" and "send_channels c \<noteq> []"
  shows "\<exists>c'. send_to_channels m msg c = Some c' \<and> all_open m c' \<and> send_channels c' \<noteq> [] \<and>
    queued_all m c' = Suc (queued_all m c)"
proof -
  obtain c' s' where c': "send_to_channels m msg c = Some c'" "all_open m c'"
    and ch: "send_channels c' = (send_channels c)[unat (index c') mod length (send_channels c) := s']"
    and q: "queued m s' = Suc (queued m (send_channels c ! (unat (index c') mod length (send_channels c))))"
    using send_open [OF assms, of msg] by (auto simp: Let_def)
  let ?i = "unat (index c') mod length (send_channels c)"
  have i: "?i < length (send_channels c)" using assms(3) by simp
  have "sum_list ((map (queued m) (send_channels c))[?i := queued m s']) = Suc (queued_all m c)"
    using i q by (simp add: sum_list_update queued_all_def)
  then have "queued_all m c' = Suc (queued_all m c)" by (simp add: queued_all_def ch map_update)
  with c' assms(3) ch show ?thesis by auto
qed

lemma send_all_total:
  assumes "mpsc_ok m"
  shows "all_open m c \<Longrightarrow> send_channels c \<noteq> [] \<Longrightarrow>
    \<exists>c'. send_all m msgs c = Some c' \<and> queued_all m c' = queued_all m c + length msgs"
proof (induction msgs arbitrary: c)
  case Nil
  then show ?case by simp
next
  case (Cons msg msgs)
  obtain c1 where c1: "send_to_channels m msg c = Some c1" "all_open m c1" "send_channels c1 \<noteq> []"
    "queued_all m c1 = Suc (queued_all m c)"
    using send_open_total [OF assms Cons.prems] by blast
  with Cons.IH [OF c1(2,3)] show ?case by auto
qed

lemma stores_update [simp]:
  "stores (c\<lparr>index := i\<rparr>) = stores c" "stores (c\<lparr>send_channels := chans\<rparr>) = stores c"
  by (simp_all add: stores_def)

lemma send_loop_stores: "send_loop m p n v c = Some (left, c') \<Longrightarrow> stores c' = stores c"
proof (induction n arbitrary: c)
  case 0
  then show ?case by simp
next
  case (Suc n)
  show ?case
    using Suc.prems by (auto simp: Let_def split_def split: if_splits dest!: Suc.IH)
qed

lemma send_to_channels_stores: "send_to_channels m msg c = Some c' \<Longrightarrow> stores c' = stores c"
  by (auto simp: send_to_channels_def Let_def bind_eq_Some dest!: send_loop_stores split: option.splits)

lemma send_all_stores: "send_all m msgs c = Some c' \<Longrightarrow> stores c' = stores c"
  by (induction msgs arbitrary: c) (auto simp: bind_eq_Some dest: send_to_channels_stores)

text \<open>What the priority queues, or the common queues, of all connections hold together.\<close>

definition held :: "'q mpsc \<Rightarrow> bool \<Rightarrow> 'q run_context \<Rightarrow> json multiset" where
  "held m pr c = (\<Sum>s \<leftarrow> send_channels c. mset (mpsc_contents m (sender pr s)))"

lemma handed_held:
  assumes "handed m p v (send_channels c) (send_channels c')"
  shows "held m pr c' = held m pr c + mset (if pr = p then [v] else [])"
proof -
  obtain xs s ys q where h: "send_channels c = xs @ s # ys" "send_channels c' = xs @ set_sender p q s # ys"
    "mpsc_contents m q = mpsc_contents m (sender p s) @ [v]"
    using assms by (auto simp: handed_def)
  have "mset (mpsc_contents m (sender pr (set_sender p q s))) =
      mset (mpsc_contents m (sender pr s)) + mset (if pr = p then [v] else [])"
    using h(3) by (cases pr; cases p) (simp_all add: sender_def set_sender_def)
  with h(1,2) show ?thesis by (simp add: held_def)
qed

lemma stamp_settings: "settings c' = settings c \<Longrightarrow> stamp_msg c' = stamp_msg c"
  by (simp add: settings_def stamp_msg_def fun_eq_iff Let_def)

lemma send_all_held:
  assumes "mpsc_ok m"
  shows "all_open m c \<Longrightarrow> send_channels c \<noteq> [] \<Longrightarrow>
    \<exists>c'. send_all m msgs c = Some c' \<and> failures (to_queue c') = failures (to_queue c) \<and>
      (\<forall>pr. held m pr c' = held m pr c + mset (map (stamp_msg c) (filter (\<lambda>v. is_priority v = pr) msgs)))"
proof (induction msgs arbitrary: c)
  case Nil
  then show ?case by simp
next
  case (Cons msg msgs)
  obtain c1 where c1: "send_to_channels m msg c = Some c1" "all_open m c1" "settings c1 = settings c"
    "failures (to_queue c1) = failures (to_queue c)"
    "handed m (is_priority msg) (stamp_msg c msg) (send_channels c) (send_channels c1)"
    using send_open_at [OF assms Cons.prems, of msg] by blast
  have "send_channels c1 \<noteq> []" using c1(5) by (auto simp: handed_def)
  with Cons.IH [OF c1(2)] obtain c' where c': "send_all m msgs c1 = Some c'" "failures (to_queue c') = failures (to_queue c1)"
    "\<And>pr. held m pr c' = held m pr c1 + mset (map (stamp_msg c1) (filter (\<lambda>v. is_priority v = pr) msgs))" by blast
  have "held m pr c' = held m pr c + mset (map (stamp_msg c) (filter (\<lambda>v. is_priority v = pr) (msg # msgs)))" for pr
    using c'(3) [of pr] handed_held [OF c1(5), of pr] by (simp add: stamp_settings [OF c1(3)])
  with c1(1,4) c'(1,2) show ?case by simp
qed

text \<open>C27: while its connections are open and may write and there is one, a turn of resending of an account takes exactly
  the overdue messages out of the waiting ones; each of them, stamped, is queued once, for priority if it
  is marked so, nothing else is queued or taken from a queue, nothing is published as failed, and the rest
  wait on.\<close>

theorem re_send_exact:
  assumes "mpsc_ok m" and "all_open m c" and "send_channels c \<noteq> []"
  shows "\<exists>c'. re_send m now c = Some c' \<and>
    (\<forall>pr. held m pr c' = held m pr c +
       image_mset (stamp_msg c) (mset (filter (\<lambda>v. re_send_due now v \<and> is_priority v = pr) (map snd (wait_receipt_map c))))) \<and>
    failures (to_queue c') = failures (to_queue c) \<and>
    wait_receipt_map c' = filter (\<lambda>(_, v). \<not> re_send_due now v) (wait_receipt_map c)"
proof -
  let ?c = "c\<lparr>wait_receipt_map := filter (\<lambda>(_, v). \<not> re_send_due now v) (wait_receipt_map c)\<rparr>"
  let ?due = "rev (map snd (filter (\<lambda>(_, v). re_send_due now v) (wait_receipt_map c)))"
  obtain c' where c': "send_all m ?due ?c = Some c'" "failures (to_queue c') = failures (to_queue ?c)"
    "\<And>pr. held m pr c' = held m pr ?c + mset (map (stamp_msg ?c) (filter (\<lambda>v. is_priority v = pr) ?due))"
    using send_all_held [OF assms(1), of ?c ?due] assms(2,3) by (auto simp: all_open_def)
  have "stores c' = stores ?c" by (rule send_all_stores [OF c'(1)])
  moreover have "stamp_msg ?c = stamp_msg c" by (rule stamp_settings) (simp add: settings_def)
  moreover have "map snd (filter (\<lambda>(_, v). re_send_due now v) ws) = filter (re_send_due now) (map snd ws)" for ws :: "(u64 \<times> json) list"
    by (simp add: filter_map comp_def split_def)
  moreover have "held m pr ?c = held m pr c" for pr by (simp add: held_def)
  ultimately show ?thesis
    using c' by (simp add: re_send_def Let_def stores_def rev_filter conj_commute)
qed

lemma re_send_exact_witness:
  "\<exists>c'. re_send demo_mpsc 100 ((demo_context Server 0 [demo_channel 1 True True])
      \<lparr>wait_receipt_map := [(7, new_object), (8, setk new_object NEED_RE_SEND (JBool False))]\<rparr>) = Some c' \<and>
     held demo_mpsc True c' = {#} \<and> held demo_mpsc False c' = {#stamp_msg (demo_context Server 0 []) new_object#} \<and>
     map fst (wait_receipt_map c') = [8]"
proof -
  let ?c = "(demo_context Server 0 [demo_channel 1 True True])
    \<lparr>wait_receipt_map := [(7, new_object), (8, setk new_object NEED_RE_SEND (JBool False))]\<rparr>"
  have "mpsc_ok demo_mpsc" "all_open demo_mpsc ?c" "send_channels ?c \<noteq> []"
    by (simp_all add: all_open_def demo_channel_def)
  moreover have "stamp_msg ?c = stamp_msg (demo_context Server 0 [])"
    by (simp add: stamp_msg_def demo_context_def start_context_def Let_def fun_eq_iff)
  moreover have "held demo_mpsc pr ?c = {#}" for pr by (simp add: held_def demo_channel_def sender_def)
  ultimately show ?thesis
    using re_send_exact [of demo_mpsc ?c 100]
    by (auto simp: re_send_due_def i64_add_small is_priority_def)
qed

subsection \<open>Speed limits\<close>

definition limit_receipt :: "u32 \<Rightarrow> json \<Rightarrow> bool" where
  "limit_receipt seq resp \<longleftrightarrow>
     as_str (idx resp MSG_TYPE_STR) = Some ''SubmitResp'' \<and> idx resp SEQ_ID = num seq \<and>
     as_bool (idx resp SPEED_LIMIT) = Some True"

lemma limit_receipt_sends:
  assumes "mpsc_ok m" and "all_open m c" and "send_channels c \<noteq> []"
    and "limit_receipt seq resp" and "map_of (wait_receipt_map c) (ucast seq) = Some source"
  shows "\<exists>c'. handle_from_channel_rx m now (Some resp) save c = Some (True, save, c') \<and>
    all_open m c' \<and> send_channels c' \<noteq> [] \<and> queued_all m c' = Suc (queued_all m c) \<and>
    map_of (wait_receipt_map c') = (map_of (wait_receipt_map c)) (ucast seq := None)"
proof -
  let ?r = "received (entity_id c) now resp"
  let ?c = "c\<lparr>wait_receipt_map := AList.delete (ucast seq) (wait_receipt_map c)\<rparr>"
  have "get_key ?r = ucast seq" using assms(4) by (simp add: limit_receipt_def get_key_def)
  moreover have "msg_type_from_str ''SubmitResp'' = SubmitResp" by (simp add: msg_type_from_str_def lookup_or_def)
  ultimately have h: "handle_from_channel_rx m now (Some resp) save c =
      map_option (\<lambda>c. (True, save, c)) (send_to_channels m source ?c)"
    using assms(4,5)
    by (simp add: handle_from_channel_rx_def on_channel_msg_def limit_receipt_def on_submit_resp_def Let_def)
  obtain c' where c': "send_to_channels m source ?c = Some c'" "all_open m c'" "send_channels c' \<noteq> []"
    "queued_all m c' = Suc (queued_all m ?c)"
    using send_open_total [OF assms(1), of ?c source] assms(2,3) by (auto simp: all_open_def)
  have "stores c' = stores ?c"
    by (rule send_to_channels_stores [OF c'(1)])
  with h c' show ?thesis by (simp add: stores_def queued_all_def delete_conv fun_eq_iff)
qed

lemma limit_receipts_send:
  assumes "mpsc_ok m" and "distinct seqs"
  shows "all_open m c \<Longrightarrow> send_channels c \<noteq> [] \<Longrightarrow> distinct order \<Longrightarrow> set order \<subseteq> {..<length seqs} \<Longrightarrow>
    (\<And>i. i \<in> set order \<Longrightarrow> limit_receipt (seqs ! i) (resp i) \<and>
       map_of (wait_receipt_map c) (ucast (seqs ! i)) \<noteq> None) \<Longrightarrow>
    \<exists>c'. receive_all m (map (\<lambda>i. (t i, resp i)) order) save c = Some (save, c') \<and>
      queued_all m c' = queued_all m c + length order"
proof (induction order arbitrary: c)
  case Nil
  then show ?case by simp
next
  case (Cons i order)
  let ?k = "\<lambda>i. ucast (seqs ! i) :: u64"
  obtain c1 where c1: "handle_from_channel_rx m (t i) (Some (resp i)) save c = Some (True, save, c1)"
    "all_open m c1" "send_channels c1 \<noteq> []" "queued_all m c1 = Suc (queued_all m c)"
    "map_of (wait_receipt_map c1) = (map_of (wait_receipt_map c)) (?k i := None)"
    using limit_receipt_sends [OF assms(1) Cons.prems(1,2), of "seqs ! i" "resp i" _ "t i" save] Cons.prems(5) [of i]
    by auto
  have "limit_receipt (seqs ! j) (resp j) \<and> map_of (wait_receipt_map c1) (?k j) \<noteq> None" if "j \<in> set order" for j
  proof -
    have "?k j \<noteq> ?k i"
    proof
      assume "?k j = ?k i"
      then have "seqs ! j = seqs ! i" by (rule ucast_inj)
      with that Cons.prems(3,4) assms(2) show False by (auto simp: nth_eq_iff_index_eq)
    qed
    then show ?thesis using Cons.prems(5) [of j] that by (simp add: c1(5))
  qed
  then obtain c' where "receive_all m (map (\<lambda>i. (t i, resp i)) order) save c1 = Some (save, c')"
    "queued_all m c' = queued_all m c1 + length order"
    using Cons.IH [OF c1(2,3)] Cons.prems(3,4) by auto
  then show ?case using c1 by auto
qed

text \<open>When the operator answers every unit of a message of \<open>n\<close> units with the speed limit, the
  message is queued \<open>n\<close> times, each time with all its units.\<close>

theorem speed_limit_duplicates:
  assumes "mpsc_ok m" and "all_open m c" and "send_channels c \<noteq> []"
    and "sent_submit seqs msg_ids msg" and "\<And>i. i < length seqs \<Longrightarrow> limit_receipt (seqs ! i) (resp i)"
  shows "\<exists>c'. receive_all m ((t0, msg) # map (\<lambda>i. (t i, resp i)) [0..<length seqs]) save c = Some (save, c') \<and>
    queued_all m c' = queued_all m c + length seqs"
proof -
  let ?msg = "received (entity_id c) t0 msg"
  let ?c = "c\<lparr>wait_receipt_map := insert_into_wait_receipt ?msg (wait_receipt_map c)\<rparr>"
  have s: "sent_submit seqs msg_ids ?msg" and d: "distinct seqs" using assms(4) by (simp_all add: sent_submit_def)
  have "\<exists>c'. receive_all m (map (\<lambda>i. (t i, resp i)) [0..<length seqs]) save ?c = Some (save, c') \<and>
      queued_all m c' = queued_all m ?c + length [0..<length seqs]"
    by (rule limit_receipts_send [OF assms(1) d])
      (use assms(2,3,5) insert_into_wait_receipt_lookup(1) [OF s] in \<open>auto simp: all_open_def\<close>)
  then show ?thesis
    using handle_sent_submit [OF assms(4), of m t0 save c] by (auto simp: queued_all_def)
qed

lemma speed_limit_duplicates_witness:
  "\<exists>c'. receive_all demo_mpsc ((0, demo_sent) # map (\<lambda>i. (1, setk (demo_receipt ([7, 8] ! i)) SPEED_LIMIT (JBool True))) [0..<2])
      [] (demo_context Server 0 [demo_channel 1 True True]) = Some ([], c') \<and> queued_all demo_mpsc c' = 2"
proof -
  let ?c = "demo_context Server 0 [demo_channel 1 True True]"
  have o: "mpsc_ok demo_mpsc" "all_open demo_mpsc ?c" "send_channels ?c \<noteq> []"
    by (simp_all add: all_open_def demo_channel_def)
  have r: "limit_receipt ([7, 8] ! i) (setk (demo_receipt ([7, 8] ! i)) SPEED_LIMIT (JBool True))" for i
    by (simp add: limit_receipt_def demo_receipt_def)
  from speed_limit_duplicates [OF o demo_sent_ok r, where ?t0.0 = 0 and t = "\<lambda>_. 1" and save = "[]"]
  show ?thesis by (simp add: queued_all_def queued_def demo_channel_def numeral_2_eq_2)
qed

end
