(* ===== verification/Account.thy ===== *)
theory Account
  imports Running Dispatch
begin

text \<open>
  \<open>entity/mod.rs\<close>, \<open>entity/as_custom.rs\<close> and \<open>entity/as_server.rs\<close>: the accounts of customers and
  the links to operators.  An account checks who logs in, and attaches a connection that has
  logged in: two fresh queues go to \<open>TEMP_SAVE\<close>, a message to the task of the account, and the
  receiving ends to the connection.

  The fields \<open>accumulator\<close> and \<open>send_to_manager_tx\<close> are never read and left out.  The counter
  \<open>now_channel_number\<close> is shared with the task of the account; here it is a field.
\<close>

subsection \<open>State\<close>

record 'q custom_entity =
  ce_id :: u32
  ce_name :: string
  ce_desc :: string
  ce_login_name :: string
  ce_password :: string
  ce_allowed_addr :: string
  ce_read_limit :: u32
  ce_write_limit :: u32
  ce_max_channel_number :: u64
  ce_now_channel_number :: u8
  ce_service_id :: string
  ce_sp_id :: string
  ce_config :: json
  ce_channel_to_entity_tx :: "'q option"

record 'q server_entity =
  se_id :: u32
  se_name :: string
  se_login_name :: string
  se_password :: string
  se_addr :: string
  se_version :: u32
  se_read_limit :: u32
  se_write_limit :: u32
  se_max_channel_number :: u64
  se_now_channel_number :: u8
  se_config :: json
  se_channel_to_entity_tx :: "'q option"
  se_is_active :: bool
  se_protocol :: protocol
  se_service_id :: string
  se_sp_id :: string
  se_gateway_login_name :: string
  se_gateway_password :: string
  se_server_connect_number :: u64
  se_node_id :: u32
  se_max_buff_cap :: u64

datatype 'q entity = CustomEntity "'q custom_entity" | ServerEntity "'q server_entity"

definition new_custom ::
    "u32 \<Rightarrow> string \<Rightarrow> string \<Rightarrow> string \<Rightarrow> string \<Rightarrow> string \<Rightarrow> string \<Rightarrow> string \<Rightarrow> u32 \<Rightarrow> u32 \<Rightarrow> u64 \<Rightarrow>
       json \<Rightarrow> 'q custom_entity" where
  "new_custom eid name service sp desc login password addrs rd wr max_number config =
     \<lparr>ce_id = eid, ce_name = name, ce_desc = desc, ce_login_name = login, ce_password = password,
      ce_allowed_addr = addrs, ce_read_limit = rd, ce_write_limit = wr,
      ce_max_channel_number = max_number, ce_now_channel_number = 0, ce_service_id = service,
      ce_sp_id = sp, ce_config = config, ce_channel_to_entity_tx = None\<rparr>"

definition new_server ::
    "u32 \<Rightarrow> string \<Rightarrow> string \<Rightarrow> string \<Rightarrow> string \<Rightarrow> string \<Rightarrow> string \<Rightarrow> u32 \<Rightarrow> string \<Rightarrow> u32 \<Rightarrow> u32 \<Rightarrow>
       u64 \<Rightarrow> string \<Rightarrow> string \<Rightarrow> u32 \<Rightarrow> u64 \<Rightarrow> json \<Rightarrow> 'q server_entity" where
  "new_server eid name service sp login password addr version protocol_name rd wr max_number
       gateway_login gateway_pass node buff_cap config =
     (let protocol = get_protocol protocol_name version;
          server_connect_number = (case protocol of SGIP \<Rightarrow> 100 | _ \<Rightarrow> 0)
      in \<lparr>se_id = eid, se_name = name, se_login_name = login, se_password = password, se_addr = addr,
          se_version = version, se_read_limit = rd, se_write_limit = wr,
          se_max_channel_number = max_number, se_now_channel_number = 0, se_config = config,
          se_channel_to_entity_tx = None, se_is_active = True, se_protocol = protocol,
          se_service_id = service, se_sp_id = sp, se_gateway_login_name = gateway_login,
          se_gateway_password = gateway_pass, se_server_connect_number = server_connect_number,
          se_node_id = node, se_max_buff_cap = buff_cap\<rparr>)"

fun get_id :: "'q entity \<Rightarrow> u32" where
  "get_id (CustomEntity e) = ce_id e"
| "get_id (ServerEntity e) = se_id e"

fun get_login_name :: "'q entity \<Rightarrow> string" where
  "get_login_name (CustomEntity e) = ce_login_name e"
| "get_login_name (ServerEntity e) = se_login_name e"

fun get_password :: "'q entity \<Rightarrow> string" where
  "get_password (CustomEntity e) = ce_password e"
| "get_password (ServerEntity e) = se_password e"

fun get_allow_ips :: "'q entity \<Rightarrow> string" where
  "get_allow_ips (CustomEntity e) = ce_allowed_addr e"
| "get_allow_ips (ServerEntity e) = ''0.0.0.0''"

fun get_entity_type :: "'q entity \<Rightarrow> EntityType" where
  "get_entity_type (CustomEntity e) = Custom"
| "get_entity_type (ServerEntity e) = Server"

fun can_login :: "'q entity \<Rightarrow> bool" where
  "can_login (CustomEntity e) = True"
| "can_login (ServerEntity e) = (0 < length (se_gateway_login_name e))"

subsection \<open>Starting an account\<close>

text \<open>
  \<open>start\<close> of both: the account keeps the sender to its task, and the task starts with this state.
  \<open>tx\<close> is the new queue from the connections to the task.  A link creates that queue with room for
  \<open>read_limit\<close> messages, and \<open>mpsc::channel\<close> panics for zero, as its documentation says.
\<close>

definition start_custom :: "'q \<Rightarrow> 'q custom_entity \<Rightarrow> 'q run_context \<times> 'q custom_entity" where
  "start_custom tx e =
     (start_context (ce_id e) (ce_service_id e) (ce_sp_id e) 0 (ce_now_channel_number e) Custom 0
        (ucast (ce_write_limit e)),
      e\<lparr>ce_channel_to_entity_tx := Some tx\<rparr>)"

definition start_server :: "'q \<Rightarrow> 'q server_entity \<Rightarrow> ('q run_context \<times> 'q server_entity) option" where
  "start_server tx e =
     (if se_read_limit e = 0 then Panic
      else Some
        (start_context (se_id e) (se_service_id e) (se_sp_id e) (se_node_id e) (se_now_channel_number e)
           Server (se_max_buff_cap e) (ucast (se_write_limit e)),
         e\<lparr>se_channel_to_entity_tx := Some tx\<rparr>))"

text \<open>
  \<open>continued_connect\<close>: the login message of every connection it opens, and one turn of its loop:
  how many connections are opened, or \<open>None\<close> when the loop ends.
\<close>

definition connect_msg :: "'q server_entity \<Rightarrow> json" where
  "connect_msg e = JObj [(''spId'', JStr (se_sp_id e)), (''loginName'', JStr (se_login_name e)),
     (''password'', JStr (se_password e)), (''gatewayIp'', JStr (se_addr e)),
     (''protocolVersion'', num (se_version e)), (''msg_type'', JStr ''Connect'')]"

definition connect_turn :: "'q mpsc \<Rightarrow> 'q \<Rightarrow> 'q server_entity \<Rightarrow> nat option" where
  "connect_turn m manage_to_entity_tx e =
     (if \<not> se_is_active e then None
      else if mpsc_is_closed m manage_to_entity_tx then None
      else
        let now_num = ucast (se_now_channel_number e); max_num = se_max_channel_number e in
        if max_num > now_num then Some (unat (max_num - now_num)) else Some 0)"

subsection \<open>Addresses\<close>

text \<open>\<open>std::net::IpAddr\<close>: the four octets, or the eight segments.\<close>

datatype IpAddr = V4 u8 u8 u8 u8 | V6 "u16 list"

fun split_on :: "char \<Rightarrow> string \<Rightarrow> string list" where
  "split_on c [] = [[]]"
| "split_on c (x # xs) =
     (if x = c then [] # split_on c xs
      else case split_on c xs of y # ys \<Rightarrow> (x # y) # ys | [] \<Rightarrow> [[x]])"

text \<open>\<open>str::parse::<Ipv4Addr>()\<close>: four decimal numbers below 256 of at most three digits, without
  leading zeros.\<close>

definition parse_octet :: "string \<Rightarrow> u8 option" where
  "parse_octet s =
     (if s = [] \<or> 3 < length s \<or> hd s = CHR ''+'' \<or> (1 < length s \<and> hd s = CHR ''0'') then None
      else map_option of_nat (parse_uint 8 s))"

fun parse_octets :: "string list \<Rightarrow> u8 list option" where
  "parse_octets [] = Some []"
| "parse_octets (s # ss) = do { b \<leftarrow> parse_octet s; bs \<leftarrow> parse_octets ss; Some (b # bs) }"

definition parse_ipv4 :: "string \<Rightarrow> u8 list option" where
  "parse_ipv4 s =
     (let parts = split_on (CHR ''.'') s in if length parts = 4 then parse_octets parts else None)"

fun octets_found :: "u8 list \<Rightarrow> u8 list \<Rightarrow> bool" where
  "octets_found (v # vs) (i # is) = (if v = i \<or> v = 0 then octets_found vs is else False)"
| "octets_found _ _ = True"

definition check_addr_range :: "string \<Rightarrow> IpAddr \<Rightarrow> bool" where
  "check_addr_range allow_ips now_ip =
     (case now_ip of
        V4 a b c d \<Rightarrow>
          list_ex (\<lambda>addr. case parse_ipv4 addr of
              Some v \<Rightarrow> octets_found v [a, b, c, d]
            | None \<Rightarrow> False) (split_on (CHR '','') allow_ips)
      | V6 _ \<Rightarrow> False)"

subsection \<open>Login\<close>

definition auth_number :: "buf \<Rightarrow> u64" where
  "auth_number my_auth = of_nat (be_nat (drop 8 my_auth))"

definition login ::
    "ext \<Rightarrow> 'q entity \<Rightarrow> json \<Rightarrow> protocol \<Rightarrow> IpAddr \<Rightarrow> (SmsStatus \<times> json) option \<times> protocol" where
  "login x en json protocol ip_addr =
     (if \<not> check_addr_range (get_allow_ips en) ip_addr then (Some (AddError, json), protocol)
      else
        let my_auth = get_auth protocol x (get_login_name en) (get_password en)
              (case as_u32 (idx json TIMESTAMP) of Some t \<Rightarrow> t | None \<Rightarrow> 0);
            auth = auth_number my_auth
        in if auth \<noteq> (case as_u64 (idx json AUTHENTICATOR) of Some a \<Rightarrow> a | None \<Rightarrow> 0)
           then (Some (AuthError, json), protocol)
           else case as_u32 (idx json VERSION) of
             Some version \<Rightarrow>
               if \<not> has protocol version then (Some (VersionError, json), protocol)
               else (None, match_version protocol version)
           | None \<Rightarrow> (Some (OtherError, json), protocol))"

subsection \<open>Attaching a connection\<close>

text \<open>What \<open>login_attach\<close> returns.\<close>

record 'q attached =
  at_id :: u64
  at_status :: SmsStatus
  at_rx_limit :: u32
  at_tx_limit :: u32
  at_priority_rx :: "'q option"
  at_common_rx :: "'q option"
  at_entity_tx :: "'q option"

definition refused :: "'q attached" where
  "refused = \<lparr>at_id = 0, at_status = OtherError, at_rx_limit = 0, at_tx_limit = 0,
     at_priority_rx = None, at_common_rx = None, at_entity_tx = None\<rparr>"

definition attach_msg :: "u32 \<Rightarrow> u32 \<Rightarrow> bool \<Rightarrow> json" where
  "attach_msg eid channel writable = JObj [(''msg_type'', JStr ''Connect''), (''entity_id'', num eid),
     (''channel_id'', num channel), (''can_write'', JBool writable)]"

text \<open>The part both kinds of account share, behind the check of the number of connections.\<close>

definition attach_queues ::
    "'q mpsc \<Rightarrow> 'q \<Rightarrow> 'q \<Rightarrow> u32 \<Rightarrow> u32 \<Rightarrow> u32 \<Rightarrow> 'q option \<Rightarrow> bool \<Rightarrow> world \<Rightarrow> 'q temp_save \<Rightarrow>
       ('q attached \<times> 'q option \<times> world \<times> 'q temp_save) option" where
  "attach_queues m priority common eid rd wr entity_tx writable w save =
     (case entity_tx of
        None \<Rightarrow> Panic
      | Some channel_to_entity_tx \<Rightarrow>
          (let (index, w) = get_sequence_id 1 w;
               save = AList.update index (priority, common) save;
               (_, channel_to_entity_tx) = mpsc_send m (attach_msg eid index writable) channel_to_entity_tx
           in Some (\<lparr>at_id = ucast index, at_status = Success, at_rx_limit = rd, at_tx_limit = wr,
               at_priority_rx = Some priority, at_common_rx = Some common,
               at_entity_tx = Some channel_to_entity_tx\<rparr>, Some channel_to_entity_tx, w, save)))"

fun login_attach ::
    "'q mpsc \<Rightarrow> 'q \<Rightarrow> 'q \<Rightarrow> 'q entity \<Rightarrow> bool \<Rightarrow> world \<Rightarrow> 'q temp_save \<Rightarrow>
       ('q attached \<times> 'q entity \<times> world \<times> 'q temp_save) option" where
  "login_attach m priority common (CustomEntity e) writable w save =
     (if ce_max_channel_number e \<le> ucast (ce_now_channel_number e)
      then Some (refused, CustomEntity e, w, save)
      else map_option (\<lambda>(a, tx, w, save). (a, CustomEntity (e\<lparr>ce_channel_to_entity_tx := tx\<rparr>), w, save))
        (attach_queues m priority common (ce_id e) (ce_read_limit e) (ce_write_limit e)
          (ce_channel_to_entity_tx e) writable w save))"
| "login_attach m priority common (ServerEntity e) writable w save =
     (if se_max_channel_number e + se_server_connect_number e \<le> ucast (se_now_channel_number e)
      then Some (refused, ServerEntity e, w, save)
      else map_option (\<lambda>(a, tx, w, save). (a, ServerEntity (e\<lparr>se_channel_to_entity_tx := tx\<rparr>), w, save))
        (attach_queues m priority common (se_id e) (se_read_limit e) (se_write_limit e)
          (se_channel_to_entity_tx e) writable w save))"

end
