(* ===== verification/Logins.thy ===== *)
theory Logins
  imports Wire Account Tasks
begin

text \<open>
  What the login of a connection guarantees: the list of allowed addresses is read as written, the
  protocol chosen stays in its family, a refused login changes nothing, and a connection that is
  attached becomes a connection of the task.
\<close>

subsection \<open>Lists of addresses\<close>

fun join :: "char \<Rightarrow> string list \<Rightarrow> string" where
  "join c [] = []"
| "join c [s] = s"
| "join c (s # t # ss) = s @ c # join c (t # ss)"

lemma split_on_none: "c \<notin> set s \<Longrightarrow> split_on c s = [s]"
  by (induction s) auto

lemma split_on_append: "c \<notin> set s \<Longrightarrow> split_on c (s @ c # t) = s # split_on c t"
  by (induction s) auto

lemma split_on_join: "ss \<noteq> [] \<Longrightarrow> \<forall>s \<in> set ss. c \<notin> set s \<Longrightarrow> split_on c (join c ss) = ss"
  by (induction c ss rule: join.induct) (simp_all add: split_on_none split_on_append)

text \<open>An address as it is written.\<close>

definition octet_text :: "u8 \<Rightarrow> string" where
  "octet_text b = fmt_dec 1 (unat b)"

definition dotted :: "u8 list \<Rightarrow> string" where
  "dotted bs = join (CHR ''.'') (map octet_text bs)"

lemma parse_uint_digits:
  assumes "ds \<noteq> []" and "\<forall>d \<in> set ds. d < 10" and "digits_value 10 ds < 2 ^ w"
  shows "parse_uint w (map digit_char ds) = Some (digits_value 10 ds)"
proof -
  have "hd (map digit_char ds) \<noteq> CHR ''+''"
    using assms(1,2) by (cases ds) (auto simp: digit_char_not_plus)
  then show ?thesis
    using assms dec_value_digits [OF assms(2), of 0] by (simp add: parse_uint_def Let_def digits_value_def)
qed

lemma three_digits: "100 * (n div 100) + (10 * (n div 10 mod 10) + n mod 10) = (n :: nat)"
proof -
  have "n div 100 = n div 10 div 10" by (simp flip: div_mult2_eq)
  then show ?thesis using mult_div_mod_eq [of 10 n] mult_div_mod_eq [of 10 "n div 10"] by linarith
qed

lemma radix_digits_3:
  "n < 1000 \<Longrightarrow> radix_digits 10 n =
    (if n < 10 then [n] else if n < 100 then [n div 10, n mod 10] else [n div 100, n div 10 mod 10, n mod 10])"
  by (subst radix_digits.simps, subst radix_digits.simps, subst radix_digits.simps) (auto simp flip: div_mult2_eq)

lemma digit_char_other: "d < 10 \<Longrightarrow> (of_char c :: nat) < 48 \<Longrightarrow> c \<noteq> digit_char d"
  using of_char_digit_char [of d] by auto

lemma digit_char_zero_iff: "d < 10 \<Longrightarrow> digit_char d = CHR ''0'' \<longleftrightarrow> d = 0"
proof
  assume "d < 10" "digit_char d = CHR ''0''"
  then have "(of_char (CHR ''0'') :: nat) = 48 + d" using of_char_digit_char [of d] by simp
  then show "d = 0" by simp
qed (simp add: digit_char_0)

lemma octet_text_facts:
  "parse_octet (octet_text b) = Some b" "CHR ''.'' \<notin> set (octet_text b)" "CHR '','' \<notin> set (octet_text b)"
proof -
  let ?n = "unat b" and ?ds = "radix_digits 10 (unat b)"
  have n: "?n < 256" using unat_bound [of b] by simp
  then have r: "?ds = (if ?n < 10 then [?n] else if ?n < 100 then [?n div 10, ?n mod 10]
      else [?n div 100, ?n div 10 mod 10, ?n mod 10])" by (intro radix_digits_3) simp
  have v: "digits_value 10 ?ds = ?n"
    using three_digits [of ?n] unfolding r by (simp add: digits_value_def add.assoc)
  have lt: "\<forall>d \<in> set ?ds. d < 10" using n unfolding r by auto
  have len: "?ds \<noteq> []" "length ?ds \<le> 3" "1 < length ?ds \<Longrightarrow> hd ?ds \<noteq> 0" unfolding r by auto
  have t: "octet_text b = map digit_char ?ds"
    using len(1) by (simp add: octet_text_def fmt_dec_def pad_zero_def Suc_le_eq)
  have "hd (map digit_char ?ds) \<noteq> CHR ''+''" "1 < length ?ds \<Longrightarrow> hd (map digit_char ?ds) \<noteq> CHR ''0''"
    using lt len by (auto simp: hd_map digit_char_not_plus digit_char_zero_iff)
  then show "parse_octet (octet_text b) = Some b"
    using len parse_uint_digits [OF len(1) lt, of 8] n by (auto simp: parse_octet_def t v)
  show "CHR ''.'' \<notin> set (octet_text b)" "CHR '','' \<notin> set (octet_text b)"
    using lt digit_char_other [of _ "CHR ''.''"] digit_char_other [of _ "CHR '',''"] by (auto simp: t)
qed

lemma parse_octets_texts: "parse_octets (map octet_text bs) = Some bs"
  by (induction bs) (simp_all add: octet_text_facts)

lemma parse_ipv4_dotted: "length bs = 4 \<Longrightarrow> parse_ipv4 (dotted bs) = Some bs"
proof -
  assume l: "length bs = 4"
  then have "split_on (CHR ''.'') (dotted bs) = map octet_text bs"
    unfolding dotted_def by (intro split_on_join) (auto simp: octet_text_facts)
  then show ?thesis using l by (simp add: parse_ipv4_def parse_octets_texts)
qed

lemma join_chars: "c \<in> set (join d ss) \<Longrightarrow> c \<noteq> d \<Longrightarrow> \<exists>s \<in> set ss. c \<in> set s"
  by (induction d ss rule: join.induct) auto

lemma comma_free: "CHR '','' \<notin> set (dotted bs)"
proof
  assume "CHR '','' \<in> set (dotted bs)"
  then obtain s where "s \<in> set (map octet_text bs)" "CHR '','' \<in> set s"
    unfolding dotted_def by (blast dest: join_chars)
  then show False using octet_text_facts(3) by auto
qed

lemma octets_found_all2: "length vs = length is \<Longrightarrow> octets_found vs is = list_all2 (\<lambda>v i. v = i \<or> v = 0) vs is"
  by (induction vs "is" rule: octets_found.induct) auto

lemma allow_list:
  assumes "addrs \<noteq> []" and "list_all (\<lambda>bs. length bs = 4) addrs"
  shows "check_addr_range (join (CHR '','') (map dotted addrs)) (V4 a b c d) =
    list_ex (\<lambda>bs. list_all2 (\<lambda>v i. v = i \<or> v = 0) bs [a, b, c, d]) addrs"
proof -
  have "split_on (CHR '','') (join (CHR '','') (map dotted addrs)) = map dotted addrs"
    by (rule split_on_join) (use assms(1) comma_free in auto)
  moreover have "list_ex (\<lambda>s. case parse_ipv4 s of Some v \<Rightarrow> octets_found v [a, b, c, d] | None \<Rightarrow> False)
      (map dotted addrs) = list_ex (\<lambda>bs. list_all2 (\<lambda>v i. v = i \<or> v = 0) bs [a, b, c, d]) addrs"
    using assms(2) by (induction addrs) (auto simp: parse_ipv4_dotted octets_found_all2)
  ultimately show ?thesis by (simp add: check_addr_range_def)
qed

text \<open>C32: an address list written as dotted addresses separated by commas admits an IPv4 address
  exactly when one of the addresses agrees with it in every octet that is not zero.\<close>

theorem allow_list_admits:
  assumes "addrs \<noteq> []" and "list_all (\<lambda>bs. length bs = 4) addrs"
  shows "check_addr_range (join (CHR '','') (map dotted addrs)) (V4 a b c d) =
    list_ex (\<lambda>bs. list_all2 (\<lambda>v i. v = i \<or> v = 0) bs [a, b, c, d]) addrs"
  by (rule allow_list [OF assms])

lemma allow_list_admits_witness:
  "check_addr_range ''10.0.3.0,127.0.0.1'' (V4 10 9 3 7) \<and> \<not> check_addr_range ''10.0.3.0,127.0.0.1'' (V4 10 9 4 7)"
proof -
  have t: "join (CHR '','') (map dotted [[10, 0, 3, 0], [127, 0, 0, 1]]) = ''10.0.3.0,127.0.0.1''"
    by code_simp
  show ?thesis
    using allow_list_admits [of "[[10, 0, 3, 0], [127, 0, 0, 1]]" 10 9 3 7]
      allow_list_admits [of "[[10, 0, 3, 0], [127, 0, 0, 1]]" 10 9 4 7]
    unfolding t by simp
qed

subsection \<open>The outcome of a login\<close>

lemma match_version_simps:
  "match_version CMPP48 v = (if v = 32 then CMPP32 else CMPP48)"
  "match_version CMPP32 v = (if v = 32 then CMPP32 else CMPP48)"
  "match_version SMGP v = SMGP" "match_version SGIP v = SGIP" "match_version SMPP v = SMPP"
proof -
  have u: "to_uppercase ''CMPP'' = ''CMPP''" "to_uppercase ''SMGP'' = ''SMGP''"
    "to_uppercase ''SGIP'' = ''SGIP''" "to_uppercase ''SMPP'' = ''SMPP''"
    by code_simp+
  show "match_version CMPP48 v = (if v = 32 then CMPP32 else CMPP48)"
    "match_version CMPP32 v = (if v = 32 then CMPP32 else CMPP48)"
    "match_version SMGP v = SMGP" "match_version SGIP v = SGIP" "match_version SMPP v = SMPP"
    by (simp_all add: match_version_def get_protocol_def u Let_def del: to_uppercase.simps)
qed

text \<open>The last eight bytes of the digest the account computes are the number the login message gives.\<close>

definition digest_agrees :: "ext \<Rightarrow> 'q entity \<Rightarrow> json \<Rightarrow> protocol \<Rightarrow> bool" where
  "digest_agrees x en json p \<longleftrightarrow>
     (case as_u64 (idx json AUTHENTICATOR) of Some a \<Rightarrow> a | None \<Rightarrow> 0) =
     auth_number (get_auth p x (get_login_name en) (get_password en)
       (case as_u32 (idx json TIMESTAMP) of Some t \<Rightarrow> t | None \<Rightarrow> 0))"

lemma login_accepted:
  assumes "login x en json p ip = (None, p')"
  shows "check_addr_range (get_allow_ips en) ip \<and> digest_agrees x en json p \<and>
    (\<exists>v. as_u32 (idx json VERSION) = Some v \<and> has p v \<and> p' = match_version p v)"
  using assms unfolding login_def digest_agrees_def Let_def by (simp split: if_splits option.splits)

lemma login_refused:
  assumes "login x en json p ip = (Some (st, j), p')"
  shows "p' = p \<and> j = json \<and> st \<noteq> Success"
  using assms unfolding login_def Let_def by (simp split: if_splits option.splits)

text \<open>C19: a login that is accepted had an allowed address and the right digest, and leaves the
  connection in a protocol of the same name, for CMPP the one of the version asked for; a login that
  is refused leaves the protocol as it was and gives the login message back.\<close>

theorem login_outcome:
  "case login x en json p ip of
     (None, p') \<Rightarrow> check_addr_range (get_allow_ips en) ip \<and> digest_agrees x en json p \<and>
       (\<exists>v. as_u32 (idx json VERSION) = Some v \<and> protocol_parse p' = protocol_parse p \<and>
          (p \<in> {CMPP48, CMPP32} \<longrightarrow> p' = (if v = 48 then CMPP48 else CMPP32) \<and> v \<in> {32, 48}))
   | (Some (st, j), p') \<Rightarrow> p' = p \<and> j = json \<and> st \<noteq> Success"
proof -
  have m: "has p v \<Longrightarrow> protocol_parse (match_version p v) = protocol_parse p \<and>
      (p \<in> {CMPP48, CMPP32} \<longrightarrow> match_version p v = (if v = 48 then CMPP48 else CMPP32) \<and> v \<in> {32, 48})" for v
    by (cases p) (auto simp: match_version_simps)
  show ?thesis
  proof (cases "login x en json p ip")
    case (Pair r p')
    show ?thesis
    proof (cases r)
      case None
      then obtain v where "check_addr_range (get_allow_ips en) ip" "digest_agrees x en json p" "as_u32 (idx json VERSION) = Some v"
        "has p v" "p' = match_version p v"
        using Pair login_accepted [of x en json p ip p'] by blast
      then show ?thesis using Pair None m [of v] by (simp del: insert_iff)
    next
      case (Some sj)
      then show ?thesis using Pair login_refused [of x en json p ip "fst sj" "snd sj" p'] by (cases sj) auto
    qed
  qed
qed

definition demo_custom :: "string \<Rightarrow> (bool \<times> json list) custom_entity" where
  "demo_custom pw = new_custom 9 ''shop'' ''svc'' ''901234'' [] ''901234'' pw ''0.0.0.0'' 100 100 2 JNull"

definition demo_login :: json where
  "demo_login = JObj [(AUTHENTICATOR, JNum 115), (TIMESTAMP, JNum 1010101), (VERSION, JNum 32)]"

lemma any_address: "check_addr_range ''0.0.0.0'' (V4 a b c d)"
proof -
  have "join (CHR '','') (map dotted [[0, 0, 0, 0]]) = ''0.0.0.0''" by code_simp
  then show ?thesis using allow_list [of "[[0, 0, 0, 0]]" a b c d] by simp
qed

lemma demo_digest: "auth_number (default_get_auth demo_ext ''901234'' ''secret'' t) = 115"
proof -
  have z: "be_bytes 8 0 = replicate 8 0" by code_simp
  have "default_get_auth demo_ext ''901234'' ''secret'' t = as_bytes ''901234'' @ replicate 8 0 @ [0, 115]"
    by (simp add: default_get_auth_def demo_ext_def Let_def put_defs z)
  moreover have "auth_number (as_bytes ''901234'' @ replicate 8 0 @ [0, 115]) = 115" by code_simp
  ultimately show ?thesis by simp
qed

lemma login_outcome_witness:
  "login demo_ext (CustomEntity (demo_custom ''secret'')) demo_login CMPP48 (V4 1 2 3 4) = (None, CMPP32) \<and>
   digest_agrees demo_ext (CustomEntity (demo_custom ''secret'')) demo_login CMPP48"
proof -
  have "login demo_ext (CustomEntity (demo_custom ''secret'')) demo_login CMPP48 (V4 1 2 3 4) = (None, CMPP32)"
    by (simp add: login_def Let_def any_address demo_custom_def new_custom_def demo_login_def as_word.simps
      match_version_simps demo_digest)
  then show ?thesis
    using login_outcome [where x = demo_ext and en = "CustomEntity (demo_custom ''secret'')" and json = demo_login
      and p = CMPP48 and ip = "V4 1 2 3 4"] by simp
qed

subsection \<open>SGIP\<close>

lemma sgip_connect_fields:
  assumes "sgip_decode_connect buf node tp = Ok json"
  shows "idx json AUTHENTICATOR = JNull \<and> idx json VERSION = JNum 1"
  using assms
  by (auto simp: sgip_decode_connect_def sgip_header_def bind_eq_Some Let_def split_def)

lemma be_nat_eq_0: "be_nat bs = 0 \<longleftrightarrow> bs = replicate (length bs) 0"
proof
  assume "be_nat bs = 0"
  then have "be_bytes (length bs) 0 = bs" by (metis be_bytes_be_nat)
  moreover have "be_bytes n 0 = replicate n 0" for n by (induction n) (simp_all add: replicate_append_same)
  ultimately show "bs = replicate (length bs) 0" by simp
next
  have "be_nat (replicate n 0) = 0" for n
    by (induction n) (simp_all flip: replicate_append_same)
  then show "bs = replicate (length bs) 0 \<Longrightarrow> be_nat bs = 0" by metis
qed

text \<open>C39: the password of a SGIP login is never looked at: whatever the peer sends, the login of an
  account is accepted when the configured password has no more than eight bytes, and refused when it
  has more (the login message carries no digest, so the digest compared with is zero).\<close>

theorem sgip_password_ignored:
  assumes "sgip_decode_connect buf node tp = Ok json" and "check_addr_range (get_allow_ips en) ip"
    and "CHR 0x00 \<notin> set (get_password en)"
  shows "login x en json SGIP ip =
    (if length (get_password en) \<le> 8 then (None, SGIP) else (Some (AuthError, json), SGIP))"
proof -
  let ?pw = "get_password en"
  note f = sgip_connect_fields [OF assms(1)]
  have z: "be_nat (drop 8 (field ?pw 16)) = 0 \<longleftrightarrow> length ?pw \<le> 8"
  proof (cases "length ?pw \<le> 8")
    case True
    then have "drop 8 (field ?pw 16) = replicate 8 0" by (simp add: field_def)
    with True show ?thesis by (simp add: be_nat_eq_0)
  next
    case False
    then have "field ?pw 16 ! 8 = as_bytes ?pw ! 8" by (simp add: field_def as_bytes_take nth_append)
    also have "\<dots> \<noteq> 0"
    proof
      assume "as_bytes ?pw ! 8 = 0"
      then have "of_char (?pw ! 8) = (0 :: nat)"
        using False unat_byte_of_char [of "?pw ! 8"] by (simp add: as_bytes_def)
      also have "(0 :: nat) = of_char (CHR 0x00)" by simp
      finally have "?pw ! 8 = CHR 0x00" by (simp only: of_char_eq_iff)
      with False assms(3) show False by (metis not_less nth_mem)
    qed
    finally have "drop 8 (field ?pw 16) ! 0 \<noteq> 0" by simp
    then have "drop 8 (field ?pw 16) \<noteq> replicate 8 0" by (metis nth_replicate zero_less_numeral)
    with False show ?thesis by (simp add: be_nat_eq_0)
  qed
  have "be_nat (drop 8 (field ?pw 16)) < 2 ^ 64" using be_nat_less [of "drop 8 (field ?pw 16)"] by simp
  then have "auth_number (field ?pw 16) = 0 \<longleftrightarrow> length ?pw \<le> 8"
    unfolding auth_number_def z [symmetric] by (auto simp: word_of_nat_eq_0_iff dest: dvd_imp_le)
  then show ?thesis
    using assms(2) f by (simp add: login_def Let_def sgip_get_auth_field as_word.simps match_version_simps)
qed

lemma sgip_password_ignored_witness:
  "\<exists>json. sgip_decode_connect (replicate 8 0 @ [1] @ replicate 16 0 @ as_bytes ''guess'' @ replicate 11 0) 3 1 = Ok json \<and>
     idx json PASSWORD = JStr ''guess'' \<and>
     login demo_ext (CustomEntity (demo_custom ''secret'')) json SGIP (V4 1 2 3 4) = (None, SGIP)"
proof -
  let ?b = "replicate 8 0 @ [1] @ replicate 16 0 @ as_bytes ''guess'' @ replicate 11 0"
  have "case sgip_decode_connect ?b 3 1 of Some (Inr j) \<Rightarrow> idx j PASSWORD = JStr ''guess'' | _ \<Rightarrow> False"
    by code_simp
  then obtain json where j: "sgip_decode_connect ?b 3 1 = Ok json" "idx json PASSWORD = JStr ''guess''"
    by (auto split: option.splits sum.splits)
  have "login demo_ext (CustomEntity (demo_custom ''secret'')) json SGIP (V4 1 2 3 4) = (None, SGIP)"
    using sgip_password_ignored [OF j(1), of "CustomEntity (demo_custom ''secret'')" "V4 1 2 3 4" demo_ext] any_address
    by (simp add: demo_custom_def new_custom_def)
  with j show ?thesis by blast
qed

subsection \<open>Attaching\<close>

text \<open>The fields of the account that count its connections.\<close>

fun connections_left :: "'q entity \<Rightarrow> bool" where
  "connections_left (CustomEntity e) = (ucast (ce_now_channel_number e) < ce_max_channel_number e)"
| "connections_left (ServerEntity e) =
     (ucast (se_now_channel_number e) < se_max_channel_number e + se_server_connect_number e)"

fun entity_tx :: "'q entity \<Rightarrow> 'q option" where
  "entity_tx (CustomEntity e) = ce_channel_to_entity_tx e"
| "entity_tx (ServerEntity e) = se_channel_to_entity_tx e"

lemma attach_msg_fields:
  "idx (attach_msg eid ch wr) MSG_TYPE_STR = JStr ''Connect''" "idx (attach_msg eid ch wr) CHANNEL_ID = num ch"
  "idx (attach_msg eid ch wr) CAN_WRITE = JBool wr"
  by (simp_all add: attach_msg_def)

lemma login_attach_open:
  assumes "connections_left en" and "entity_tx en = Some tx"
  shows "\<exists>en'. login_attach m p q en wr w save = Some
    (\<lparr>at_id = ucast (sequence w), at_status = Success,
       at_rx_limit = (case en of CustomEntity e \<Rightarrow> ce_read_limit e | ServerEntity e \<Rightarrow> se_read_limit e),
       at_tx_limit = (case en of CustomEntity e \<Rightarrow> ce_write_limit e | ServerEntity e \<Rightarrow> se_write_limit e),
       at_priority_rx = Some p, at_common_rx = Some q,
       at_entity_tx = Some (snd (mpsc_send m (attach_msg (get_id en) (sequence w) wr) tx))\<rparr>,
     en', w\<lparr>sequence := sequence w + 1\<rparr>, AList.update (sequence w) (p, q) save)"
  using assms
  by (cases en) (auto simp: attach_queues_def get_sequence_id_eq norm_step_def split_def linorder_not_less [symmetric] Let_def)

text \<open>C25: a connection that is attached to an account with room becomes, once its message reaches the
  task of the account, the last of the connections the task sends through: it has the id the
  connection was told, the queues the connection reads, and the right to write it asked for; the
  entry in \<open>TEMP_SAVE\<close> is used up.\<close>

theorem attach_becomes_channel:
  assumes "connections_left en" and "entity_tx en = Some tx"
    and "map_of save (sequence w) = None"
  shows "\<exists>a en' w' save' save'' c'.
    login_attach m p q en wr w save = Some (a, en', w', save') \<and> at_status a = Success \<and>
    handle_from_channel_rx m now (Some (attach_msg (get_id en) (sequence w) wr)) save' c = Some (True, save'', c') \<and>
    send_channels c' = send_channels c @ [\<lparr>cs_id = at_id a, is_active = True, can_write = wr,
      entity_to_channel_priority_tx = p, entity_to_channel_common_tx = q\<rparr>] \<and>
    at_priority_rx a = Some p \<and> at_common_rx a = Some q \<and> map_of save'' = map_of save"
proof -
  let ?msg = "received (entity_id c) now (attach_msg (get_id en) (sequence w) wr)"
  let ?save = "AList.update (sequence w) (p, q) save"
  obtain en' where a: "login_attach m p q en wr w save = Some
    (\<lparr>at_id = ucast (sequence w), at_status = Success,
       at_rx_limit = (case en of CustomEntity e \<Rightarrow> ce_read_limit e | ServerEntity e \<Rightarrow> se_read_limit e),
       at_tx_limit = (case en of CustomEntity e \<Rightarrow> ce_write_limit e | ServerEntity e \<Rightarrow> se_write_limit e),
       at_priority_rx = Some p, at_common_rx = Some q,
       at_entity_tx = Some (snd (mpsc_send m (attach_msg (get_id en) (sequence w) wr) tx))\<rparr>,
     en', w\<lparr>sequence := sequence w + 1\<rparr>, ?save)"
    using login_attach_open [OF assms(1,2)] by blast
  have "handle_from_channel_rx m now (Some (attach_msg (get_id en) (sequence w) wr)) ?save c =
      Some (True, on_connect ?msg ?save c)"
    by (simp add: handle_from_channel_rx_def on_channel_msg_def Let_def attach_msg_fields msg_type_from_str_def lookup_or_def)
  moreover have "\<exists>save'' c'. on_connect ?msg ?save c = (save'', c') \<and>
      send_channels c' = send_channels c @ [\<lparr>cs_id = ucast (sequence w), is_active = True, can_write = wr,
        entity_to_channel_priority_tx = p, entity_to_channel_common_tx = q\<rparr>] \<and> map_of save'' = map_of save"
    using assms(3) by (auto simp: on_connect_def attach_msg_fields Let_def update_conv delete_conv fun_eq_iff)
  ultimately show ?thesis using a by auto
qed

lemma attach_becomes_channel_witness:
  "\<exists>a en' w' save' save'' c'. login_attach demo_mpsc (True, []) (True, [])
      (CustomEntity (snd (start_custom (True, []) (demo_custom ''pw'')))) True demo_world [] = Some (a, en', w', save') \<and>
     handle_from_channel_rx demo_mpsc 0 (Some (attach_msg 9 7 True)) save' (demo_context Custom 0 []) = Some (True, save'', c') \<and>
     map cs_id (send_channels c') = [at_id a]"
proof -
  let ?en = "CustomEntity (snd (start_custom (True, []) (demo_custom ''pw'')))"
  have e: "connections_left ?en" "entity_tx ?en = Some (True, [])" "map_of [] (sequence demo_world) = None"
    "get_id ?en = 9" "sequence demo_world = 7"
    by (simp_all add: start_custom_def demo_custom_def new_custom_def demo_world_def)
  from attach_becomes_channel [OF e(1,2), of "[]" demo_world demo_mpsc "(True, [])" "(True, [])" True 0 "demo_context Custom 0 []"]
  show ?thesis unfolding e(4,5) by force
qed

text \<open>An account whose connections are used up refuses another one and changes nothing, neither
  the sequence counter nor \<open>TEMP_SAVE\<close>.\<close>

theorem full_account_refuses:
  assumes "\<not> connections_left en"
  shows "login_attach m p q en wr w save = Some (refused, en, w, save)"
  using assms by (cases en) (auto simp: linorder_not_less)

lemma full_account_refuses_witness:
  "login_attach demo_mpsc (True, []) (True, []) (CustomEntity ((demo_custom [])\<lparr>ce_now_channel_number := 2\<rparr>)) True demo_world [] =
     Some (refused, CustomEntity ((demo_custom [])\<lparr>ce_now_channel_number := 2\<rparr>), demo_world, [])"
  by (rule full_account_refuses) (simp add: demo_custom_def new_custom_def)

end
