(* ===== verification/Channel.thy ===== *)
theory Channel
  imports Account
begin

text \<open>
  \<open>entity/channel.rs\<close>: the task of one connection.  It logs the peer in (or logs itself in at
  the peer), then loops: it takes messages from the two queues its account fills, the priority
  queue first, encodes and sends them as the window of the current second allows, answers and
  forwards what the peer sends, sends heartbeats when idle, and at the end publishes what is still
  queued as failed.

  The socket is a parameter: a \<open>send\<close> succeeds or fails; \<open>sock_sent\<close> names what was sent.  What
  arrives is an argument: a frame the codec has cut, a read error, or the end.  Time appears as
  the readings of the clock and as the branches of \<open>select!\<close> that are timers.
\<close>

subsection \<open>State\<close>

record 'q channel =
  ch_id :: u64
  need_approve :: bool
  ch_protocol :: protocol
  entity_to_channel_priority_rx :: "'q option"
  entity_to_channel_common_rx :: "'q option"
  channel_to_entity_tx :: "'q option"
  rx_limit :: u32
  tx_limit :: u32

definition new_channel :: "protocol \<Rightarrow> bool \<Rightarrow> 'q channel" where
  "new_channel p approve = \<lparr>ch_id = 0, need_approve = approve, ch_protocol = p,
     entity_to_channel_priority_rx = None, entity_to_channel_common_rx = None,
     channel_to_entity_tx = None, rx_limit = 0, tx_limit = 0\<rparr>"

record 'n socket =
  sock_send :: "buf \<Rightarrow> 'n \<Rightarrow> bool \<times> 'n"
  sock_sent :: "'n \<Rightarrow> buf list"

definition socket_ok :: "'n socket \<Rightarrow> bool" where
  "socket_ok s \<longleftrightarrow> (\<forall>b n. sock_sent s (snd (sock_send s b n)) =
     (if fst (sock_send s b n) then sock_sent s n @ [b] else sock_sent s n))"

text \<open>The connection and what it works with: the framed socket with the protocol of its codec,
  the global state, and the messages published.\<close>

record ('q, 'n) conn =
  chan :: "'q channel"
  framed :: 'n
  codec_protocol :: protocol
  globals :: world
  published :: "event list"

text \<open>The local variables of \<open>start_work\<close>; of the time stamp only the seconds matter.\<close>

record work =
  curr_tx :: u32
  curr_rx :: u32
  idle_count :: u16
  wait_active_resp :: bool
  active_test :: json
  timestamp :: u64

subsection \<open>Sending and receiving\<close>

datatype net_event = Frame buf | ReadError | Closed

text \<open>\<open>framed.next()\<close>; a panic of the decoder, the end, an error, or a message.\<close>

fun framed_next :: "protocol \<Rightarrow> ext \<Rightarrow> net_event \<Rightarrow> (io_error + json) option option" where
  "framed_next p x (Frame b) = map_option Some (decode_frame p x b)"
| "framed_next p x ReadError = Some (Some (Inl Other))"
| "framed_next p x Closed = Some None"

definition framed_send :: "'n socket \<Rightarrow> buf \<Rightarrow> ('q, 'n) conn \<Rightarrow> bool \<times> ('q, 'n) conn" where
  "framed_send s msg c = (let (ok, n) = sock_send s msg (framed c) in (ok, c\<lparr>framed := n\<rparr>))"

text \<open>The loop borrows the sender once, before it starts; there is one.\<close>

definition to_entity :: "'q mpsc \<Rightarrow> json \<Rightarrow> ('q, 'n) conn \<Rightarrow> bool \<times> ('q, 'n) conn" where
  "to_entity m json c =
     (case channel_to_entity_tx (chan c) of
        None \<Rightarrow> (False, c)
      | Some tx \<Rightarrow>
          (let (ok, tx) = mpsc_send m json tx
           in (ok, c\<lparr>chan := (chan c)\<lparr>channel_to_entity_tx := Some tx\<rparr>\<rparr>)))"

subsection \<open>\<open>clear\<close>\<close>

text \<open>One round more than messages are waiting; see \<open>drain_contents\<close>.\<close>

definition close_rx :: "'q mpsc \<Rightarrow> 'q option \<Rightarrow> json list \<times> 'q option" where
  "close_rx m rx =
     (case rx of
        None \<Rightarrow> ([], None)
      | Some q \<Rightarrow>
          (let q = mpsc_close m q;
               (msgs, q) = drain m (Suc (length (mpsc_contents m q))) q
           in (msgs, Some q)))"

definition failed_events :: "string \<Rightarrow> json list \<Rightarrow> event list" where
  "failed_events key msgs = map (\<lambda>msg. (TOPIC_TO_B_FAILURE, key, msg)) msgs"

definition clear :: "'q mpsc \<Rightarrow> ('q, 'n) conn \<Rightarrow> ('q, 'n) conn" where
  "clear m c =
     (let (msgs, p) = close_rx m (entity_to_channel_priority_rx (chan c));
          (msgs', q) = close_rx m (entity_to_channel_common_rx (chan c))
      in c\<lparr>published := published c @ failed_events ''2'' msgs @ failed_events ''2'' msgs',
         chan := (chan c)\<lparr>entity_to_channel_priority_rx := p, entity_to_channel_common_rx := q\<rparr>\<rparr>)"

subsection \<open>The head of the loop\<close>

text \<open>A new second opens a new window.  The subtraction of the seconds wraps in a release build.\<close>

definition open_window :: "u64 \<Rightarrow> work \<Rightarrow> work" where
  "open_window new_time k =
     (if 1 \<le> new_time - timestamp k
      then k\<lparr>curr_tx := 0, curr_rx := 0, timestamp := new_time\<rparr> else k)"

text \<open>The first component of a result says whether the task goes on.\<close>

type_synonym ('q, 'n) turn = "(bool \<times> work \<times> ('q, 'n) conn) option"

definition heartbeat :: "'n socket \<Rightarrow> ext \<Rightarrow> work \<Rightarrow> ('q, 'n) conn \<Rightarrow> ('q, 'n) turn" where
  "heartbeat s x k c =
     (if 30 < idle_count k then
        if wait_active_resp k then Some (False, k, c)
        else case encode_message (ch_protocol (chan c)) x (active_test k) (globals c) of
          None \<Rightarrow> Panic
        | Some (r, json, w) \<Rightarrow>
            (let k = k\<lparr>active_test := json\<rparr>; c = c\<lparr>globals := w\<rparr>
             in case r of
                  Inr send_msg \<Rightarrow>
                    (let (_, c) = framed_send s send_msg c
                     in Some (True, k\<lparr>wait_active_resp := True, idle_count := 0\<rparr>, c))
                | Inl _ \<Rightarrow> Some (True, k\<lparr>idle_count := 0\<rparr>, c))
      else Some (True, k, c))"

subsection \<open>Messages to send\<close>

definition msg_num :: "json \<Rightarrow> u32" where
  "msg_num send = of_nat (jlen (idx send MSG_IDS))"

text \<open>The two branches differ in what a failing socket does: only a priority message is published.\<close>

definition send_turn ::
    "'q mpsc \<Rightarrow> 'n socket \<Rightarrow> ext \<Rightarrow> bool \<Rightarrow> json \<Rightarrow> work \<Rightarrow> ('q, 'n) conn \<Rightarrow> ('q, 'n) turn" where
  "send_turn m s x priority send k c =
     (if msg_num send + curr_tx k > tx_limit (chan c) then
        let (ok, c) = to_entity m (setk send SPEED_LIMIT (JBool True)) c
        in Some (ok, k\<lparr>curr_tx := tx_limit (chan c)\<rparr>, c)
      else case encode_message (ch_protocol (chan c)) x send (globals c) of
        None \<Rightarrow> Panic
      | Some (Inl _, _, w) \<Rightarrow> Some (True, k, c\<lparr>globals := w\<rparr>)
      | Some (Inr msg, json, w) \<Rightarrow>
          (let (ok, c) = framed_send s msg (c\<lparr>globals := w\<rparr>)
           in if ok then
                let (ok, c) = to_entity m (setk json WAIT_RECEIPT (JBool True)) c
                in Some (ok, k\<lparr>curr_tx := curr_tx k + msg_num send\<rparr>, c)
              else Some (True, k,
                if priority then c\<lparr>published := published c @ failed_events ''3'' [json]\<rparr> else c)))"

definition queue_turn ::
    "'q mpsc \<Rightarrow> 'n socket \<Rightarrow> ext \<Rightarrow> bool \<Rightarrow> json option \<Rightarrow> work \<Rightarrow> ('q, 'n) conn \<Rightarrow> ('q, 'n) turn" where
  "queue_turn m s x priority msg k c =
     (case msg of
        Some send \<Rightarrow> send_turn m s x priority send (k\<lparr>idle_count := 0\<rparr>) c
      | None \<Rightarrow> Some (False, k\<lparr>idle_count := 0\<rparr>, clear m c))"

subsection \<open>Messages received\<close>

definition msg_type_of :: "json \<Rightarrow> MsgType" where
  "msg_type_of json = msg_type_from_str (str_or_empty (idx json MSG_TYPE_STR))"

definition net_turn ::
    "'q mpsc \<Rightarrow> 'n socket \<Rightarrow> ext \<Rightarrow> json \<Rightarrow> work \<Rightarrow> ('q, 'n) conn \<Rightarrow> ('q, 'n) turn" where
  "net_turn m s x json k c =
     (let ty = msg_type_of json;
          k = k\<lparr>wait_active_resp := False\<rparr>;
          k = (if ty = Submit then k\<lparr>curr_rx := curr_rx k + 1\<rparr> else k);
          json = (if ty = Terminate then setk json ID (num (ch_id (chan c))) else json);
          within = (ty \<noteq> Submit \<or> curr_rx k \<le> rx_limit (chan c))
      in case encode_receipt (ch_protocol (chan c)) (if within then Success else TrafficRestrictions)
             json (globals c) of
           None \<Rightarrow> Panic
         | Some (resp, json, w) \<Rightarrow>
             (let c = c\<lparr>globals := w\<rparr>
              in Some (True, k,
                case resp of
                  None \<Rightarrow> snd (to_entity m json c)
                | Some resp \<Rightarrow>
                    (let (ok, c) = framed_send s resp c
                     in if within \<and> ok then snd (to_entity m json c) else c))))"

definition read_turn ::
    "'q mpsc \<Rightarrow> 'n socket \<Rightarrow> ext \<Rightarrow> net_event \<Rightarrow> work \<Rightarrow> ('q, 'n) conn \<Rightarrow> ('q, 'n) turn" where
  "read_turn m s x ev k c =
     (case framed_next (codec_protocol c) x ev of
        None \<Rightarrow> Panic
      | Some (Some (Inr json)) \<Rightarrow> net_turn m s x json k c
      | Some (Some (Inl _)) \<Rightarrow> Some (False, k, c)
      | Some None \<Rightarrow> Some (False, k, clear m c))"

subsection \<open>The loop\<close>

text \<open>
  What completes when neither queue has anything: the socket, the end of the window (waited for
  only when the window is full), or a second.
\<close>

datatype conn_wake = Net net_event | WindowOver | OneSecond

text \<open>\<open>recv()\<close> on a queue, if its guard holds: nothing yet, a message, or the end.\<close>

definition guarded_recv :: "'q mpsc \<Rightarrow> bool \<Rightarrow> 'q \<Rightarrow> json option option \<times> 'q" where
  "guarded_recv m guard q = (if guard then mpsc_recv m q else (None, q))"

text \<open>\<open>select!\<close> with \<open>biased\<close>: the first branch that is ready, in the order written.\<close>

definition select_turn ::
    "'q mpsc \<Rightarrow> 'n socket \<Rightarrow> ext \<Rightarrow> conn_wake \<Rightarrow> work \<Rightarrow> ('q, 'n) conn \<Rightarrow> ('q, 'n) turn" where
  "select_turn m s x wake k c = do {
     p \<leftarrow> entity_to_channel_priority_rx (chan c);
     q \<leftarrow> entity_to_channel_common_rx (chan c);
     let guard = curr_tx k < tx_limit (chan c);
     let (priority, p) = guarded_recv m guard p;
     let c = c\<lparr>chan := (chan c)\<lparr>entity_to_channel_priority_rx := Some p\<rparr>\<rparr>;
     case priority of
       Some msg \<Rightarrow> queue_turn m s x True msg k c
     | None \<Rightarrow>
         (let (common, q) = guarded_recv m guard q;
              c = c\<lparr>chan := (chan c)\<lparr>entity_to_channel_common_rx := Some q\<rparr>\<rparr>
          in case common of
               Some msg \<Rightarrow> queue_turn m s x False msg k c
             | None \<Rightarrow>
                 (case wake of
                    Net ev \<Rightarrow> read_turn m s x ev k c
                  | WindowOver \<Rightarrow> Some (True, k, c)
                  | OneSecond \<Rightarrow> Some (True, k\<lparr>idle_count := idle_count k + 1\<rparr>, c)))
   }"

definition work_turn ::
    "'q mpsc \<Rightarrow> 'n socket \<Rightarrow> ext \<Rightarrow> u64 \<Rightarrow> conn_wake \<Rightarrow> work \<Rightarrow> ('q, 'n) conn \<Rightarrow> ('q, 'n) turn" where
  "work_turn m s x new_time wake k c = do {
     (go, k, c) \<leftarrow> heartbeat s x (open_window new_time k) c;
     if go then select_turn m s x wake k c else Some (False, k, c)
   }"

text \<open>\<open>start_work\<close> up to its loop: it returns without a sender to the account or without a login.\<close>

definition start_work :: "u64 \<Rightarrow> 'q channel \<Rightarrow> work option option" where
  "start_work now ch =
     (if channel_to_entity_tx ch = None \<or> need_approve ch then Some None
      else if entity_to_channel_priority_rx ch = None \<or> entity_to_channel_common_rx ch = None then Panic
      else Some (Some \<lparr>curr_tx = 0, curr_rx = 0, idle_count = 0, wait_active_resp = False,
        active_test = JObj [(''msg_type'', JStr ''ActiveTest'')], timestamp = now\<rparr>))"

subsection \<open>Login\<close>

text \<open>The accounts of the manager, and the queues that wait in \<open>TEMP_SAVE\<close>.\<close>

type_synonym 'q entitys = "(u32 \<times> 'q entity) list"

text \<open>Which account: a server looks for the login name among those that may log in, in the order
  the map is iterated; a client has put the account's number into the message.\<close>

definition find_entity :: "bool \<Rightarrow> json \<Rightarrow> 'q entitys \<Rightarrow> SmsStatus + (u32 \<times> 'q entity)" where
  "find_entity is_server login_info entitys =
     (if is_server then
        case find (\<lambda>(_, en). can_login en \<and> get_login_name en = str_or_empty (idx login_info LOGIN_NAME)) entitys of
          Some en \<Rightarrow> Inr en
        | None \<Rightarrow> Inl AuthError
      else case as_u32 (idx login_info ENTITY_ID) of
        None \<Rightarrow> Inl MessageError
      | Some eid \<Rightarrow>
          (case map_of entitys eid of
             None \<Rightarrow> Inl AuthError
           | Some en \<Rightarrow> Inr (eid, en)))"

definition attach_channel :: "'q attached \<Rightarrow> 'q channel \<Rightarrow> 'q channel" where
  "attach_channel a ch = ch\<lparr>ch_id := at_id a, rx_limit := at_rx_limit a, tx_limit := at_tx_limit a,
     entity_to_channel_priority_rx := at_priority_rx a, entity_to_channel_common_rx := at_common_rx a,
     channel_to_entity_tx := at_entity_tx a\<rparr>"

type_synonym ('q, 'n) login_state = "('q, 'n) conn \<times> 'q entitys \<times> 'q temp_save"

text \<open>\<open>p\<close> and \<open>q\<close> are the queues \<open>login_attach\<close> makes.\<close>

definition handle_login ::
    "'q mpsc \<Rightarrow> ext \<Rightarrow> 'q \<Rightarrow> 'q \<Rightarrow> json \<Rightarrow> bool \<Rightarrow> IpAddr \<Rightarrow> ('q, 'n) login_state \<Rightarrow>
       ((SmsStatus \<times> json) \<times> ('q, 'n) login_state) option" where
  "handle_login m x p q login_info is_server ip = (\<lambda>(c, entitys, save).
     case find_entity is_server login_info entitys of
       Inl status \<Rightarrow> Some ((status, login_info), c, entitys, save)
     | Inr (eid, en) \<Rightarrow>
         (let (refusal, proto) =
                (if is_server then login x en login_info (ch_protocol (chan c)) ip
                 else (None, ch_protocol (chan c)));
              c = c\<lparr>chan := (chan c)\<lparr>ch_protocol := proto\<rparr>\<rparr>
          in case refusal of
               Some result_err \<Rightarrow> Some (result_err, c, entitys, save)
             | None \<Rightarrow> do {
                 (a, en, w, save) \<leftarrow> login_attach m p q en
                   (case as_bool (idx login_info CAN_WRITE) of Some b \<Rightarrow> b | None \<Rightarrow> True) (globals c) save;
                 let c = c\<lparr>globals := w\<rparr>;
                 let entitys = AList.update eid en entitys;
                 Some ((at_status a, login_info),
                   (if at_status a = Success then c\<lparr>chan := attach_channel a (chan c)\<rparr> else c),
                   entitys, save)
               }))"

text \<open>The answer to a login message; the \<open>?\<close> behind the send leaves with its error.\<close>

definition answer_login ::
    "'n socket \<Rightarrow> SmsStatus \<Rightarrow> json \<Rightarrow> ('q, 'n) conn \<Rightarrow> (bool \<times> ('q, 'n) conn) option" where
  "answer_login s status result c = do {
     (msg, _, w) \<leftarrow> encode_receipt (ch_protocol (chan c)) status result (globals c);
     let c = c\<lparr>globals := w\<rparr>;
     Some (case msg of None \<Rightarrow> (True, c) | Some msg \<Rightarrow> framed_send s msg c)
   }"

text \<open>The first thing that happens within three seconds, or none.\<close>

definition wait_conn ::
    "'q mpsc \<Rightarrow> 'n socket \<Rightarrow> ext \<Rightarrow> 'q \<Rightarrow> 'q \<Rightarrow> net_event option \<Rightarrow> IpAddr \<Rightarrow> ('q, 'n) login_state \<Rightarrow>
       ((io_error + unit) \<times> ('q, 'n) login_state) option" where
  "wait_conn m s x p q first ip = (\<lambda>(c, entitys, save).
     case first of
       None \<Rightarrow> Some (Inl TimedOut, c, entitys, save)
     | Some ev \<Rightarrow>
         (case framed_next (codec_protocol c) x ev of
            None \<Rightarrow> Panic
          | Some None \<Rightarrow> Some (Inl Other, c, entitys, save)
          | Some (Some (Inl e)) \<Rightarrow> Some (Inl PermissionDenied, c, entitys, save)
          | Some (Some (Inr request)) \<Rightarrow>
              if msg_type_of request = Connect then do {
                ((status, result), c, entitys, save) \<leftarrow>
                  handle_login m x p q request True ip (c, entitys, save);
                if status = Success then do {
                  (ok, c) \<leftarrow> answer_login s Success result (c\<lparr>codec_protocol := ch_protocol (chan c)\<rparr>);
                  Some (if ok then (Inr (), c\<lparr>chan := (chan c)\<lparr>need_approve := False\<rparr>\<rparr>, entitys, save)
                        else (Inl Other, c, entitys, save))
                } else do {
                  (ok, c) \<leftarrow> answer_login s status (setk result STATUS (JStr (status_to_str status))) c;
                  Some (Inl (if ok then ConnectionAborted else Other), c, entitys, save)
                }
              } else Some (Inl ConnectionAborted, c, entitys, save)))"

text \<open>\<open>start_server\<close> up to the loop: no work unless the login went well.\<close>

definition start_server_channel ::
    "'q mpsc \<Rightarrow> 'n socket \<Rightarrow> ext \<Rightarrow> 'q \<Rightarrow> 'q \<Rightarrow> net_event option \<Rightarrow> IpAddr \<Rightarrow> u64 \<Rightarrow> ('q, 'n) login_state \<Rightarrow>
       (work option \<times> ('q, 'n) login_state) option" where
  "start_server_channel m s x p q first ip now = (\<lambda>(c, entitys, save). do {
     let c = c\<lparr>codec_protocol := ch_protocol (chan c)\<rparr>;
     (r, c, entitys, save) \<leftarrow>
       (if need_approve (chan c) then wait_conn m s x p q first ip (c, entitys, save)
        else Some (Inr (), c, entitys, save));
     case r of
       Inl _ \<Rightarrow> Some (None, c, entitys, save)
     | Inr _ \<Rightarrow> map_option (\<lambda>k. (k, c, entitys, save)) (start_work now (chan c))
   })"

text \<open>Logging in at the peer; \<open>resp\<close> is what arrives after the login message.\<close>

definition connect ::
    "'q mpsc \<Rightarrow> 'n socket \<Rightarrow> ext \<Rightarrow> 'q \<Rightarrow> 'q \<Rightarrow> u32 \<Rightarrow> json \<Rightarrow> net_event \<Rightarrow> IpAddr \<Rightarrow> ('q, 'n) login_state \<Rightarrow>
       ((io_error + unit) \<times> ('q, 'n) login_state) option" where
  "connect m s x p q eid login_msg resp ip = (\<lambda>(c, entitys, save). do {
     (r, _, w) \<leftarrow> encode_message (ch_protocol (chan c)) x login_msg (globals c);
     let c = c\<lparr>globals := w\<rparr>;
     case r of
       Inl _ \<Rightarrow> Some (Inl InvalidData, c, entitys, save)
     | Inr msg \<Rightarrow>
         (let (ok, c) = framed_send s msg c
          in if \<not> ok then Some (Inl Other, c, entitys, save)
             else case framed_next (codec_protocol c) x resp of
               None \<Rightarrow> Panic
             | Some None \<Rightarrow> Some (Inl Other, c, entitys, save)
             | Some (Some (Inl e)) \<Rightarrow> Some (Inl PermissionDenied, c, entitys, save)
             | Some (Some (Inr resp)) \<Rightarrow> do {
                 let resp = setk resp ENTITY_ID (num eid);
                 code \<leftarrow> as_u32 (idx resp STATUS);
                 if msg_type_of resp = ConnectResp \<and> get_status_enum (ch_protocol (chan c)) code = Success
                 then do {
                   ((status, resp), c, entitys, save) \<leftarrow>
                     handle_login m x p q resp False ip (c, entitys, save);
                   let c = (if status = Success
                     then case as_u32 (idx resp VERSION) of
                       Some version \<Rightarrow>
                         c\<lparr>chan := (chan c)\<lparr>ch_protocol := match_version (ch_protocol (chan c)) version\<rparr>\<rparr>
                     | None \<Rightarrow> c
                     else c);
                   Some (Inr (), c, entitys, save)
                 }
                 else Some (Inl PermissionDenied, c, entitys, save)
               })
   })"

text \<open>\<open>start_connect\<close> up to the loop.  \<open>tcp\<close> parses the address and opens the socket.\<close>

definition start_connect ::
    "'q mpsc \<Rightarrow> 'n socket \<Rightarrow> ext \<Rightarrow> (string \<Rightarrow> io_error + IpAddr \<times> 'n) \<Rightarrow> 'q \<Rightarrow> 'q \<Rightarrow> u32 \<Rightarrow> json \<Rightarrow> net_event \<Rightarrow>
       u64 \<Rightarrow> ('q, 'n) login_state \<Rightarrow> ((io_error + work option) \<times> ('q, 'n) login_state) option" where
  "start_connect m s x tcp p q eid login_msg resp now = (\<lambda>(c, entitys, save).
     case as_str (idx login_msg ADDRESS) of
       None \<Rightarrow> Some (Inl NotFound, c, entitys, save)
     | Some addr \<Rightarrow>
         (case tcp addr of
            Inl e \<Rightarrow> Some (Inl e, c, entitys, save)
          | Inr (ip, n) \<Rightarrow> do {
              let c = c\<lparr>framed := n, codec_protocol := ch_protocol (chan c)\<rparr>;
              (r, c, entitys, save) \<leftarrow> connect m s x p q eid login_msg resp ip (c, entitys, save);
              case r of
                Inl e \<Rightarrow> Some (Inl e, c, entitys, save)
              | Inr _ \<Rightarrow>
                  (let c = c\<lparr>codec_protocol := ch_protocol (chan c)\<rparr>
                   in map_option (\<lambda>k. (Inr k, c, entitys, save)) (start_work now (chan c)))
            }))"

text \<open>\<open>Drop for Channel\<close>: the account is told.\<close>

definition closed_msg :: "u64 \<Rightarrow> json" where
  "closed_msg channel_id = JObj [(''msg_type'', JStr ''Terminate''), (''id'', num channel_id)]"

definition drop_conn :: "'q mpsc \<Rightarrow> ('q, 'n) conn \<Rightarrow> ('q, 'n) conn" where
  "drop_conn m c = snd (to_entity m (closed_msg (ch_id (chan c))) c)"

end
