(* ===== verification/Manager.thy ===== *)
theory Manager
  imports Channel
begin

text \<open>
  \<open>entity/entity_manager.rs\<close> and \<open>entity/services.rs\<close>: the manager takes messages of the business
  side, each with a topic, and starts, replaces, removes and feeds the accounts and links; the
  services accept connections and hand each to a new task.

  The task of an account is started with a state and reads one end of a queue, whose sender the
  manager keeps.  The record below names both: the states tasks were started with, the loops that
  dial out, and the queues of the tasks the manager has dismissed, as it left them.  A new account
  needs two fresh queues, which are arguments.  Text that is no JSON comes as \<open>None\<close>; the parser
  belongs to crate \<open>json\<close>.  A result \<open>None\<close> of an operation is a panic, which ends the task of the
  manager: the senders of all accounts are dropped with it.
\<close>

subsection \<open>State\<close>

record 'q manage =
  from_entity :: 'q
  senders :: "(u32 \<times> 'q) list"
  entitys :: "'q entitys"
  started :: "'q run_context list"
  dialling :: "(u32 \<times> protocol \<times> json) list"
  dismissed :: "(u32 \<times> 'q) list"

definition new_manage :: "'q \<Rightarrow> 'q manage" where
  "new_manage give_entity = \<lparr>from_entity = give_entity, senders = [], entitys = [], started = [],
     dialling = [], dismissed = []\<rparr>"

subsection \<open>Accounts from their JSON\<close>

text \<open>The UTF-8 bytes of the two characters the code writes for an unknown name.\<close>

definition UNKNOWN :: string where
  "UNKNOWN = map char_of [0xE6 :: nat, 0x9C, 0xAA, 0xE7, 0x9F, 0xA5]"

definition str_or :: "string \<Rightarrow> json \<Rightarrow> string" where
  "str_or s j = (case as_str j of Some v \<Rightarrow> v | None \<Rightarrow> s)"

definition num_or :: "'a::len word \<Rightarrow> json \<Rightarrow> 'a word" where
  "num_or n j = (case as_word j of Some v \<Rightarrow> v | None \<Rightarrow> n)"

definition custom_of :: "u32 \<Rightarrow> json \<Rightarrow> 'q custom_entity" where
  "custom_of eid json =
     new_custom eid
       (str_or UNKNOWN (idx json NAME))
       (str_or UNKNOWN (idx json SERVICE_ID))
       (str_or [] (idx json SP_ID))
       (str_or [] (idx json ''desc''))
       (str_or [] (idx json LOGIN_NAME))
       (str_or [] (idx json PASSWORD))
       (str_or [] (idx json ALLOW_ADDRS))
       (num_or 200 (idx json READ_LIMIT))
       (num_or 200 (idx json WRITE_LIMIT))
       (num_or 0xff (idx json MAX_CHANNEL_NUMBER))
       json"

definition server_of :: "u32 \<Rightarrow> json \<Rightarrow> 'q server_entity" where
  "server_of eid json =
     (let protocol_name = str_or [] (idx json PROTOCOL);
          sp = (if protocol_name = ''SGIP'' then str_or [] (idx json CROP_ID)
                else str_or [] (idx json SP_ID))
      in new_server eid
           (str_or UNKNOWN (idx json OP_NAME))
           (str_or UNKNOWN (idx json SERVICE_ID))
           sp
           (str_or [] (idx json LOGIN_NAME))
           (str_or [] (idx json PASSWORD))
           (str_or [] (idx json ADDRESS))
           (parse_or_0 (str_or ''0'' (idx json VERSION)))
           protocol_name
           (num_or 200 (idx json READ_LIMIT))
           (num_or 200 (idx json WRITE_LIMIT))
           (num_or 1 (idx json MAX_CHANNEL_NUMBER))
           (str_or [] (idx json GATEWAY_LOGIN_NAME))
           (str_or [] (idx json GATEWAY_PASSWORD))
           (parse_or_0 (str_or ''0'' (idx json NODE_ID)))
           (num_or 0 (idx json MAX_BUFF_CAP))
           json)"

subsection \<open>Messages of the business side\<close>

definition close_json :: json where
  "close_json = JObj [(''manager_type'', JStr ''close'')]"

text \<open>\<open>senders.remove(&id)\<close> and the message to the sender it returns.\<close>

definition close_task :: "'q mpsc \<Rightarrow> u32 \<Rightarrow> 'q manage \<Rightarrow> 'q manage" where
  "close_task m eid s =
     (case map_of (senders s) eid of
        None \<Rightarrow> s
      | Some q \<Rightarrow> s\<lparr>senders := AList.delete eid (senders s),
          dismissed := dismissed s @ [(eid, snd (mpsc_send m close_json q))]\<rparr>)"

definition remove_entity :: "'q mpsc \<Rightarrow> u32 \<Rightarrow> 'q manage \<Rightarrow> 'q manage" where
  "remove_entity m eid s =
     (case map_of (entitys s) eid of
        None \<Rightarrow> s
      | Some _ \<Rightarrow> (let s = close_task m eid s in s\<lparr>entitys := AList.delete eid (entitys s)\<rparr>))"

text \<open>The two inserts; the sender that \<open>senders.insert\<close> replaces, if any, is dropped.\<close>

definition register :: "'q \<Rightarrow> 'q run_context \<times> 'q entity \<Rightarrow> 'q manage \<Rightarrow> 'q manage" where
  "register mq = (\<lambda>(task, en) s.
     s\<lparr>senders := AList.update (get_id en) mq (senders s),
       entitys := AList.update (get_id en) en (entitys s),
       started := started s @ [task],
       dismissed := dismissed s @
         (case map_of (senders s) (get_id en) of Some q \<Rightarrow> [(get_id en, q)] | None \<Rightarrow> [])\<rparr>)"

definition add_custom :: "'q \<Rightarrow> 'q \<Rightarrow> u32 \<Rightarrow> json \<Rightarrow> 'q manage \<Rightarrow> 'q manage" where
  "add_custom mq tx eid json s =
     (let (task, e) = start_custom tx (custom_of eid json) in register mq (task, CustomEntity e) s)"

text \<open>A link also starts the loop that opens its connections (\<open>continued_connect\<close>).\<close>

definition add_server :: "'q \<Rightarrow> 'q \<Rightarrow> u32 \<Rightarrow> json \<Rightarrow> 'q manage \<Rightarrow> 'q manage option" where
  "add_server mq tx eid json s =
     (if str_or [] (idx json ADDRESS) = [] then Some s
      else do {
        (task, e) \<leftarrow> start_server tx (server_of eid json);
        let s = s\<lparr>dialling := dialling s @ [(se_id e, se_protocol e, connect_msg e)]\<rparr>;
        Some (register mq (task, ServerEntity e) s)
      })"

definition queue_to :: "'q mpsc \<Rightarrow> u32 \<Rightarrow> json \<Rightarrow> 'q manage \<Rightarrow> 'q manage" where
  "queue_to m eid json s =
     (case map_of (senders s) eid of
        None \<Rightarrow> s
      | Some q \<Rightarrow> s\<lparr>senders := AList.update eid (snd (mpsc_send m json q)) (senders s)\<rparr>)"

definition queue_to_all :: "'q mpsc \<Rightarrow> json \<Rightarrow> 'q manage \<Rightarrow> 'q manage" where
  "queue_to_all m json s = s\<lparr>senders := map (\<lambda>(eid, q). (eid, snd (mpsc_send m json q))) (senders s)\<rparr>"

definition handle_queue_msg ::
    "'q mpsc \<Rightarrow> 'q \<Rightarrow> 'q \<Rightarrow> string \<Rightarrow> json \<Rightarrow> 'q manage \<Rightarrow> 'q manage option" where
  "handle_queue_msg m mq tx topic json s =
     (let eid = num_or 0 (idx json ID) in
      if topic = ''send.submit'' \<or> topic = ''send.deliver'' \<or> topic = ''send.report''
      then Some (queue_to m eid (setk json MANAGER_TYPE (JStr ''send'')) s)
      else if topic = ''account.add'' \<or> topic = ''account.init'' \<or> topic = ''account.modify''
      then Some (add_custom mq tx eid json (remove_entity m eid s))
      else if topic = ''passage.add'' \<or> topic = ''passage.init'' \<or> topic = ''passage.modify''
      then add_server mq tx eid json (remove_entity m eid s)
      else if topic = ''account.remove'' \<or> topic = ''passage.remove''
      then Some (remove_entity m eid s)
      else if topic = ''passage.request.state''
      then Some (if eid \<noteq> 0 then queue_to m eid (setk json MANAGER_TYPE (JStr topic)) s
            else queue_to_all m (setk json MANAGER_TYPE (JStr topic)) s)
      else Some s)"

subsection \<open>Messages of the accounts\<close>

definition handle_from_entity_msg :: "'q mpsc \<Rightarrow> string \<Rightarrow> json \<Rightarrow> 'q manage \<Rightarrow> 'q manage" where
  "handle_from_entity_msg m manager_type msg s =
     (case as_u32 (idx msg ''id'') of
        None \<Rightarrow> s
      | Some eid \<Rightarrow>
          (case map_of (senders s) eid of
             None \<Rightarrow> s
           | Some _ \<Rightarrow> if manager_type = ''close'' then close_task m eid s else s))"

subsection \<open>The loop of the manager\<close>

text \<open>
  One turn of \<open>start_server\<close>: a message of an account comes first; otherwise what the business side
  has sent, if it can be read.  The first component says whether the loop goes on.
\<close>

datatype business = Record string "json option" | ReceiveError

definition manager_turn ::
    "'q mpsc \<Rightarrow> 'q \<Rightarrow> 'q \<Rightarrow> business \<Rightarrow> 'q manage \<Rightarrow> (bool \<times> 'q manage) option" where
  "manager_turn m mq tx msg s =
     (let (json, q) = mpsc_recv m (from_entity s);
          s = s\<lparr>from_entity := q\<rparr>
      in case json of
           Some None \<Rightarrow> Some (False, s)
         | Some (Some msg) \<Rightarrow>
             Some (True, case as_str (idx msg MANAGER_TYPE) of
                Some manager_type \<Rightarrow> handle_from_entity_msg m manager_type msg s
              | None \<Rightarrow> s)
         | None \<Rightarrow>
             map_option (Pair True) (case msg of
                Record topic (Some json) \<Rightarrow> handle_queue_msg m mq tx topic json s
              | Record _ None \<Rightarrow> Some s
              | ReceiveError \<Rightarrow> Some s))"

subsection \<open>Services\<close>

text \<open>
  \<open>ServersManager::start\<close>: the services it spawns, with their hosts and protocols, up to the first
  entry that lacks one, or whose protocol has less than four bytes (a panic); and the connection
  a service makes of a socket it accepts.
\<close>

fun start_services :: "json list \<Rightarrow> (string \<times> protocol) list \<times> unit res" where
  "start_services [] = ([], Ok ())"
| "start_services (item # array) =
     (case as_str (idx item ''host'') of
        None \<Rightarrow> ([], Err NotFound)
      | Some host \<Rightarrow>
          (case as_str (idx item ''server_type'') of
             None \<Rightarrow> ([], Err NotFound)
           | Some h \<Rightarrow>
               (case protocol_from_str h of
                  None \<Rightarrow> ([], Panic)
                | Some server_type \<Rightarrow>
                    (let (spawned, r) = start_services array in ((host, server_type) # spawned, r)))))"

definition services_of :: "json \<Rightarrow> (string \<times> protocol) list \<times> unit res" where
  "services_of config = start_services (members (idx config ''config''))"

definition accept_conn :: "protocol \<Rightarrow> 'n \<Rightarrow> world \<Rightarrow> ('q, 'n) conn" where
  "accept_conn server_type sock w =
     \<lparr>chan = new_channel server_type True, framed = sock, codec_protocol = server_type,
      globals = w, published = []\<rparr>"

subsection \<open>Starting a link\<close>

text \<open>What a link that is started becomes, and when it cannot be started.\<close>

definition link_of :: "'q \<Rightarrow> u32 \<Rightarrow> json \<Rightarrow> 'q server_entity" where
  "link_of tx i json = (server_of i json)\<lparr>se_channel_to_entity_tx := Some tx\<rparr>"

lemma link_of_simps [simp]: "get_id (ServerEntity (link_of tx i json)) = i" "se_id (link_of tx i json) = i"
  by (simp_all add: link_of_def server_of_def new_server_def Let_def)

lemma read_limit_of [simp]: "se_read_limit (server_of i json) = num_or 200 (idx json READ_LIMIT)"
  by (simp add: server_of_def new_server_def Let_def)

lemma start_link:
  "(num_or 200 (idx json READ_LIMIT) :: u32) \<noteq> 0 \<Longrightarrow>
     \<exists>task. start_server tx (server_of i json) = Some (task, link_of tx i json) \<and> entity_id task = i"
  "(num_or 200 (idx json READ_LIMIT) :: u32) = 0 \<Longrightarrow> start_server tx (server_of i json) = None"
  by (simp_all add: start_server_def link_of_def start_context_def server_of_def new_server_def Let_def)

lemma add_server_cases:
  obtains (none) "str_or [] (idx json ADDRESS) = []" "add_server mq tx i json s = Some s"
  | (panics) "str_or [] (idx json ADDRESS) \<noteq> []" "(num_or 200 (idx json READ_LIMIT) :: u32) = 0"
      "add_server mq tx i json s = None"
  | (starts) task d where "str_or [] (idx json ADDRESS) \<noteq> []" "(num_or 200 (idx json READ_LIMIT) :: u32) \<noteq> 0"
      "entity_id task = i"
      "add_server mq tx i json s = Some (register mq (task, ServerEntity (link_of tx i json)) (s\<lparr>dialling := d\<rparr>))"
proof (cases "str_or [] (idx json ADDRESS) = []")
  case True
  then show thesis by (intro none) (simp_all add: add_server_def)
next
  case a: False
  show thesis
  proof (cases "(num_or 200 (idx json READ_LIMIT) :: u32) = 0")
    case True
    have "start_server tx (server_of i json) = None" by (rule start_link(2) [OF True])
    then have "add_server mq tx i json s = None" using a by (simp add: add_server_def)
    with a True show thesis by (rule panics)
  next
    case False
    obtain task where t: "start_server tx (server_of i json) = Some (task, link_of tx i json)" "entity_id task = i"
      using start_link(1) [OF False, of tx i] by (elim exE conjE) (rule that)
    with a False show thesis by (intro starts [of task]) (simp_all add: add_server_def Let_def)
  qed
qed

end
