(* ===== verification/Links.thy ===== *)
theory Links
  imports Channel Machine Wire
begin

text \<open>
  What a turn of a connection does, by cases: the message it takes, the end of a queue, a wake-up; what
  it leaves alone; which timers can wake it; and the units it writes of submit messages, which stay
  within the window of a second.
\<close>

subsection \<open>What the steps leave alone\<close>

lemma framed_send_simps [simp]:
  "chan (snd (framed_send s b c)) = chan c" "codec_protocol (snd (framed_send s b c)) = codec_protocol c"
  "globals (snd (framed_send s b c)) = globals c" "published (snd (framed_send s b c)) = published c"
  by (simp_all add: framed_send_def split_def Let_def)

lemma to_entity_simps [simp]:
  "framed (snd (to_entity m j c)) = framed c" "codec_protocol (snd (to_entity m j c)) = codec_protocol c"
  "globals (snd (to_entity m j c)) = globals c" "published (snd (to_entity m j c)) = published c"
  "ch_id (chan (snd (to_entity m j c))) = ch_id (chan c)"
  "need_approve (chan (snd (to_entity m j c))) = need_approve (chan c)"
  "ch_protocol (chan (snd (to_entity m j c))) = ch_protocol (chan c)"
  "entity_to_channel_priority_rx (chan (snd (to_entity m j c))) = entity_to_channel_priority_rx (chan c)"
  "entity_to_channel_common_rx (chan (snd (to_entity m j c))) = entity_to_channel_common_rx (chan c)"
  "rx_limit (chan (snd (to_entity m j c))) = rx_limit (chan c)"
  "tx_limit (chan (snd (to_entity m j c))) = tx_limit (chan c)"
  by (simp_all add: to_entity_def split_def Let_def split: option.split)

lemma framed_send_sent:
  "socket_ok s \<Longrightarrow> sock_sent s (framed (snd (framed_send s b c))) =
     sock_sent s (framed c) @ (if fst (framed_send s b c) then [b] else [])"
  by (auto simp: framed_send_def socket_ok_def split_def Let_def)

text \<open>The fields the loop never changes, and the queues it reads.\<close>

definition fixed :: "('q, 'n) conn \<Rightarrow> u64 \<times> bool \<times> protocol \<times> u32 \<times> u32" where
  "fixed c = (ch_id (chan c), need_approve (chan c), ch_protocol (chan c), rx_limit (chan c), tx_limit (chan c))"

definition waiting :: "'q mpsc \<Rightarrow> bool \<Rightarrow> ('q, 'n) conn \<Rightarrow> json list" where
  "waiting m priority c =
     (case (if priority then entity_to_channel_priority_rx (chan c) else entity_to_channel_common_rx (chan c)) of
        None \<Rightarrow> [] | Some q \<Rightarrow> mpsc_contents m q)"

definition has_queues :: "('q, 'n) conn \<Rightarrow> bool" where
  "has_queues c \<longleftrightarrow> entity_to_channel_priority_rx (chan c) \<noteq> None \<and> entity_to_channel_common_rx (chan c) \<noteq> None"

definition take_from :: "bool \<Rightarrow> 'q \<Rightarrow> ('q, 'n) conn \<Rightarrow> ('q, 'n) conn" where
  "take_from priority q c =
     (if priority then c\<lparr>chan := (chan c)\<lparr>entity_to_channel_priority_rx := Some q\<rparr>\<rparr>
      else c\<lparr>chan := (chan c)\<lparr>entity_to_channel_common_rx := Some q\<rparr>\<rparr>)"

lemma take_from_simps [simp]:
  "fixed (take_from pr q c) = fixed c" "framed (take_from pr q c) = framed c"
  "codec_protocol (take_from pr q c) = codec_protocol c" "globals (take_from pr q c) = globals c"
  "published (take_from pr q c) = published c" "channel_to_entity_tx (chan (take_from pr q c)) = channel_to_entity_tx (chan c)"
  "tx_limit (chan (take_from pr q c)) = tx_limit (chan c)"
  by (simp_all add: take_from_def fixed_def)

lemma waiting_take_from [simp]:
  "waiting m pr (take_from pr' q c) = (if pr = pr' then mpsc_contents m q else waiting m pr c)"
  by (simp add: take_from_def waiting_def)

lemma has_queues_take_from [simp]: "has_queues c \<Longrightarrow> has_queues (take_from pr q c)"
  by (simp add: take_from_def has_queues_def)

lemma frame_steps [simp]:
  "fixed (snd (framed_send s b c)) = fixed c" "fixed (snd (to_entity m j c)) = fixed c"
  "waiting m pr (snd (framed_send s b c)) = waiting m pr c" "waiting m pr (snd (to_entity m' j c)) = waiting m pr c"
  "has_queues (snd (framed_send s b c)) = has_queues c" "has_queues (snd (to_entity m j c)) = has_queues c"
  "fixed (c\<lparr>globals := w\<rparr>) = fixed c" "fixed (c\<lparr>published := es\<rparr>) = fixed c"
  "waiting m pr (c\<lparr>globals := w\<rparr>) = waiting m pr c" "waiting m pr (c\<lparr>published := es\<rparr>) = waiting m pr c"
  "has_queues (c\<lparr>globals := w\<rparr>) = has_queues c" "has_queues (c\<lparr>published := es\<rparr>) = has_queues c"
  by (simp_all add: fixed_def waiting_def has_queues_def)

lemma tx_limit_fixed: "fixed c' = fixed c \<Longrightarrow> tx_limit (chan c') = tx_limit (chan c)"
  by (simp add: fixed_def)

subsection \<open>A turn, by what it does\<close>

lemma heartbeat_result:
  assumes "heartbeat s x k c = Some (go, k', c')"
  shows "fixed c' = fixed c \<and> (\<forall>pr. waiting m pr c' = waiting m pr c) \<and> has_queues c' = has_queues c \<and>
    channel_to_entity_tx (chan c') = channel_to_entity_tx (chan c) \<and> published c' = published c \<and>
    curr_tx k' = curr_tx k \<and> curr_rx k' = curr_rx k \<and> timestamp k' = timestamp k \<and>
    (go \<longrightarrow> idle_count k' \<le> 30)"
  using assms
  by (auto simp: heartbeat_def Let_def split_def linorder_not_less split: if_splits option.splits sum.splits)

lemma heartbeat_chan:
  "heartbeat s x k c = Some (go, k', c') \<Longrightarrow> chan c' = chan c \<and> codec_protocol c' = codec_protocol c \<and>
     (\<not> go \<longrightarrow> 30 < idle_count k \<and> wait_active_resp k)"
  by (auto simp: heartbeat_def Let_def split_def split: if_splits option.splits sum.splits)

lemma heartbeat_idle: "heartbeat s x k c = Some (go, k', c') \<Longrightarrow> idle_count k \<le> 31 \<Longrightarrow> idle_count k' \<le> 31"
  by (auto simp: heartbeat_def Let_def split_def split: if_splits option.splits sum.splits)

text \<open>The message a turn takes from the queues, if it takes one.\<close>

definition picked :: "'q mpsc \<Rightarrow> work \<Rightarrow> ('q, 'n) conn \<Rightarrow> (bool \<times> json) option" where
  "picked m k c =
     (if curr_tx k < tx_limit (chan c) then
        case waiting m True c of
          v # _ \<Rightarrow> Some (True, v)
        | [] \<Rightarrow> (case waiting m False c of v # _ \<Rightarrow> Some (False, v) | [] \<Rightarrow> None)
      else None)"

text \<open>A turn finds the end of a queue: its senders are gone and it is empty.\<close>

definition queue_ended :: "'q mpsc \<Rightarrow> work \<Rightarrow> ('q, 'n) conn \<Rightarrow> bool" where
  "queue_ended m k c \<longleftrightarrow> curr_tx k < tx_limit (chan c) \<and>
     (case (entity_to_channel_priority_rx (chan c), entity_to_channel_common_rx (chan c)) of
        (Some p, Some q) \<Rightarrow> fst (mpsc_recv m p) = Some None \<or>
          fst (mpsc_recv m p) = None \<and> fst (mpsc_recv m q) = Some None
      | _ \<Rightarrow> False)"

text \<open>Looking into the queues, and taking a message out of one.\<close>

definition same_but_queues :: "('q, 'n) conn \<Rightarrow> ('q, 'n) conn \<Rightarrow> bool" where
  "same_but_queues c c' \<longleftrightarrow> fixed c' = fixed c \<and> framed c' = framed c \<and>
     codec_protocol c' = codec_protocol c \<and> globals c' = globals c \<and> published c' = published c \<and>
     channel_to_entity_tx (chan c') = channel_to_entity_tx (chan c) \<and> has_queues c'"

definition polled :: "'q mpsc \<Rightarrow> ('q, 'n) conn \<Rightarrow> ('q, 'n) conn \<Rightarrow> bool" where
  "polled m c c' \<longleftrightarrow> same_but_queues c c' \<and> (\<forall>pr. waiting m pr c' = waiting m pr c)"

definition taken :: "'q mpsc \<Rightarrow> bool \<Rightarrow> json \<Rightarrow> ('q, 'n) conn \<Rightarrow> ('q, 'n) conn \<Rightarrow> bool" where
  "taken m pr v c c' \<longleftrightarrow> same_but_queues c c' \<and> waiting m pr c = v # waiting m pr c' \<and>
     waiting m (\<not> pr) c' = waiting m (\<not> pr) c"

lemma same_but_queues_simps [simp]:
  "has_queues c \<Longrightarrow> same_but_queues c (take_from pr q c)"
  "has_queues c \<Longrightarrow> same_but_queues c (take_from pr q (take_from pr' q' c))"
  by (simp_all add: same_but_queues_def)

lemma guarded_recv_law:
  assumes "mpsc_ok m" and "guarded_recv m guard q = (r, q')"
  shows "case r of
      Some (Some v) \<Rightarrow> guard \<and> mpsc_contents m q = v # mpsc_contents m q'
    | _ \<Rightarrow> mpsc_contents m q' = mpsc_contents m q \<and> (guard \<longrightarrow> mpsc_contents m q = [])"
  using assms mpsc_received [OF assms(1), of q] mpsc_nothing [OF assms(1), of q]
  by (auto simp: guarded_recv_def split: option.split if_splits)

lemma select_turn_unfold:
  assumes "entity_to_channel_priority_rx (chan c) = Some p" and "entity_to_channel_common_rx (chan c) = Some q"
    and "guarded_recv m (curr_tx k < tx_limit (chan c)) p = (rp, p')"
    and "guarded_recv m (curr_tx k < tx_limit (chan c)) q = (rq, q')"
  shows "select_turn m s x wake k c =
    (case rp of
       Some msg \<Rightarrow> queue_turn m s x True msg k (take_from True p' c)
     | None \<Rightarrow>
         (case rq of
            Some msg \<Rightarrow> queue_turn m s x False msg k (take_from False q' (take_from True p' c))
          | None \<Rightarrow>
              (case wake of
                 Net ev \<Rightarrow> read_turn m s x ev k (take_from False q' (take_from True p' c))
               | WindowOver \<Rightarrow> Some (True, k, take_from False q' (take_from True p' c))
               | OneSecond \<Rightarrow> Some (True, k\<lparr>idle_count := idle_count k + 1\<rparr>, take_from False q' (take_from True p' c)))))"
  using assms by (cases wake) (simp_all add: select_turn_def take_from_def Let_def split_def split: option.split)

lemma select_turn_cases [consumes 2, case_names pick ended wake]:
  assumes "mpsc_ok m" and "has_queues c"
  obtains
    (pick) pr v c1 where "picked m k c = Some (pr, v)" "taken m pr v c c1"
      "select_turn m s x wake k c = send_turn m s x pr v (k\<lparr>idle_count := 0\<rparr>) c1"
  | (ended) c1 where "waiting m True c = []" "polled m c c1"
      "select_turn m s x wake k c = Some (False, k\<lparr>idle_count := 0\<rparr>, clear m c1)" "queue_ended m k c"
  | (wake) c1 where "picked m k c = None" "polled m c c1"
      "select_turn m s x wake k c = (case wake of
          Net ev \<Rightarrow> read_turn m s x ev k c1
        | WindowOver \<Rightarrow> Some (True, k, c1)
        | OneSecond \<Rightarrow> Some (True, k\<lparr>idle_count := idle_count k + 1\<rparr>, c1))"
proof -
  let ?guard = "curr_tx k < tx_limit (chan c)"
  obtain p q where pq: "entity_to_channel_priority_rx (chan c) = Some p" "entity_to_channel_common_rx (chan c) = Some q"
    using assms(2) by (auto simp: has_queues_def)
  then have w: "waiting m True c = mpsc_contents m p" "waiting m False c = mpsc_contents m q"
    by (simp_all add: waiting_def)
  obtain rp p' rq q' where r: "guarded_recv m ?guard p = (rp, p')" "guarded_recv m ?guard q = (rq, q')"
    by fastforce
  note u = select_turn_unfold [OF pq r, of s x wake]
  note lp = guarded_recv_law [OF assms(1) r(1)] and lq = guarded_recv_law [OF assms(1) r(2)]
  consider (p) v where "rp = Some (Some v)" | (pe) "rp = Some None" | (q) v where "rp = None" "rq = Some (Some v)"
    | (qe) "rp = None" "rq = Some None" | (n) "rp = None" "rq = None" by (metis option.exhaust)
  then show thesis
  proof cases
    case p
    then show thesis using lp w u assms(2)
      by (intro pick [of True v "take_from True p' c"]) (simp_all add: picked_def taken_def queue_turn_def)
  next
    case pe
    then have "guarded_recv m ?guard p = (Some None, p')" using r by simp
    then have ?guard by (auto simp: guarded_recv_def split: if_splits)
    moreover from this pe r(1) have "queue_ended m k c"
      by (simp add: queue_ended_def pq guarded_recv_def)
    ultimately show thesis using lp w u assms(2) pe
      by (intro ended [of "take_from True p' c"]) (simp_all add: polled_def queue_turn_def)
  next
    case q
    then show thesis using lp lq w u assms(2)
      by (intro pick [of False v "take_from False q' (take_from True p' c)"])
        (simp_all add: picked_def taken_def queue_turn_def)
  next
    case qe
    then have "guarded_recv m ?guard q = (Some None, q')" using r by simp
    then have ?guard by (auto simp: guarded_recv_def split: if_splits)
    moreover from this qe r have "queue_ended m k c"
      by (simp add: queue_ended_def pq guarded_recv_def)
    ultimately show thesis using lp lq w u assms(2) qe
      by (intro ended [of "take_from False q' (take_from True p' c)"]) (simp_all add: polled_def queue_turn_def)
  next
    case n
    then show thesis using lp lq w u assms(2)
      by (intro wake [of "take_from False q' (take_from True p' c)"]) (simp_all add: polled_def picked_def)
  qed
qed


lemma send_turn_result:
  assumes "send_turn m s x pr v k c = Some (go, k', c')"
  shows "fixed c' = fixed c \<and> (\<forall>pr. waiting m' pr c' = waiting m' pr c) \<and> has_queues c' = has_queues c \<and>
    timestamp k' = timestamp k \<and> idle_count k' = idle_count k \<and> curr_rx k' = curr_rx k \<and>
    (curr_tx k' = tx_limit (chan c) \<and> framed c' = framed c \<or>
     curr_tx k' = curr_tx k \<and> (socket_ok s \<longrightarrow> sock_sent s (framed c') = sock_sent s (framed c)) \<or>
     curr_tx k' = msg_num v + curr_tx k \<and> msg_num v + curr_tx k \<le> tx_limit (chan c) \<and>
       (\<exists>out json w. encode_message (ch_protocol (chan c)) x v (globals c) = Some (Inr out, json, w) \<and>
          (socket_ok s \<longrightarrow> sock_sent s (framed c') = sock_sent s (framed c) @ [out])))"
  using assms
  by (auto simp: send_turn_def Let_def split_def linorder_not_less framed_send_sent add.commute
      split: if_splits option.splits sum.splits)

lemma send_turn_given_up:
  assumes "mpsc_ok m" and "send_turn m s x pr v k c = Some (False, k', c')"
  shows "published c' = published c" and "\<forall>q. channel_to_entity_tx (chan c) = Some q \<longrightarrow> mpsc_is_closed m q"
proof -
  have t: "fst (to_entity m j c1)" if "channel_to_entity_tx (chan c1) = Some q" "\<not> mpsc_is_closed m q" for j q and c1 :: "('a, 'b) conn"
    using assms(1) that by (simp add: to_entity_def split_def Let_def mpsc_ok_def)
  show "published c' = published c"
    using assms(2) by (auto simp: send_turn_def Let_def split_def split: if_splits option.splits sum.splits)
  show "\<forall>q. channel_to_entity_tx (chan c) = Some q \<longrightarrow> mpsc_is_closed m q"
  proof (intro allI impI)
    fix q assume q: "channel_to_entity_tx (chan c) = Some q"
    show "mpsc_is_closed m q"
    proof (rule ccontr)
      assume n: "\<not> mpsc_is_closed m q"
      have "fst (to_entity m j c)" "fst (to_entity m j (snd (framed_send s b (c\<lparr>globals := w\<rparr>))))" for j b w
        using q n by (auto intro: t)
      then show False
        using assms(2) by (auto simp: send_turn_def Let_def split_def split: if_splits option.splits sum.splits)
    qed
  qed
qed

lemma clear_simps [simp]:
  "fixed (clear m c) = fixed c" "framed (clear m c) = framed c" "has_queues (clear m c) = has_queues c"
  "channel_to_entity_tx (chan (clear m c)) = channel_to_entity_tx (chan c)"
  by (auto simp: clear_def close_rx_def fixed_def has_queues_def Let_def split_def split: option.split)

lemma close_rx_law:
  assumes "mpsc_ok m"
  shows "\<exists>q'. close_rx m (Some q) = (mpsc_contents m q, Some q') \<and> mpsc_contents m q' = [] \<and> mpsc_is_closed m q'"
proof -
  let ?q = "mpsc_close m q"
  obtain msgs q' where d: "drain m (Suc (length (mpsc_contents m ?q))) ?q = (msgs, q')" by fastforce
  have "msgs = mpsc_contents m ?q" using drain_contents(2) [OF assms, of ?q "Suc (length (mpsc_contents m ?q))"] d by simp
  moreover have "mpsc_contents m q' = []" using drain_contents(1) [OF assms _ d [unfolded calculation]] by simp
  moreover have "mpsc_is_closed m q'"
    using drain_contents(3) [OF assms, of "Suc (length (mpsc_contents m ?q))" ?q] d mpsc_closed(2) [OF assms] by simp
  ultimately show ?thesis using d mpsc_closed(1) [OF assms, of q] by (simp add: close_rx_def Let_def del: drain.simps)
qed

lemma clear_result:
  assumes "mpsc_ok m"
  shows "waiting m pr (clear m c) = []"
    and "published (clear m c) = published c @ failed_events ''2'' (waiting m True c @ waiting m False c)"
proof -
  have e: "\<exists>r. close_rx m rx = ((case rx of None \<Rightarrow> [] | Some q \<Rightarrow> mpsc_contents m q), r) \<and>
      (case r of None \<Rightarrow> [] | Some q \<Rightarrow> mpsc_contents m q) = []" for rx
    using close_rx_law [OF assms] by (cases rx) (fastforce simp: close_rx_def)+
  obtain p where p: "close_rx m (entity_to_channel_priority_rx (chan c)) = (waiting m True c, p)"
    "(case p of None \<Rightarrow> [] | Some q \<Rightarrow> mpsc_contents m q) = []"
    using e [of "entity_to_channel_priority_rx (chan c)"] by (auto simp: waiting_def)
  obtain q where q: "close_rx m (entity_to_channel_common_rx (chan c)) = (waiting m False c, q)"
    "(case q of None \<Rightarrow> [] | Some q \<Rightarrow> mpsc_contents m q) = []"
    using e [of "entity_to_channel_common_rx (chan c)"] by (auto simp: waiting_def)
  show "waiting m pr (clear m c) = []" using p q by (simp add: clear_def waiting_def)
  show "published (clear m c) = published c @ failed_events ''2'' (waiting m True c @ waiting m False c)"
    using p q by (simp add: clear_def failed_events_def)
qed

lemma net_turn_result:
  assumes "net_turn m s x json k c = Some (go, k', c')"
  shows "go \<and> fixed c' = fixed c \<and> (\<forall>pr. waiting m' pr c' = waiting m' pr c) \<and> has_queues c' = has_queues c \<and>
    timestamp k' = timestamp k \<and> idle_count k' = idle_count k \<and> curr_tx k' = curr_tx k \<and>
    published c' = published c \<and> \<not> wait_active_resp k'"
  using assms
  by (auto simp: net_turn_def Let_def split_def split: if_splits option.splits)

lemma read_turn_result:
  assumes "mpsc_ok m" and "read_turn m s x ev k c = Some (go, k', c')"
  shows "fixed c' = fixed c \<and> has_queues c' = has_queues c \<and> curr_tx k' = curr_tx k \<and>
    timestamp k' = timestamp k \<and> idle_count k' = idle_count k \<and>
    (waiting m pr c' = waiting m pr c \<or> waiting m pr c' = [])"
  using assms(2) net_turn_result [of m s x _ k c go k' c' m] clear_result(1) [OF assms(1)]
  by (auto simp: read_turn_def split: option.splits sum.splits)

subsection \<open>The connection as a machine\<close>

text \<open>A turn of the loop, which ends at its return, or a message its account puts into a queue.\<close>

datatype link_event = LinkTurn u64 conn_wake | Queued bool json

type_synonym ('q, 'n) link_state = "bool \<times> work \<times> ('q, 'n) conn"

definition queue_msg :: "'q mpsc \<Rightarrow> bool \<Rightarrow> json \<Rightarrow> ('q, 'n) conn \<Rightarrow> ('q, 'n) conn" where
  "queue_msg m pr v c =
     (case (if pr then entity_to_channel_priority_rx (chan c) else entity_to_channel_common_rx (chan c)) of
        None \<Rightarrow> c
      | Some q \<Rightarrow> take_from pr (snd (mpsc_send m v q)) c)"

fun link_step :: "'q mpsc \<Rightarrow> 'n socket \<Rightarrow> ext \<Rightarrow> link_event \<Rightarrow> ('q, 'n) link_state \<Rightarrow> ('q, 'n) link_state option" where
  "link_step m s x (LinkTurn now wake) (go, k, c) =
     (if go then work_turn m s x now wake k c else Some (go, k, c))"
| "link_step m s x (Queued pr v) (go, k, c) = Some (go, k, queue_msg m pr v c)"

definition link_inv :: "('q, 'n) link_state \<Rightarrow> bool" where
  "link_inv = (\<lambda>(go, k, c). has_queues c \<and> curr_tx k \<le> tx_limit (chan c) \<and> idle_count k \<le> 31)"

lemma queue_msg_simps [simp]:
  "fixed (queue_msg m pr v c) = fixed c" "has_queues c \<Longrightarrow> has_queues (queue_msg m pr v c)"
  by (simp_all add: queue_msg_def split: option.split)

lemma mpsc_contents_send:
  "mpsc_ok m \<Longrightarrow> mpsc_contents m (snd (mpsc_send m v q)) =
     (if mpsc_is_closed m q then mpsc_contents m q else mpsc_contents m q @ [v])"
  by (simp add: mpsc_ok_def)

lemma waiting_queue_msg:
  "mpsc_ok m \<Longrightarrow> waiting m pr' (queue_msg m pr v c) = waiting m pr' c \<or>
     pr' = pr \<and> waiting m pr' (queue_msg m pr v c) = waiting m pr' c @ [v]"
  by (auto simp: queue_msg_def waiting_def take_from_def mpsc_contents_send split: option.split)

lemma open_window_simps [simp]:
  "idle_count (open_window t k) = idle_count k" "wait_active_resp (open_window t k) = wait_active_resp k"
  "active_test (open_window t k) = active_test k" "t = timestamp k \<Longrightarrow> open_window t k = k"
  by (simp_all add: open_window_def)

lemma curr_tx_open_window: "curr_tx k \<le> l \<Longrightarrow> curr_tx (open_window t k) \<le> l"
  by (simp add: open_window_def)

text \<open>A turn that gets past the head of the loop.\<close>

lemma work_turn_cases:
  assumes "work_turn m s x t wake k c = Some (go, k', c')"
  obtains (returned) "\<not> go" "heartbeat s x (open_window t k) c = Some (False, k', c')"
  | (goes_on) k1 c1 where "heartbeat s x (open_window t k) c = Some (True, k1, c1)"
      "select_turn m s x wake k1 c1 = Some (go, k', c')"
proof -
  from assms obtain g k1 c1 where h: "heartbeat s x (open_window t k) c = Some (g, k1, c1)"
    "(if g then select_turn m s x wake k1 c1 else Some (False, k1, c1)) = Some (go, k', c')"
    by (auto simp: work_turn_def elim: bind_Some_pairE)
  then show thesis using returned goes_on by (cases g) auto
qed

lemma select_turn_inv:
  assumes "mpsc_ok m" and "has_queues c" and "curr_tx k \<le> tx_limit (chan c)" and "idle_count k \<le> 30"
    and "select_turn m s x wake k c = Some (go, k', c')"
  shows "link_inv (go, k', c') \<and> fixed c' = fixed c"
  using assms(1,2)
proof (cases rule: select_turn_cases [where k = k and s = s and x = x and wake = wake])
  case (pick pr v c1)
  then have "send_turn m s x pr v (k\<lparr>idle_count := 0\<rparr>) c1 = Some (go, k', c')" using assms(5) by simp
  from send_turn_result [OF this, of m] pick(2) show ?thesis
    using assms(3) tx_limit_fixed [of c1 c] by (auto simp: link_inv_def taken_def same_but_queues_def fixed_def)
next
  case (ended c1)
  then show ?thesis using assms tx_limit_fixed [of c1 c] tx_limit_fixed [of "clear m c1" c]
    by (auto simp: link_inv_def polled_def same_but_queues_def)
next
  case (wake c1)
  have *: "fixed c1 = fixed c" "has_queues c1" "tx_limit (chan c1) = tx_limit (chan c)"
    using wake(2) tx_limit_fixed [of c1 c] by (auto simp: polled_def same_but_queues_def)
  have i: "idle_count k + 1 \<le> 31" using assms(4) by unat_arith
  have j: "idle_count k \<le> 31" using assms(4) by (rule order_trans) simp
  show ?thesis
    using wake(3) assms(3,5) i j * read_turn_result [OF assms(1), of s x _ k c1 go k' c'] tx_limit_fixed [of c' c]
    by (auto simp: link_inv_def split: conn_wake.splits)
qed


lemma work_turn_inv:
  assumes "mpsc_ok m" and "link_inv (True, k, c)" and "work_turn m s x t wake k c = Some (go, k', c')"
  shows "link_inv (go, k', c') \<and> fixed c' = fixed c"
  using assms(3)
proof (cases rule: work_turn_cases)
  case returned
  then show ?thesis
    using assms(2) heartbeat_result [OF returned(2)] tx_limit_fixed [of c' c]
      curr_tx_open_window [of k "tx_limit (chan c)" t] heartbeat_idle [OF returned(2)]
    by (auto simp: link_inv_def)
next
  case (goes_on k1 c1)
  then show ?thesis
    using assms(1,2) heartbeat_result [OF goes_on(1)] tx_limit_fixed [of c1 c]
      curr_tx_open_window [of k "tx_limit (chan c)" t] select_turn_inv [OF assms(1) _ _ _ goes_on(2)]
    by (auto simp: link_inv_def)
qed

interpretation link: machine "link_step m s x" "\<lambda>_ _. mpsc_ok m" link_inv
proof unfold_locales
  fix st t :: "('a, 'b) link_state" and e
  assume a: "link_inv st" "mpsc_ok m" "link_step m s x e st = Some t"
  obtain go k c where st: "st = (go, k, c)" by (cases st)
  show "link_inv t"
  proof (cases e)
    case (LinkTurn now wake)
    then show ?thesis using a st work_turn_inv [OF a(2), of k c s x now wake] by (cases t) (auto split: if_splits)
  next
    case (Queued pr v)
    then show ?thesis using a st tx_limit_fixed [of "queue_msg m pr v c" c] by (auto simp: link_inv_def)
  qed
qed

text \<open>
  Which timer a turn can wake by.  The end of the window is waited for only when the window is full; it is
  never more than a second away and stands before the second in the \<open>biased\<close> \<open>select!\<close>, so a
  second passes only while the window is not full.
\<close>

fun timer_armed :: "link_event \<Rightarrow> ('q, 'n) link_state \<Rightarrow> bool" where
  "timer_armed (LinkTurn t wake) (go, k, c) = (case wake of
      Net ev \<Rightarrow> True
    | WindowOver \<Rightarrow> tx_limit (chan c) \<le> curr_tx (open_window t k)
    | OneSecond \<Rightarrow> curr_tx (open_window t k) < tx_limit (chan c))"
| "timer_armed (Queued pr v) st = True"

subsection \<open>The window\<close>

text \<open>
  The units a turn really writes of a message of its account: what the socket has taken since the
  heartbeat of the turn, if the turn takes a message from the queues, cut into units by their length
  fields.  (Bytes that are no row of units count one by one.)
\<close>

definition buf_units :: "buf \<Rightarrow> nat" where
  "buf_units b = (case split_frames b of Some us \<Rightarrow> length us | None \<Rightarrow> length b)"

definition turn_units :: "'q mpsc \<Rightarrow> 'n socket \<Rightarrow> ext \<Rightarrow> u64 \<Rightarrow> conn_wake \<Rightarrow> work \<Rightarrow> ('q, 'n) conn \<Rightarrow> nat" where
  "turn_units m s x t wake k c =
     (case heartbeat s x (open_window t k) c of
        Some (True, k1, c1) \<Rightarrow>
          (case (picked m k1 c1, select_turn m s x wake k1 c1) of
             (Some _, Some (_, _, c2)) \<Rightarrow>
               sum_list (map buf_units (drop (length (sock_sent s (framed c1))) (sock_sent s (framed c2))))
           | _ \<Rightarrow> 0)
      | _ \<Rightarrow> 0)"

fun window_units :: "'q mpsc \<Rightarrow> 'n socket \<Rightarrow> ext \<Rightarrow> link_event list \<Rightarrow> ('q, 'n) link_state \<Rightarrow> nat" where
  "window_units m s x [] st = 0"
| "window_units m s x (e # es) (go, k, c) =
     (case e of LinkTurn t wake \<Rightarrow> if go then turn_units m s x t wake k c else 0 | Queued _ _ \<Rightarrow> 0) +
     (case link_step m s x e (go, k, c) of None \<Rightarrow> 0 | Some st \<Rightarrow> window_units m s x es st)"

text \<open>Messages whose ids do not overflow the counter.\<close>

definition countable_msg :: "u32 \<Rightarrow> json \<Rightarrow> bool" where
  "countable_msg limit v \<longleftrightarrow> jlen (idx v MSG_IDS) + unat limit < 2 ^ 32"

text \<open>A submit message with an id for every segment of its text, and events within the second \<open>t\<close>.\<close>

definition counted_submit :: "ext \<Rightarrow> u32 \<Rightarrow> json \<Rightarrow> bool" where
  "counted_submit x limit v \<longleftrightarrow> countable_msg limit v \<and> of_type ''Submit'' v \<and> jlen (idx v DEST_IDS) < 2 ^ 24 \<and>
     (case content_code x v of
        None \<Rightarrow> False
      | Some code \<Rightarrow> length code < 2 ^ 24 \<and> seg_count (length code) \<le> jlen (idx v MSG_IDS))"

fun within_second :: "ext \<Rightarrow> u64 \<Rightarrow> u32 \<Rightarrow> link_event \<Rightarrow> bool" where
  "within_second x t limit (LinkTurn t' wake) = (t' = t)"
| "within_second x t limit (Queued pr v) = counted_submit x limit v"

definition in_window :: "'q mpsc \<Rightarrow> ext \<Rightarrow> u64 \<Rightarrow> u32 \<Rightarrow> ('q, 'n) link_state \<Rightarrow> bool" where
  "in_window m x t limit = (\<lambda>(go, k, c). has_queues c \<and> tx_limit (chan c) = limit \<and> timestamp k = t \<and>
     curr_tx k \<le> limit \<and> (\<forall>pr. \<forall>v \<in> set (waiting m pr c). counted_submit x limit v))"

lemma counted_units:
  assumes "counted_submit x limit v" and "encode_message p x v w = Some (Inr out, json, w')"
  shows "buf_units out \<le> jlen (idx v MSG_IDS)"
proof -
  obtain code where c: "content_code x v = Some code" "length code < 2 ^ 24" "seg_count (length code) \<le> jlen (idx v MSG_IDS)"
    "of_type ''Submit'' v" "jlen (idx v DEST_IDS) < 2 ^ 24"
    using assms(1) by (auto simp: counted_submit_def split: option.splits)
  with submit_units [OF assms(2) c(4,1,2,5)] show ?thesis by (auto simp: buf_units_def)
qed

lemma unat_add_units:
  fixes c :: u32
  assumes "n + unat limit < 2 ^ 32" and "c \<le> limit"
  shows "unat (of_nat n + c) = n + unat c"
proof -
  have "n + unat c < 2 ^ 32" using assms by (meson add_left_mono le_less_trans word_le_nat_alt)
  then have "unat (of_nat (n + unat c) :: u32) = n + unat c" by (simp only: unsigned_of_nat) (simp add: take_bit_nat_eq_self)
  then show ?thesis by simp
qed

lemma in_window_same:
  assumes "in_window m x t limit (go, k, c)" and "fixed c' = fixed c" and "has_queues c'"
    and "timestamp k' = timestamp k" and "curr_tx k' \<le> limit" and "\<And>pr. set (waiting m pr c') \<subseteq> set (waiting m pr c)"
  shows "in_window m x t limit (go', k', c')"
  using assms tx_limit_fixed [of c' c] by (auto simp: in_window_def)

lemma select_turn_window:
  assumes "mpsc_ok m" and "socket_ok s" and "in_window m x t limit (go0, k, c)"
    and "select_turn m s x wake k c = Some (go, k', c')"
  shows "in_window m x t limit (go, k', c') \<and>
    unat (curr_tx k) + (case picked m k c of
        Some _ \<Rightarrow> sum_list (map buf_units (drop (length (sock_sent s (framed c))) (sock_sent s (framed c'))))
      | None \<Rightarrow> 0) \<le> unat (curr_tx k')"
proof -
  have q: "has_queues c" and l: "tx_limit (chan c) = limit" and b: "curr_tx k \<le> limit"
    using assms(3) by (simp_all add: in_window_def)
  from assms(1) q show ?thesis
  proof (cases rule: select_turn_cases [where k = k and s = s and x = x and wake = wake])
    case (pick pr v c1)
    have c1: "fixed c1 = fixed c" "has_queues c1" "framed c1 = framed c" "waiting m pr c = v # waiting m pr c1"
      "waiting m (\<not> pr) c1 = waiting m (\<not> pr) c"
      using pick(2) by (simp_all add: taken_def same_but_queues_def)
    have l1: "tx_limit (chan c1) = limit" using l tx_limit_fixed [OF c1(1)] by simp
    have "v \<in> set (waiting m pr c)" using c1(4) by simp
    then have cs: "counted_submit x limit v" using assms(3) by (force simp: in_window_def)
    then have u: "unat (msg_num v + curr_tx k) = jlen (idx v MSG_IDS) + unat (curr_tx k)"
      using b unat_add_units [of "jlen (idx v MSG_IDS)" limit "curr_tx k"]
      by (simp add: counted_submit_def countable_msg_def msg_num_def)
    have "send_turn m s x pr v (k\<lparr>idle_count := 0\<rparr>) c1 = Some (go, k', c')" using pick(3) assms(4) by simp
    note r = send_turn_result [OF this, of m]
    have sub: "set (waiting m pr' c') \<subseteq> set (waiting m pr' c)" for pr'
    proof -
      have "waiting m pr' c' = waiting m pr' c1" using r by blast
      then show ?thesis using c1(4,5) by (cases "pr' = pr") auto
    qed
    have bound: "curr_tx k' \<le> limit" using r b l1 by auto
    have "in_window m x t limit (go, k', c')"
      by (rule in_window_same [OF assms(3)]) (use r c1 sub bound in auto)
    moreover have "unat (curr_tx k) + sum_list (map buf_units (drop (length (sock_sent s (framed c))) (sock_sent s (framed c'))))
        \<le> unat (curr_tx k')"
      using r b l1 u assms(2) c1(3) counted_units [OF cs, of "ch_protocol (chan c1)" "globals c1"]
      by (auto simp: word_le_nat_alt)
    ultimately show ?thesis using pick(1) by simp
  next
    case (ended c1)
    then have "fixed c1 = fixed c" "has_queues c1" "framed c1 = framed c" by (simp_all add: polled_def same_but_queues_def)
    then have "in_window m x t limit (go, k', c')"
      by (intro in_window_same [OF assms(3)]) (use ended assms(4) b in \<open>auto simp: clear_result(1) [OF assms(1)]\<close>)
    then show ?thesis
      using ended(3) assms(4) \<open>framed c1 = framed c\<close> by (auto split: option.split)
  next
    case (wake c1)
    then have c1: "fixed c1 = fixed c" "has_queues c1" "\<And>pr. waiting m pr c1 = waiting m pr c"
      by (simp_all add: polled_def same_but_queues_def)
    have r: "fixed c' = fixed c \<and> has_queues c' \<and> timestamp k' = timestamp k \<and> curr_tx k' = curr_tx k \<and>
        (waiting m pr c' = waiting m pr c \<or> waiting m pr c' = [])" for pr
      using wake(3) assms(4) c1 read_turn_result [OF assms(1), of s x _ k c1 go k' c' pr]
      by (auto split: conn_wake.splits)
    have sub: "set (waiting m pr c') \<subseteq> set (waiting m pr c)" for pr using r [of pr] by auto
    have "in_window m x t limit (go, k', c')"
      by (rule in_window_same [OF assms(3)]) (use r [of True] b sub in auto)
    then show ?thesis using wake(1) r by simp
  qed
qed

lemma work_turn_window:
  assumes "mpsc_ok m" and "socket_ok s" and "in_window m x t limit (True, k, c)"
    and "work_turn m s x t wake k c = Some (go, k', c')"
  shows "in_window m x t limit (go, k', c') \<and> unat (curr_tx k) + turn_units m s x t wake k c \<le> unat (curr_tx k')"
proof -
  have t: "open_window t k = k" using assms(3) by (simp add: in_window_def)
  from assms(4) show ?thesis
  proof (cases rule: work_turn_cases)
    case returned
    note h = heartbeat_result [OF returned(2) [unfolded t]]
    have "in_window m x t limit (go, k', c')"
      by (rule in_window_same [OF assms(3)]) (use h assms(3) in \<open>auto simp: in_window_def\<close>)
    then show ?thesis using returned t h by (simp add: turn_units_def)
  next
    case (goes_on k1 c1)
    note h = heartbeat_result [OF goes_on(1) [unfolded t]]
    have "in_window m x t limit (True, k1, c1)"
      by (rule in_window_same [OF assms(3)]) (use h assms(3) in \<open>auto simp: in_window_def\<close>)
    from select_turn_window [OF assms(1,2) this goes_on(2)] show ?thesis
      using goes_on t h by (auto simp: turn_units_def split: option.splits prod.splits if_splits)
  qed
qed

lemma window_bound:
  assumes "mpsc_ok m" and "socket_ok s"
  shows "in_window m x t limit (go, k, c) \<Longrightarrow> list_all (within_second x t limit) es \<Longrightarrow>
    unat (curr_tx k) + window_units m s x es (go, k, c) \<le> unat limit"
proof (induction es arbitrary: go k c)
  case Nil
  then show ?case by (simp add: in_window_def word_le_nat_alt)
next
  case (Cons e es)
  show ?case
  proof (cases "link_step m s x e (go, k, c)")
    case None
    then have "turn_units m s x t' wake k c = 0" if "e = LinkTurn t' wake" go for t' wake
      using that by (auto simp: turn_units_def work_turn_def split: option.splits bool.splits if_splits)
    then show ?thesis using Cons.prems(1) None
      by (cases e) (auto simp: in_window_def word_le_nat_alt)
  next
    case (Some st)
    obtain go' k' c' where st: "st = (go', k', c')" by (cases st)
    have "in_window m x t limit (go', k', c') \<and> unat (curr_tx k) +
        (case e of LinkTurn t wake \<Rightarrow> if go then turn_units m s x t wake k c else 0 | Queued _ _ \<Rightarrow> 0) \<le> unat (curr_tx k')"
    proof (cases e)
      case (LinkTurn t' wake)
      then have t': "t' = t" using Cons.prems(2) by simp
      show ?thesis
      proof (cases go)
        case True
        then have "work_turn m s x t wake k c = Some (go', k', c')" using Some st LinkTurn t' by simp
        from work_turn_window [OF assms _ this] show ?thesis using Cons.prems(1) True LinkTurn t' by simp
      next
        case False
        then show ?thesis using Cons.prems(1) Some st LinkTurn by simp
      qed
    next
      case (Queued pr v)
      then have q: "go' = go" "k' = k" "c' = queue_msg m pr v c" "counted_submit x limit v"
        using Some st Cons.prems(2) by simp_all
      have "set (waiting m pr' c') \<subseteq> set (waiting m pr' c) \<union> {v}" for pr'
        using waiting_queue_msg [OF assms(1), of pr' pr v c] q(3) by auto
      then have "in_window m x t limit (go', k', c')"
        using Cons.prems(1) q tx_limit_fixed [of c' c] by (fastforce simp: in_window_def)
      then show ?thesis using Queued q by simp
    qed
    with Cons.IH [of go' k' c'] Cons.prems(2) Some st show ?thesis by simp
  qed
qed

end
