(* ===== verification/Traffic.thy ===== *)
theory Traffic
  imports Links Receipts Logins
begin

text \<open>
  What a connection does with its traffic: the limits of a second and what they do not count, the order
  of the queues, every way it ends and what becomes of its messages then, and a silent peer.
\<close>

subsection \<open>Example data\<close>

text \<open>A socket that works, or not, and remembers what it sent.\<close>

definition demo_socket :: "(bool \<times> buf list) socket" where
  "demo_socket = \<lparr>sock_send = (\<lambda>b (alive, bs). (alive, (alive, if alive then bs @ [b] else bs))), sock_sent = snd\<rparr>"

lemma demo_socket_ok [simp]: "socket_ok demo_socket"
  by (simp add: socket_ok_def demo_socket_def split_def)

definition demo_conn :: "protocol \<Rightarrow> u32 \<Rightarrow> json list \<Rightarrow> json list \<Rightarrow> (bool \<times> json list, bool \<times> buf list) conn" where
  "demo_conn p limit ps qs = \<lparr>chan = \<lparr>ch_id = 5, need_approve = False, ch_protocol = p,
     entity_to_channel_priority_rx = Some (True, ps), entity_to_channel_common_rx = Some (True, qs),
     channel_to_entity_tx = Some (True, []), rx_limit = limit, tx_limit = limit\<rparr>,
     framed = (True, []), codec_protocol = p, globals = demo_world, published = []\<rparr>"

definition demo_work :: work where
  "demo_work = \<lparr>curr_tx = 0, curr_rx = 0, idle_count = 0, wait_active_resp = False,
     active_test = JObj [(''msg_type'', JStr ''ActiveTest'')], timestamp = 100\<rparr>"

lemma demo_conn_simps [simp]:
  "has_queues (demo_conn p l ps qs)" "tx_limit (chan (demo_conn p l ps qs)) = l"
  "waiting demo_mpsc pr (demo_conn p l ps qs) = (if pr then ps else qs)"
  "start_work 100 (chan (demo_conn p l ps qs)) = Some (Some demo_work)"
  by (simp_all add: demo_conn_def has_queues_def waiting_def start_work_def demo_work_def)

subsection \<open>Limits\<close>

lemma may_run_always: "P \<Longrightarrow> may_run step (\<lambda>_ _. P) es s"
  by (induction es arbitrary: s) (auto split: option.split)

lemma may_run_and: "P \<Longrightarrow> may_run step may es s \<Longrightarrow> may_run step (\<lambda>e t. P \<and> may e t) es s"
  by (induction es arbitrary: s) (auto split: option.splits)

lemma start_work_inv:
  "start_work now (chan c) = Some (Some k) \<Longrightarrow> link_inv (True, k, c)"
  by (auto simp: start_work_def link_inv_def has_queues_def split: if_splits)

text \<open>C14: whatever has happened to a connection since it began to work, if all that waits for it and is
  queued for it in the rest of the second are submit messages with an id for each segment, the units it
  really writes of them in that time, together with those it has counted, are no more than its limit.
  Heartbeats and answers are not counted, nor are messages without ids (\<open>uncounted_message\<close>).\<close>

theorem window_units_bounded:
  assumes "mpsc_ok m" and "socket_ok s" and "start_work now (chan c0) = Some (Some k0)"
    and "run (link_step m s x) es0 (True, k0, c0) = Some (go, k, c)"
    and "list_all (counted_submit x (tx_limit (chan c))) (waiting m True c @ waiting m False c)"
    and "list_all (within_second x (timestamp k) (tx_limit (chan c))) es"
  shows "unat (curr_tx k) + window_units m s x es (go, k, c) \<le> unat (tx_limit (chan c))"
proof -
  have "link_inv (go, k, c)"
    using link.run_inv [OF assms(4) may_run_always [OF assms(1)] start_work_inv [OF assms(3)]] .
  then have "in_window m x (timestamp k) (tx_limit (chan c)) (go, k, c)"
    using assms(5) by (auto simp: link_inv_def in_window_def list_all_iff all_bool_eq)
  from window_bound [OF assms(1,2) this assms(6)] show ?thesis .
qed

lemma window_units_bounded_witness:
  "(case work_turn demo_mpsc demo_socket demo_ext 100 OneSecond demo_work
       (demo_conn CMPP48 1 [] [demo_json ''Submit'', demo_json ''Submit'']) of
      Some (go, k', c') \<Rightarrow> go \<and> curr_tx k' = 1 \<and> length (sock_sent demo_socket (framed c')) = 1
    | None \<Rightarrow> False) \<and>
   window_units demo_mpsc demo_socket demo_ext (replicate 3 (LinkTurn 100 OneSecond))
     (True, demo_work, demo_conn CMPP48 1 [] [demo_json ''Submit'', demo_json ''Submit'']) \<le> 1"
proof -
  let ?c = "demo_conn CMPP48 1 [] [demo_json ''Submit'', demo_json ''Submit'']"
  have c: "counted_submit demo_ext (tx_limit (chan ?c)) (demo_json ''Submit'')"
    using demo_content demo_of_type [of "''Submit''"]
    by (simp add: counted_submit_def countable_msg_def seg_count_def)
  have "list_all (counted_submit demo_ext (tx_limit (chan ?c))) (waiting demo_mpsc True ?c @ waiting demo_mpsc False ?c)"
    using c by simp
  moreover have "list_all (within_second demo_ext (timestamp demo_work) (tx_limit (chan ?c))) (replicate 3 (LinkTurn 100 OneSecond))"
    by (simp add: demo_work_def numeral_eq_Suc)
  moreover have "case work_turn demo_mpsc demo_socket demo_ext 100 OneSecond demo_work ?c of
      Some (go, k', c') \<Rightarrow> go \<and> curr_tx k' = 1 \<and> length (sock_sent demo_socket (framed c')) = 1 | None \<Rightarrow> False"
    by code_simp
  ultimately show ?thesis
    using window_units_bounded [where ?es0.0 = "[]" and now = 100 and c = ?c and ?c0.0 = ?c and k = demo_work and ?k0.0 = demo_work
      and go = True and es = "replicate 3 (LinkTurn 100 OneSecond)" and x = demo_ext, OF demo_mpsc_ok demo_socket_ok]
    by simp
qed

text \<open>A message without ids, as the business side sends deliver messages and reports, counts as
  nothing, however many units it is written in.\<close>

lemma uncounted_message:
  assumes "jlen (idx v MSG_IDS) = 0" and "curr_tx k \<le> tx_limit (chan c)" and "socket_ok s"
    and "encode_message (ch_protocol (chan c)) x v (globals c) = Some (Inr out, json, w)"
    and "fst (sock_send s out (framed c))"
  shows "\<exists>go k' c'. send_turn m s x pr v k c = Some (go, k', c') \<and> curr_tx k' = curr_tx k \<and>
    sock_sent s (framed c') = sock_sent s (framed c) @ [out]"
proof -
  have n: "msg_num v = 0" "\<not> curr_tx k > tx_limit (chan c)" using assms(1,2) by (simp_all add: msg_num_def leD)
  have "fst (framed_send s out (c\<lparr>globals := w\<rparr>))" using assms(5) by (simp add: framed_send_def split_def Let_def)
  then show ?thesis
    using n assms(4) framed_send_sent [OF assms(3), of out "c\<lparr>globals := w\<rparr>"]
    by (simp add: send_turn_def Let_def split_def)
qed

definition demo_unit :: json where
  "demo_unit = JObj [(MSG_TYPE_STR, JStr ''ActiveTest''), (MSG_IDS, strs [''1''])]"

subsection \<open>Where a message goes\<close>

definition account_queue :: "'q mpsc \<Rightarrow> ('q, 'n) conn \<Rightarrow> json list" where
  "account_queue m c = (case channel_to_entity_tx (chan c) of None \<Rightarrow> [] | Some q \<Rightarrow> mpsc_contents m q)"

definition account_open :: "'q mpsc \<Rightarrow> ('q, 'n) conn \<Rightarrow> bool" where
  "account_open m c \<longleftrightarrow> (case channel_to_entity_tx (chan c) of None \<Rightarrow> False | Some q \<Rightarrow> \<not> mpsc_is_closed m q)"

lemma to_entity_open:
  assumes "mpsc_ok m" and "account_open m c"
  shows "fst (to_entity m j c)" and "account_queue m (snd (to_entity m j c)) = account_queue m c @ [j]"
    and "account_open m (snd (to_entity m j c))"
proof -
  obtain q where q: "channel_to_entity_tx (chan c) = Some q" "\<not> mpsc_is_closed m q"
    using assms(2) by (auto simp: account_open_def split: option.splits)
  have l: "fst (mpsc_send m j q)" "mpsc_contents m (snd (mpsc_send m j q)) = mpsc_contents m q @ [j]"
    "\<not> mpsc_is_closed m (snd (mpsc_send m j q))"
    using q(2) assms(1) by (simp_all add: mpsc_ok_def)
  show "fst (to_entity m j c)" "account_queue m (snd (to_entity m j c)) = account_queue m c @ [j]"
    "account_open m (snd (to_entity m j c))"
    using q(1) l
    by (simp_all add: to_entity_def account_queue_def account_open_def split_def Let_def)
qed

lemma account_simps [simp]:
  "account_queue m (snd (framed_send s b c)) = account_queue m c" "account_queue m (c\<lparr>globals := w\<rparr>) = account_queue m c"
  "account_queue m (c\<lparr>published := es\<rparr>) = account_queue m c" "account_queue m (clear m' c) = account_queue m c"
  "account_open m (snd (framed_send s b c)) = account_open m c" "account_open m (c\<lparr>globals := w\<rparr>) = account_open m c"
  "account_open m (c\<lparr>published := es\<rparr>) = account_open m c" "account_open m (clear m' c) = account_open m c"
  by (simp_all add: account_queue_def account_open_def)

lemma same_but_queues_account:
  "same_but_queues c c' \<Longrightarrow> account_queue m c' = account_queue m c \<and> account_open m c' = account_open m c"
  by (simp add: same_but_queues_def account_queue_def account_open_def)

text \<open>
  A message to send leaves the loop in one of these ways: back to the account as too much for this
  second, written and back to the account to wait for its receipt, not written by the socket
  (published, if it came through the priority queue), or dropped as it cannot be encoded.  \<open>back\<close>,
  \<open>events\<close> and \<open>out\<close> are what is added to the queue of the account, the messages published, the
  socket.
\<close>

definition leaves ::
    "protocol \<Rightarrow> ext \<Rightarrow> world \<Rightarrow> bool \<Rightarrow> bool \<Rightarrow> json \<Rightarrow> json list \<Rightarrow> event list \<Rightarrow> buf list \<Rightarrow> bool" where
  "leaves p x w over priority v back events out \<longleftrightarrow>
     (if over then back = [setk v SPEED_LIMIT (JBool True)] \<and> events = [] \<and> out = []
      else case encode_message p x v w of
        None \<Rightarrow> False
      | Some (Inl _, _, _) \<Rightarrow> back = [] \<and> events = [] \<and> out = []
      | Some (Inr msg, json, _) \<Rightarrow>
          back = [setk json WAIT_RECEIPT (JBool True)] \<and> events = [] \<and> out = [msg] \<or>
          back = [] \<and> events = (if priority then failed_events ''3'' [json] else []) \<and> out = [])"

lemma send_turn_leaves:
  assumes "mpsc_ok m" and "socket_ok s" and "account_open m c"
    and "send_turn m s x pr v k c = Some (go, k', c')"
  shows "\<exists>back events out. go \<and> account_queue m c' = account_queue m c @ back \<and>
    published c' = published c @ events \<and> sock_sent s (framed c') = sock_sent s (framed c) @ out \<and>
    leaves (ch_protocol (chan c)) x (globals c) (msg_num v + curr_tx k > tx_limit (chan c)) pr v back events out"
proof (cases "msg_num v + curr_tx k > tx_limit (chan c)")
  case True
  then show ?thesis using assms(4) to_entity_open [OF assms(1,3)]
    by (auto simp: send_turn_def leaves_def Let_def split_def)
next
  case False
  show ?thesis
  proof (cases "encode_message (ch_protocol (chan c)) x v (globals c)")
    case None
    with False assms(4) show ?thesis by (simp add: send_turn_def)
  next
    case (Some rjw)
    obtain r json w where r: "rjw = (r, json, w)" by (cases rjw)
    let ?c = "\<lambda>msg. snd (framed_send s msg (c\<lparr>globals := w\<rparr>))"
    have o: "account_open m (?c msg)" for msg using assms(3) by simp
    show ?thesis
    proof (cases r)
      case (Inl e)
      with False assms(4) Some r show ?thesis by (auto simp: send_turn_def leaves_def)
    next
      case (Inr msg)
      show ?thesis
        using False assms(4) Some r Inr framed_send_sent [OF assms(2), of msg "c\<lparr>globals := w\<rparr>"]
          to_entity_open [OF assms(1) o [of msg], of "setk json WAIT_RECEIPT (JBool True)"]
        by (cases "fst (framed_send s msg (c\<lparr>globals := w\<rparr>))")
          (auto simp: send_turn_def leaves_def Let_def split_def)
    qed
  qed
qed


lemma heartbeat_quiet: "idle_count k \<le> 30 \<Longrightarrow> heartbeat s x k c = Some (True, k, c)"
  by (simp add: heartbeat_def leD)

lemma work_turn_quiet:
  "idle_count k \<le> 30 \<Longrightarrow> work_turn m s x t wake k c = select_turn m s x wake (open_window t k) c"
  by (simp add: work_turn_def heartbeat_quiet)

text \<open>C26: while the window is open and a priority message waits, a turn takes the first of those
  and leaves the common queue alone, whatever else happens; the message leaves in one of the ways
  named by \<open>leaves\<close>, so that a message that can be encoded ends in exactly one place.\<close>

theorem priority_taken_first:
  assumes "mpsc_ok m" and "socket_ok s" and "has_queues c" and "account_open m c"
    and "idle_count k \<le> 30" and "curr_tx (open_window t k) < tx_limit (chan c)"
    and "waiting m True c = v # vs" and "work_turn m s x t wake k c = Some (go, k', c')"
  shows "\<exists>back events out. go \<and> waiting m True c' = vs \<and> waiting m False c' = waiting m False c \<and>
    account_queue m c' = account_queue m c @ back \<and> published c' = published c @ events \<and>
    sock_sent s (framed c') = sock_sent s (framed c) @ out \<and>
    leaves (ch_protocol (chan c)) x (globals c)
      (msg_num v + curr_tx (open_window t k) > tx_limit (chan c)) True v back events out"
  using assms(1,3)
proof (cases rule: select_turn_cases [where k = "open_window t k" and s = s and x = x and wake = wake])
  case (pick pr u c1)
  then have pu: "pr" "u = v" using assms(6,7) by (simp_all add: picked_def)
  have c1: "same_but_queues c c1" "waiting m True c1 = vs" "waiting m False c1 = waiting m False c"
    using pick(2) pu assms(7) by (simp_all add: taken_def)
  have st: "send_turn m s x True v (open_window t k\<lparr>idle_count := 0\<rparr>) c1 = Some (go, k', c')"
    using pick(3) pu assms(8) work_turn_quiet [OF assms(5), of m s x t wake c] by simp
  have "ch_protocol (chan c1) = ch_protocol (chan c)" "tx_limit (chan c1) = tx_limit (chan c)"
    using c1(1) by (simp_all add: same_but_queues_def fixed_def)
  then show ?thesis
    using send_turn_leaves [OF assms(1,2) _ st] send_turn_result [OF st, of m] c1
      same_but_queues_account [OF c1(1), of m] assms(4)
    by (simp add: same_but_queues_def)
next
  case (ended c1)
  then show ?thesis using assms(7) by simp
next
  case (wake c1)
  then show ?thesis using assms(6,7) by (simp add: picked_def)
qed

lemma priority_taken_first_witness:
  "\<exists>go k' c'. work_turn demo_mpsc demo_socket demo_ext 100 (Net Closed) demo_work
      (demo_conn CMPP48 2 [demo_unit] [new_object]) = Some (go, k', c') \<and> waiting demo_mpsc False c' = [new_object]"
proof -
  let ?c = "demo_conn CMPP48 2 [demo_unit] [new_object]"
  have "\<exists>go k' c'. work_turn demo_mpsc demo_socket demo_ext 100 (Net Closed) demo_work ?c = Some (go, k', c')"
  proof -
    have "work_turn demo_mpsc demo_socket demo_ext 100 (Net Closed) demo_work ?c \<noteq> None" by code_simp
    then show ?thesis by auto
  qed
  then obtain go k' c' where w: "work_turn demo_mpsc demo_socket demo_ext 100 (Net Closed) demo_work ?c = Some (go, k', c')"
    by blast
  have "account_open demo_mpsc ?c" by (simp add: account_open_def demo_conn_def)
  from priority_taken_first [OF demo_mpsc_ok demo_socket_ok _ this _ _ _ w, of demo_unit "[]"] w
  show ?thesis by (auto simp: demo_work_def)
qed

subsection \<open>The end of a connection\<close>












lemma demo_account [simp]:
  "account_open demo_mpsc (demo_conn p l ps qs)" "account_queue demo_mpsc (demo_conn p l ps qs) = []"
  "published (demo_conn p l ps qs) = []" "idle_count demo_work = 0" "open_window 100 demo_work = demo_work"
  "picked demo_mpsc demo_work (demo_conn p 0 ps qs) = None"
  by (simp_all add: account_open_def account_queue_def demo_conn_def demo_work_def picked_def)


text \<open>A frame that cannot be decoded, or a read error, while the window is full, ends the
  connection without a word about the messages queued for it: they are not published, and stay
  behind in queues nobody reads any more.\<close>

theorem decode_error_strands:
  assumes "mpsc_ok m" and "has_queues c" and "idle_count k \<le> 30"
    and "tx_limit (chan c) \<le> curr_tx (open_window t k)"
    and "framed_next (codec_protocol c) x ev = Some (Some (Inl e))"
  shows "\<exists>k' c'. work_turn m s x t (Net ev) k c = Some (False, k', c') \<and>
    published c' = published c \<and> waiting m True c' = waiting m True c \<and> waiting m False c' = waiting m False c \<and>
    published (drop_conn m c') = published c"
proof -
  obtain p q where pq: "entity_to_channel_priority_rx (chan c) = Some p" "entity_to_channel_common_rx (chan c) = Some q"
    using assms(2) by (auto simp: has_queues_def)
  have g: "guarded_recv m (curr_tx (open_window t k) < tx_limit (chan c)) q' = (None, q')" for q'
    using assms(4) by (simp add: guarded_recv_def leD)
  have "work_turn m s x t (Net ev) k c = Some (False, open_window t k, take_from False q (take_from True p c))"
    using assms(5) by (simp add: work_turn_quiet [OF assms(3)] select_turn_unfold [OF pq g g] read_turn_def)
  then show ?thesis using pq by (simp add: drop_conn_def) (simp add: waiting_def)
qed

lemma decode_error_strands_witness:
  "\<exists>k' c'. work_turn demo_mpsc demo_socket demo_ext 100 (Net ReadError) demo_work
      (demo_conn CMPP48 0 [demo_unit] [new_object]) = Some (False, k', c') \<and>
     published c' = [] \<and> waiting demo_mpsc True c' = [demo_unit]"
proof -
  let ?c = "demo_conn CMPP48 0 [demo_unit] [new_object]"
  have h: "has_queues ?c" "idle_count demo_work \<le> 30" "tx_limit (chan ?c) \<le> curr_tx (open_window 100 demo_work)"
    "framed_next (codec_protocol ?c) demo_ext ReadError = Some (Some (Inl Other))" by simp_all
  from decode_error_strands [OF demo_mpsc_ok h, of demo_socket] show ?thesis by auto
qed

subsection \<open>A silent peer\<close>

lemma sgip_active_test_total: "\<exists>b w'. sgip_encode_active_test json w = Some (Inr b, json, w')"
proof -
  have "fits 21 ''106877999833''" "fits 19 ''18877994444''" "fits 10 ''0''" by (simp_all add: ascii_fits)
  moreover have "prefix_bytes ''00000'' 5 = Some (as_bytes (take 5 ''00000''))" by (rule prefix_bytes_ascii) simp_all
  moreover have "fill_all_86 [''18877994444''] dst =
      Some (dst @ concat (map (\<lambda>s. as_bytes ''86'' @ field s 19) [''18877994444'']))" for dst
    using calculation(2) by (subst fill_all_86_eq_Some) simp
  ultimately show ?thesis
    unfolding sgip_encode_active_test_def Let_def split_def by (simp add: succeed_def)
qed

lemma active_test_encodes:
  assumes "p \<noteq> NoProtocol" and "of_type ''ActiveTest'' json"
  shows "\<exists>b j w'. encode_message p x json w = Some (Inr b, j, w') \<and> of_type ''ActiveTest'' j"
  using assms sgip_active_test_total [of json w]
  by (cases p) (auto simp: encode_message_def of_type_def default_encode_active_test_def succeed_def split_def Let_def)

text \<open>How many turns a connection goes on without a sign of its peer.\<close>

definition patience :: "work \<Rightarrow> nat" where
  "patience k = (if wait_active_resp k then 32 - unat (idle_count k) else 64 - unat (idle_count k))"

definition silent :: "'q mpsc \<Rightarrow> ('q, 'n) link_state \<Rightarrow> bool" where
  "silent m = (\<lambda>(go, k, c). has_queues c \<and> waiting m True c = [] \<and> waiting m False c = [] \<and>
     ch_protocol (chan c) \<noteq> NoProtocol \<and> of_type ''ActiveTest'' (active_test k) \<and> idle_count k \<le> 31)"

lemma idle_next:
  fixes i :: u16
  assumes "i \<le> 30"
  shows "unat (i + 1) = unat i + 1" and "i + 1 \<le> 31"
proof -
  have i: "unat i \<le> 30" using assms by (simp add: word_le_nat_alt)
  then show u: "unat (i + 1) = unat i + 1" by (simp add: unat_word_ariths)
  show "i + 1 \<le> 31" using i u by (simp add: word_le_nat_alt)
qed

text \<open>What all turns leave alone: the heartbeat stays a heartbeat.\<close>

lemma send_turn_active: "send_turn m s x pr v k c = Some (go, k', c') \<Longrightarrow> active_test k' = active_test k"
  by (auto simp: send_turn_def Let_def split_def split: if_splits option.splits sum.splits)

lemma read_turn_active: "read_turn m s x ev k c = Some (go, k', c') \<Longrightarrow> active_test k' = active_test k"
  by (auto simp: read_turn_def net_turn_def Let_def split_def split: if_splits option.splits sum.splits)

lemma select_turn_active:
  assumes "mpsc_ok m" and "has_queues c" and "select_turn m s x wake k c = Some (go, k', c')"
  shows "active_test k' = active_test k"
  using assms(1,2)
proof (cases rule: select_turn_cases [where k = k and s = s and x = x and wake = wake])
  case (pick pr v c1)
  then show ?thesis using assms(3) send_turn_active [of m s x pr v "k\<lparr>idle_count := 0\<rparr>" c1 go k' c'] by simp
next
  case (ended c1)
  then show ?thesis using assms(3) by auto
next
  case (wake c1)
  then show ?thesis using assms(3) read_turn_active [of m s x _ k c1 go k' c'] by (cases wake) auto
qed

lemma heartbeat_active:
  assumes "heartbeat s x k c = Some (go, k', c')" and "ch_protocol (chan c) \<noteq> NoProtocol" and "of_type ''ActiveTest'' (active_test k)"
  shows "of_type ''ActiveTest'' (active_test k')"
proof -
  obtain b j w where "encode_message (ch_protocol (chan c)) x (active_test k) (globals c) = Some (Inr b, j, w)"
    "of_type ''ActiveTest'' j"
    using active_test_encodes [OF assms(2,3), of x "globals c"] by blast
  with assms show ?thesis by (auto simp: heartbeat_def Let_def split_def split: if_splits)
qed

definition beating :: "('q, 'n) link_state \<Rightarrow> bool" where
  "beating = (\<lambda>(go, k, c). link_inv (go, k, c) \<and> ch_protocol (chan c) \<noteq> NoProtocol \<and> of_type ''ActiveTest'' (active_test k))"

lemma work_turn_beating:
  assumes "mpsc_ok m" and "beating (True, k, c)" and "work_turn m s x t wake k c = Some (go, k', c')"
  shows "beating (go, k', c')"
proof -
  have l: "link_inv (go, k', c') \<and> fixed c' = fixed c"
    using work_turn_inv [OF assms(1) _ assms(3)] assms(2) by (simp add: beating_def)
  have b: "ch_protocol (chan c) \<noteq> NoProtocol" "of_type ''ActiveTest'' (active_test (open_window t k))"
    using assms(2) by (simp_all add: beating_def)
  from assms(3) have "of_type ''ActiveTest'' (active_test k')"
  proof (cases rule: work_turn_cases)
    case returned
    then show ?thesis using heartbeat_active [OF _ b] by blast
  next
    case (goes_on k1 c1)
    have "has_queues c1" using heartbeat_result [OF goes_on(1)] assms(2) by (simp add: beating_def link_inv_def)
    with goes_on show ?thesis using heartbeat_active [OF _ b] select_turn_active [OF assms(1)] by metis
  qed
  with l b(1) show ?thesis by (simp add: beating_def fixed_def)
qed

interpretation beat: machine "link_step m s x" "\<lambda>_ _. mpsc_ok m" beating
proof unfold_locales
  fix st t :: "('a, 'b) link_state" and e
  assume a: "beating st" "mpsc_ok m" "link_step m s x e st = Some t"
  obtain go k c where st: "st = (go, k, c)" by (cases st)
  show "beating t"
  proof (cases e)
    case (LinkTurn now wake)
    then show ?thesis using a st work_turn_beating [OF a(2), of k c s x now wake] by (cases t) (auto split: if_splits)
  next
    case (Queued pr v)
    have "fixed (queue_msg m pr v c) = fixed c" by simp
    then show ?thesis using a st Queued tx_limit_fixed [of "queue_msg m pr v c" c]
      by (auto simp: beating_def link_inv_def fixed_def)
  qed
qed

text \<open>A turn in which neither the peer nor the account does anything: one of the timers runs out.\<close>

fun timer_turn :: "link_event \<Rightarrow> bool" where
  "timer_turn (LinkTurn t (Net ev)) = False"
| "timer_turn (LinkTurn t WindowOver) = True"
| "timer_turn (LinkTurn t OneSecond) = True"
| "timer_turn (Queued pr v) = False"

lemma silent_select:
  assumes "mpsc_ok m" and "silent m (True, k, c)" and "idle_count k \<le> 30" and "wake \<in> {WindowOver, OneSecond}"
  shows "\<exists>go k' c'. select_turn m s x wake k c = Some (go, k', c') \<and>
    (\<not> go \<or> silent m (True, k', c') \<and> curr_tx k' = curr_tx k \<and> tx_limit (chan c') = tx_limit (chan c) \<and>
       patience k' \<le> patience k \<and> (wake = OneSecond \<longrightarrow> patience k' < patience k))"
proof -
  have "has_queues c" "picked m k c = None" using assms(2) by (simp_all add: silent_def picked_def)
  with assms(1) show ?thesis
  proof (cases rule: select_turn_cases [where k = k and s = s and x = x and wake = wake])
    case (pick pr v c1)
    with \<open>picked m k c = None\<close> show ?thesis by simp
  next
    case (ended c1)
    then show ?thesis by blast
  next
    case (wake c1)
    let ?k = "k\<lparr>idle_count := idle_count k + 1\<rparr>"
    have c1: "silent m (True, k, c1)" "tx_limit (chan c1) = tx_limit (chan c)"
      using wake(2) assms(2) by (simp_all add: silent_def polled_def same_but_queues_def fixed_def)
    then have "silent m (True, ?k, c1)"
      using idle_next(2) [OF assms(3)] by (simp add: silent_def)
    moreover have "patience ?k < patience k"
      using assms(3) idle_next(1) [OF assms(3)] by (auto simp: patience_def word_le_nat_alt)
    ultimately show ?thesis using wake(3) c1 assms(4) by fastforce
  qed
qed

lemma silent_turn:
  assumes "mpsc_ok m" and "silent m (True, k, c)" and "wake \<in> {WindowOver, OneSecond}"
  shows "\<exists>go k' c'. work_turn m s x t wake k c = Some (go, k', c') \<and>
    (\<not> go \<or> silent m (True, k', c') \<and> curr_tx k' = curr_tx (open_window t k) \<and> tx_limit (chan c') = tx_limit (chan c) \<and>
       patience k' \<le> patience k \<and> (wake = OneSecond \<longrightarrow> patience k' < patience k))"
proof (cases "idle_count k \<le> 30")
  case True
  have "silent m (True, open_window t k, c)" "patience (open_window t k) = patience k"
    using assms(2) by (simp_all add: silent_def patience_def)
  then show ?thesis
    using silent_select [OF assms(1) _ _ assms(3), of "open_window t k" c s x] True by (simp add: work_turn_quiet)
next
  case False
  show ?thesis
  proof (cases "wait_active_resp k")
    case True
    with False have "work_turn m s x t wake k c = Some (False, open_window t k, c)"
      by (simp add: work_turn_def heartbeat_def not_le)
    then show ?thesis by blast
  next
    case no: False
    let ?k = "open_window t k"
    obtain b j w where e: "encode_message (ch_protocol (chan c)) x (active_test k) (globals c) = Some (Inr b, j, w)"
      "of_type ''ActiveTest'' j"
      using active_test_encodes [of "ch_protocol (chan c)" "active_test k" x "globals c"] assms(2)
      by (auto simp: silent_def)
    let ?k1 = "?k\<lparr>active_test := j, wait_active_resp := True, idle_count := 0\<rparr>"
    let ?c1 = "snd (framed_send s b (c\<lparr>globals := w\<rparr>))"
    have h: "heartbeat s x ?k c = Some (True, ?k1, ?c1)"
      using False no e(1) by (simp add: heartbeat_def not_le split_def Let_def)
    have "silent m (True, ?k1, ?c1)" using assms(2) e(2) by (simp add: silent_def)
    moreover have "patience ?k1 < patience k"
      using assms(2) no by (auto simp: patience_def silent_def word_le_nat_alt)
    ultimately show ?thesis
      using silent_select [OF assms(1) _ _ assms(3), of ?k1 ?c1 s x] h by (auto simp: work_turn_def intro: less_trans)
  qed
qed

lemma timer_run_over: "list_all timer_turn es \<Longrightarrow> run (link_step m s x) es (False, k, c) = Some (False, k, c)"
proof (induction es)
  case (Cons e es)
  then show ?case by (cases e) simp_all
qed simp

lemma silent_run_total:
  assumes "mpsc_ok m"
  shows "silent m (go, k, c) \<Longrightarrow> list_all timer_turn es \<Longrightarrow> \<exists>go' k' c'. run (link_step m s x) es (go, k, c) = Some (go', k', c')"
proof (induction es arbitrary: go k c)
  case Nil
  then show ?case by simp
next
  case (Cons e es)
  then obtain t wake where e: "e = LinkTurn t wake" "wake \<in> {WindowOver, OneSecond}"
    by (cases e rule: timer_turn.cases) auto
  show ?case
  proof (cases go)
    case True
    then obtain go' k' c' where w: "work_turn m s x t wake k c = Some (go', k', c')" "\<not> go' \<or> silent m (True, k', c')"
      using silent_turn [OF assms, of k c wake s x t] Cons.prems(1) e(2) by fastforce
    have "list_all timer_turn es" using Cons.prems(2) by simp
    then have "\<exists>go'' k'' c''. run (link_step m s x) es (go', k', c') = Some (go'', k'', c'')"
      using w(2) Cons.IH [of True k' c'] timer_run_over [of es m s x k' c'] by (cases go') auto
    then show ?thesis using w(1) e(1) True by simp
  next
    case False
    then show ?thesis using timer_run_over [OF Cons.prems(2), of m s x k c] by auto
  qed
qed

lemma silent_run:
  assumes "mpsc_ok m"
  shows "silent m (go, k, c) \<Longrightarrow> list_all timer_turn es \<Longrightarrow> may_run (link_step m s x) timer_armed es (go, k, c) \<Longrightarrow>
    (\<And>t wake es'. go \<Longrightarrow> es = LinkTurn t wake # es' \<Longrightarrow> curr_tx (open_window t k) < tx_limit (chan c)) \<Longrightarrow>
    \<not> go \<or> patience k \<le> length es \<Longrightarrow>
    \<exists>k' c'. run (link_step m s x) es (go, k, c) = Some (False, k', c')"
proof (induction es arbitrary: go k c)
  case Nil
  then have "unat (idle_count k) \<le> 31" by (simp add: silent_def word_le_nat_alt)
  then have "0 < patience k" by (simp add: patience_def)
  with Nil show ?case by simp
next
  case (Cons e es)
  obtain t wake where e: "e = LinkTurn t wake" "wake \<in> {WindowOver, OneSecond}"
    using Cons.prems(2) by (cases e rule: timer_turn.cases) auto
  show ?case
  proof (cases go)
    case True
    have o: "curr_tx (open_window t k) < tx_limit (chan c)" using Cons.prems(4) True e(1) by blast
    have one: "wake = OneSecond" using Cons.prems(3) e o True by (auto simp: not_le [symmetric])
    obtain go' k' c' where w: "work_turn m s x t wake k c = Some (go', k', c')"
      "\<not> go' \<or> silent m (True, k', c') \<and> curr_tx k' = curr_tx (open_window t k) \<and> tx_limit (chan c') = tx_limit (chan c) \<and>
        patience k' < patience k"
      using silent_turn [OF assms, of k c wake s x t] Cons.prems(1) True e(2) one by auto
    have m': "may_run (link_step m s x) timer_armed es (go', k', c')" "list_all timer_turn es"
      using Cons.prems(2,3) e(1) True w(1) by simp_all
    show ?thesis
    proof (cases go')
      case go': True
      have "curr_tx (open_window t' k') < tx_limit (chan c')" for t'
      proof -
        have "curr_tx k' < tx_limit (chan c')" using w(2) go' o by simp
        moreover have "curr_tx (open_window t' k') \<le> curr_tx k'" by (simp add: open_window_def)
        ultimately show ?thesis by (rule order_le_less_trans [rotated])
      qed
      then have "\<exists>k'' c''. run (link_step m s x) es (go', k', c') = Some (False, k'', c'')"
        using w(2) go' Cons.prems(5) True m' by (intro Cons.IH) auto
      then show ?thesis using w(1) e(1) True by simp
    next
      case False
      then show ?thesis using w(1) e(1) True timer_run_over [OF m'(2), of m s x k' c'] by simp
    qed
  next
    case False
    then show ?thesis using timer_run_over [OF Cons.prems(2), of m s x k c] by auto
  qed
qed

text \<open>Without a write limit the window is always full, so no second is ever waited for.\<close>

definition never_idle :: "('q, 'n) link_state \<Rightarrow> bool" where
  "never_idle = (\<lambda>(go, k, c). tx_limit (chan c) = 0 \<and> has_queues c \<and> idle_count k = 0)"

lemma shut_select:
  assumes "has_queues c" and "tx_limit (chan c) = 0"
  shows "select_turn m s x wake k c = (case wake of
      Net ev \<Rightarrow> read_turn m s x ev k c
    | WindowOver \<Rightarrow> Some (True, k, c)
    | OneSecond \<Rightarrow> Some (True, k\<lparr>idle_count := idle_count k + 1\<rparr>, c))"
proof -
  obtain p q where pq: "entity_to_channel_priority_rx (chan c) = Some p" "entity_to_channel_common_rx (chan c) = Some q"
    using assms(1) by (auto simp: has_queues_def)
  have g: "guarded_recv m (curr_tx k < tx_limit (chan c)) q' = (None, q')" for q'
    by (simp add: guarded_recv_def assms(2))
  have "take_from False q (take_from True p c) = c" using pq by (simp add: take_from_def)
  then show ?thesis by (simp add: select_turn_unfold [OF pq g g] split: conn_wake.split)
qed

lemma shut_turn:
  "has_queues c \<Longrightarrow> tx_limit (chan c) = 0 \<Longrightarrow> idle_count k = 0 \<Longrightarrow> work_turn m s x t wake k c = (case wake of
      Net ev \<Rightarrow> read_turn m s x ev (open_window t k) c
    | WindowOver \<Rightarrow> Some (True, open_window t k, c)
    | OneSecond \<Rightarrow> Some (True, (open_window t k)\<lparr>idle_count := 1\<rparr>, c))"
  by (simp add: work_turn_quiet shut_select split: conn_wake.split)

interpretation shut: machine "link_step m s x" "\<lambda>e st. mpsc_ok m \<and> timer_armed e st" never_idle
proof unfold_locales
  fix st t :: "('a, 'b) link_state" and e
  assume a: "never_idle st" "mpsc_ok m \<and> timer_armed e st" "link_step m s x e st = Some t"
  obtain go k c where st: "st = (go, k, c)" by (cases st)
  have c: "tx_limit (chan c) = 0" "has_queues c" "idle_count k = 0" using a(1) st by (simp_all add: never_idle_def)
  show "never_idle t"
  proof (cases e)
    case (LinkTurn now wake)
    show ?thesis
    proof (cases wake)
      case (Net ev)
      show ?thesis
      proof (cases go)
        case True
        then have "read_turn m s x ev (open_window now k) c = Some t" using a(3) st LinkTurn Net c by (simp add: shut_turn)
        then show ?thesis
          using read_turn_result [of m s x ev "open_window now k" c "fst t" "fst (snd t)" "snd (snd t)"] a(2) c
            tx_limit_fixed [of "snd (snd t)" c]
          by (simp add: never_idle_def split_def)
      next
        case False
        then show ?thesis using a(1,3) st LinkTurn by auto
      qed
    next
      case WindowOver
      then show ?thesis using a(3) st LinkTurn c by (auto simp: shut_turn never_idle_def split: if_splits)
    next
      case OneSecond
      then show ?thesis using a(2) st LinkTurn c by simp
    qed
  next
    case (Queued pr v)
    then show ?thesis using a(3) st c tx_limit_fixed [of "queue_msg m pr v c" c] by (auto simp: never_idle_def)
  qed
qed

lemma shut_run:
  "never_idle (True, k, c) \<Longrightarrow> list_all timer_turn es \<Longrightarrow> may_run (link_step m s x) timer_armed es (True, k, c) \<Longrightarrow>
    \<exists>k' c'. run (link_step m s x) es (True, k, c) = Some (True, k', c')"
proof (induction es arbitrary: k)
  case Nil
  then show ?case by simp
next
  case (Cons e es)
  have c: "tx_limit (chan c) = 0" "has_queues c" "idle_count k = 0" using Cons.prems(1) by (simp_all add: never_idle_def)
  obtain t wake where e: "e = LinkTurn t wake" "wake \<in> {WindowOver, OneSecond}"
    using Cons.prems(2) by (cases e rule: timer_turn.cases) auto
  have "wake = WindowOver" using Cons.prems(3) e c(1) by auto
  then have w: "work_turn m s x t wake k c = Some (True, open_window t k, c)" using c by (simp add: shut_turn)
  have "never_idle (True, open_window t k, c)" using c by (simp add: never_idle_def)
  moreover have "may_run (link_step m s x) timer_armed es (True, open_window t k, c)"
    using Cons.prems(3) e(1) w by simp
  ultimately obtain k' c' where "run (link_step m s x) es (True, open_window t k, c) = Some (True, k', c')"
    using Cons.IH Cons.prems(2) by fastforce
  with w e(1) show ?case by simp
qed

text \<open>C28: take a connection at work, whatever has happened to it, and let its peer be silent and its account
  send nothing: only the timers, as the code arms them, wake it.  It never panics, and if its window is open
  it stops working after at most 64 turns, a second each: a heartbeat after 31 idle ones, the end after 31
  more.  With a write limit of zero it never stops: the end of the window is always due before the second,
  so that no heartbeat is sent.\<close>

theorem silent_peer_dropped:
  assumes "mpsc_ok m" and "start_work now (chan c0) = Some (Some k0)" and "ch_protocol (chan c0) \<noteq> NoProtocol"
    and "run (link_step m s x) es0 (True, k0, c0) = Some (True, k, c)"
    and "may_run (link_step m s x) timer_armed es0 (True, k0, c0)"
    and "waiting m True c = []" and "waiting m False c = []"
    and "list_all timer_turn es" and "may_run (link_step m s x) timer_armed es (True, k, c)"
  shows "\<exists>go k' c'. run (link_step m s x) es (True, k, c) = Some (go, k', c') \<and>
    (\<forall>t wake es'. es = LinkTurn t wake # es' \<and> curr_tx (open_window t k) < tx_limit (chan c) \<and> 64 \<le> length es \<longrightarrow> \<not> go) \<and>
    (tx_limit (chan c0) = 0 \<longrightarrow> go)"
proof -
  have "beating (True, k0, c0)"
    using start_work_inv [OF assms(2)] assms(2,3) by (auto simp: beating_def start_work_def of_type_def split: if_splits)
  then have "beating (True, k, c)" using beat.run_inv [OF assms(4) may_run_always [OF assms(1)]] by blast
  then have sil: "silent m (True, k, c)" using assms(6,7) by (simp add: silent_def beating_def link_inv_def)
  obtain go k' c' where r: "run (link_step m s x) es (True, k, c) = Some (go, k', c')"
    using silent_run_total [OF assms(1) sil assms(8)] by blast
  have "\<not> go" if "es = LinkTurn t wake # es'" "curr_tx (open_window t k) < tx_limit (chan c)" "64 \<le> length es" for t wake es'
  proof -
    have "patience k \<le> length es" using that(3) by (auto simp: patience_def intro: le_trans [OF diff_le_self])
    then show ?thesis using silent_run [OF assms(1) sil assms(8,9)] that(1,2) r by auto
  qed
  moreover have go if "tx_limit (chan c0) = 0"
  proof -
    have "never_idle (True, k0, c0)" using that assms(2) by (auto simp: never_idle_def start_work_def has_queues_def split: if_splits)
    moreover have "may_run (link_step m s x) (\<lambda>e st. mpsc_ok m \<and> timer_armed e st) es0 (True, k0, c0)"
      using may_run_and [OF assms(1,5)] .
    ultimately have "never_idle (True, k, c)" using shut.run_inv [OF assms(4)] by blast
    then show ?thesis using shut_run [OF _ assms(8,9)] r by fastforce
  qed
  ultimately show ?thesis using r by blast
qed

lemma silent_peer_dropped_witness:
  "(\<exists>k' c'. run (link_step demo_mpsc demo_socket demo_ext) (replicate 64 (LinkTurn 100 OneSecond))
       (True, demo_work, demo_conn SMGP 100 [] []) = Some (False, k', c')) \<and>
   (\<exists>k' c'. run (link_step demo_mpsc demo_socket demo_ext) (replicate 64 (LinkTurn 100 WindowOver))
       (True, demo_work, demo_conn SMGP 0 [] []) = Some (True, k', c'))"
proof -
  let ?c = "\<lambda>limit. demo_conn SMGP limit [] []" and ?es = "\<lambda>wake. replicate 64 (LinkTurn 100 wake)"
  have p: "ch_protocol (chan (?c l)) \<noteq> NoProtocol" for l by (simp add: demo_conn_def)
  have t: "list_all timer_turn (?es wake)" if "wake \<in> {WindowOver, OneSecond}" for wake
    using that by (auto simp: list_all_iff)
  have m: "may_run (link_step demo_mpsc demo_socket demo_ext) timer_armed (?es OneSecond) (True, demo_work, ?c 100)"
    "may_run (link_step demo_mpsc demo_socket demo_ext) timer_armed (?es WindowOver) (True, demo_work, ?c 0)"
    by code_simp+
  have first: "?es OneSecond = LinkTurn 100 OneSecond # replicate 63 (LinkTurn 100 OneSecond)"
    by (simp add: numeral_eq_Suc)
  have d: "start_work 100 (chan (?c l)) = Some (Some demo_work)"
    "run (link_step demo_mpsc demo_socket demo_ext) [] (True, demo_work, ?c l) = Some (True, demo_work, ?c l)"
    "may_run (link_step demo_mpsc demo_socket demo_ext) timer_armed [] (True, demo_work, ?c l)"
    "waiting demo_mpsc True (?c l) = []" "waiting demo_mpsc False (?c l) = []" for l by simp_all
  note dropped = silent_peer_dropped [OF demo_mpsc_ok d(1) p d(2-5)]
  have o: "OneSecond \<in> {WindowOver, OneSecond}" "WindowOver \<in> {WindowOver, OneSecond}" by simp_all
  have "\<exists>k' c'. run (link_step demo_mpsc demo_socket demo_ext) (?es OneSecond) (True, demo_work, ?c 100) = Some (False, k', c')"
  proof -
    obtain go k' c' where r: "run (link_step demo_mpsc demo_socket demo_ext) (?es OneSecond) (True, demo_work, ?c 100) = Some (go, k', c')"
      "\<forall>t wake es'. ?es OneSecond = LinkTurn t wake # es' \<and>
         curr_tx (open_window t demo_work) < tx_limit (chan (?c 100)) \<and> 64 \<le> length (?es OneSecond) \<longrightarrow> \<not> go"
      using dropped [OF t [OF o(1)] m(1)] by blast
    have w: "curr_tx (open_window 100 demo_work) < tx_limit (chan (?c 100))" by simp (simp add: demo_work_def)
    have "go = False" using r(2) [rule_format, OF conjI [OF first conjI [OF w]]] by simp
    show ?thesis using r(1) unfolding \<open>go = False\<close> by blast
  qed
  moreover have "\<exists>k' c'. run (link_step demo_mpsc demo_socket demo_ext) (?es WindowOver) (True, demo_work, ?c 0) = Some (True, k', c')"
  proof -
    have z: "tx_limit (chan (?c 0)) = 0" by simp
    obtain go k' c' where r: "run (link_step demo_mpsc demo_socket demo_ext) (?es WindowOver) (True, demo_work, ?c 0) = Some (go, k', c')"
      "tx_limit (chan (?c 0)) = 0 \<longrightarrow> go"
      using dropped [OF t [OF o(2)] m(2)] by blast
    have "go = True" using r(2) z by simp
    show ?thesis using r(1) unfolding \<open>go = True\<close> by blast
  qed
  ultimately show ?thesis by blast
qed

end
