(* ===== verification/Sessions.thy ===== *)
theory Sessions
  imports Traffic
begin

text \<open>
  Connections and accounts together: no work without a login, and what becomes of messages that pass
  between the task of a connection and the task of its account.
\<close>

subsection \<open>No work without a login\<close>

lemma handle_login_accepted:
  assumes "handle_login m x p q request True ip (c, entitys, save) = Some ((Success, result), c', entitys', save')"
  shows "\<exists>eid en a en' w. (eid, en) \<in> set entitys \<and> can_login en \<and>
    get_login_name en = str_or_empty (idx request LOGIN_NAME) \<and>
    login x en request (ch_protocol (chan c)) ip = (None, ch_protocol (chan c')) \<and>
    login_attach m p q en (case as_bool (idx request CAN_WRITE) of Some b \<Rightarrow> b | None \<Rightarrow> True) (globals c) save =
      Some (a, en', w, save') \<and> at_status a = Success \<and>
    c' = c\<lparr>globals := w, chan := attach_channel a ((chan c)\<lparr>ch_protocol := ch_protocol (chan c')\<rparr>)\<rparr> \<and>
    entitys' = AList.update eid en' entitys"
proof -
  obtain eid en where f: "find_entity True request entitys = Inr (eid, en)"
    using assms by (auto simp: handle_login_def find_entity_def split: option.splits)
  then have en: "(eid, en) \<in> set entitys" "can_login en" "get_login_name en = str_or_empty (idx request LOGIN_NAME)"
    by (auto simp: find_entity_def find_Some_iff in_set_conv_nth split: option.splits)
  obtain r proto where l: "login x en request (ch_protocol (chan c)) ip = (r, proto)" by fastforce
  have "r = None"
    using assms f l login_refused [of x en request "ch_protocol (chan c)" ip] by (cases r) (auto simp: handle_login_def)
  let ?at = "login_attach m p q en (case as_bool (idx request CAN_WRITE) of Some b \<Rightarrow> b | None \<Rightarrow> True) (globals c) save"
  obtain a en' w save1 where a: "?at = Some (a, en', w, save1)"
    using assms f l \<open>r = None\<close> by (cases ?at) (auto simp: handle_login_def)
  have "at_status a = Success" "save' = save1" "entitys' = AList.update eid en' entitys"
    "c' = c\<lparr>globals := w, chan := attach_channel a ((chan c)\<lparr>ch_protocol := proto\<rparr>)\<rparr>"
    using assms f l \<open>r = None\<close> a by (auto simp: handle_login_def Let_def)
  then show ?thesis using en l \<open>r = None\<close> a
    by (intro exI [of _ eid] exI [of _ en] exI [of _ a] exI [of _ en'] exI [of _ w] conjI) (simp_all add: attach_channel_def)
qed


lemma framed_send_chan: "framed_send s b c = (ok, c') \<Longrightarrow> chan c' = chan c"
  by (metis framed_send_simps(1) snd_conv)

lemma attached_queues:
  "login_attach m p q en wr w save = Some (a, en', w', save') \<Longrightarrow> at_status a = Success \<Longrightarrow>
   connections_left en \<and> at_priority_rx a = Some p \<and> at_common_rx a = Some q"
  by (cases en) (auto simp: attach_queues_def refused_def linorder_not_le Let_def split_def split: if_splits option.splits)

lemma match_version_family: "has p v \<Longrightarrow> protocol_parse (match_version p v) = protocol_parse p"
  by (cases p) (auto simp: match_version_simps)

text \<open>C8: a connection that has to log in works only if its first message, within the time, was a login
  that names an account which may log in and has room, from an address of that account's list and
  with its digest; then it works with the queues and the limits this account gave it.\<close>

theorem work_needs_login:
  assumes "start_server_channel m s x p q first ip now (c, entitys, save) = Some (Some k, c', entitys', save')"
    and "need_approve (chan c)"
  shows "\<exists>ev request eid en. first = Some ev \<and>
    framed_next (ch_protocol (chan c)) x ev = Some (Some (Inr request)) \<and> msg_type_of request = Connect \<and>
    (eid, en) \<in> set entitys \<and> can_login en \<and> get_login_name en = str_or_empty (idx request LOGIN_NAME) \<and>
    connections_left en \<and> check_addr_range (get_allow_ips en) ip \<and> digest_agrees x en request (ch_protocol (chan c)) \<and>
    protocol_parse (ch_protocol (chan c')) = protocol_parse (ch_protocol (chan c)) \<and>
    entity_to_channel_priority_rx (chan c') = Some p \<and> entity_to_channel_common_rx (chan c') = Some q"
proof -
  let ?c = "c\<lparr>codec_protocol := ch_protocol (chan c)\<rparr>"
  have w: "wait_conn m s x p q first ip (?c, entitys, save) = Some (Inr (), c', entitys', save')"
    using assms unfolding start_server_channel_def
    by (cases "wait_conn m s x p q first ip (?c, entitys, save)") (auto split: sum.splits)
  then obtain ev request where ev: "first = Some ev" "framed_next (ch_protocol (chan c)) x ev = Some (Some (Inr request))"
    "msg_type_of request = Connect"
    by (auto simp: wait_conn_def split: option.splits sum.splits if_splits)
  obtain result c1 ok c2 where h: "handle_login m x p q request True ip (?c, entitys, save) =
      Some ((Success, result), c1, entitys', save')"
    "answer_login s Success result (c1\<lparr>codec_protocol := ch_protocol (chan c1)\<rparr>) = Some (ok, c2)"
    "c' = c2\<lparr>chan := (chan c2)\<lparr>need_approve := False\<rparr>\<rparr>"
    using w ev by (auto simp: wait_conn_def bind_eq_Some split: if_splits)
  have "chan c2 = chan c1"
    using h(2) by (auto simp: answer_login_def bind_eq_Some Let_def split: option.splits dest!: framed_send_chan)
  then have c': "chan c' = (chan c1)\<lparr>need_approve := False\<rparr>" using h(3) by simp
  obtain eid en a en' w' where e: "(eid, en) \<in> set entitys" "can_login en"
    "get_login_name en = str_or_empty (idx request LOGIN_NAME)"
    "login x en request (ch_protocol (chan c)) ip = (None, ch_protocol (chan c1))"
    "login_attach m p q en (case as_bool (idx request CAN_WRITE) of Some b \<Rightarrow> b | None \<Rightarrow> True) (globals c) save =
      Some (a, en', w', save')" "at_status a = Success"
    "c1 = ?c\<lparr>globals := w', chan := attach_channel a ((chan ?c)\<lparr>ch_protocol := ch_protocol (chan c1)\<rparr>)\<rparr>"
    using handle_login_accepted [OF h(1)] by auto
  have "entity_to_channel_priority_rx (chan c1) = at_priority_rx a" "entity_to_channel_common_rx (chan c1) = at_common_rx a"
    by (subst e(7), simp add: attach_channel_def)+
  then have q: "entity_to_channel_priority_rx (chan c') = Some p" "entity_to_channel_common_rx (chan c') = Some q"
    using attached_queues [OF e(5,6)] c' by simp_all
  show ?thesis
    using ev e(1-3) login_accepted [OF e(4)] attached_queues [OF e(5,6)] q c' match_version_family by fastforce
qed


definition demo_entity :: "(bool \<times> json list) entity" where
  "demo_entity = CustomEntity (snd (start_custom (True, []) (demo_custom ''secret'')))"

definition demo_entitys :: "(bool \<times> json list) entitys" where
  "demo_entitys = [(9, demo_entity)]"

definition demo_login_frame :: buf where
  "demo_login_frame = [0, 0, 0, 1, 0, 0, 0, 3] @ replicate 8 0 @ [1] @ as_bytes ''901234'' @ replicate 10 0 @
     as_bytes ''guess'' @ replicate 11 0"

definition demo_new_conn :: "(bool \<times> json list, bool \<times> buf list) conn" where
  "demo_new_conn = \<lparr>chan = new_channel SGIP True, framed = (True, []), codec_protocol = SGIP,
     globals = demo_world, published = []\<rparr>"

lemma work_needs_login_witness:
  "\<exists>k c' entitys' save' request eid en.
     start_server_channel demo_mpsc demo_socket demo_ext (True, []) (True, []) (Some (Frame demo_login_frame)) (V4 1 2 3 4) 100
       (demo_new_conn, demo_entitys, []) = Some (Some k, c', entitys', save') \<and>
     framed_next SGIP demo_ext (Frame demo_login_frame) = Some (Some (Inr request)) \<and>
     (eid, en) \<in> set demo_entitys \<and> get_login_name en = str_or_empty (idx request LOGIN_NAME)"
proof -
  let ?r = "start_server_channel demo_mpsc demo_socket demo_ext (True, []) (True, []) (Some (Frame demo_login_frame)) (V4 1 2 3 4) 100
       (demo_new_conn, demo_entitys, [])"
  have "case framed_next SGIP demo_ext (Frame demo_login_frame) of
      Some (Some (Inr j)) \<Rightarrow> idx j LOGIN_NAME = JStr ''901234'' \<and> idx j CAN_WRITE = JBool True \<and>
        idx j AUTHENTICATOR = JNull \<and> idx j VERSION = JNum 1 \<and> idx j MSG_TYPE_STR = JStr ''Connect'' \<and>
        idx j SP_ID = JNum 3 \<and> idx j SEQ_ID = JNum 0 \<and> idx j MSG_TYPE_U32 = JNum 1
    | _ \<Rightarrow> False" by code_simp
  then obtain j where j: "framed_next SGIP demo_ext (Frame demo_login_frame) = Some (Some (Inr j))"
    "idx j LOGIN_NAME = JStr ''901234''" "idx j CAN_WRITE = JBool True" "idx j AUTHENTICATOR = JNull"
    "idx j VERSION = JNum 1" "idx j MSG_TYPE_STR = JStr ''Connect''" "idx j SP_ID = JNum 3" "idx j SEQ_ID = JNum 0"
    "idx j MSG_TYPE_U32 = JNum 1"
    by (auto split: option.splits sum.splits)
  have en: "get_login_name demo_entity = ''901234''" "get_password demo_entity = ''secret''" "get_allow_ips demo_entity = ''0.0.0.0''" "can_login demo_entity"
    "connections_left demo_entity" "entity_tx demo_entity = Some (True, [])"
    by (simp_all add: demo_entity_def start_custom_def demo_custom_def new_custom_def)
  have z: "auth_number (field ''secret'' 16) = 0" by code_simp
  have l: "login demo_ext demo_entity j SGIP (V4 1 2 3 4) = (None, SGIP)"
    using j by (simp add: login_def en any_address Let_def sgip_get_auth_field z as_word.simps match_version_simps)
  have t: "sgip_type_enum 1 = Connect" by code_simp
  have "\<exists>a en' w' save1. login_attach demo_mpsc (True, []) (True, []) demo_entity True demo_world [] = Some (a, en', w', save1) \<and>
      at_status a = Success \<and> at_priority_rx a = Some (True, []) \<and> at_common_rx a = Some (True, []) \<and> at_entity_tx a \<noteq> None"
    using login_attach_open [OF en(5,6), of demo_mpsc "(True, [])" "(True, [])" True demo_world "[]"] by force
  then obtain a en' w' save1 where at: "login_attach demo_mpsc (True, []) (True, []) demo_entity True demo_world [] = Some (a, en', w', save1)"
    "at_status a = Success" "at_priority_rx a = Some (True, [])" "at_common_rx a = Some (True, [])" "at_entity_tx a \<noteq> None"
    by blast
  have c: "ch_protocol (chan demo_new_conn) = SGIP" "globals demo_new_conn = demo_world" "framed demo_new_conn = (True, [])"
    "need_approve (chan demo_new_conn)" "demo_new_conn\<lparr>codec_protocol := SGIP\<rparr> = demo_new_conn"
    "codec_protocol demo_new_conn = SGIP"
    by (simp_all add: demo_new_conn_def new_channel_def)
  let ?c1 = "demo_new_conn\<lparr>globals := w', chan := attach_channel a ((chan demo_new_conn)\<lparr>ch_protocol := SGIP\<rparr>)\<rparr>"
  have h: "handle_login demo_mpsc demo_ext (True, []) (True, []) j True (V4 1 2 3 4) (demo_new_conn, demo_entitys, []) =
      Some ((Success, j), ?c1, AList.update 9 en' demo_entitys, save1)"
    using at j(3) en l c by (simp add: handle_login_def find_entity_def demo_entitys_def j(2) str_or_empty_def)
  have "\<exists>c2. answer_login demo_socket Success j (?c1\<lparr>codec_protocol := SGIP\<rparr>) = Some (True, c2) \<and> chan c2 = chan ?c1"
    using c by (simp add: answer_login_def attach_channel_def encode_receipt_def j t as_word.simps sgip_encode_connect_rep_def
      reply_def framed_send_def demo_socket_def)
  then obtain c2 where an: "answer_login demo_socket Success j (?c1\<lparr>codec_protocol := SGIP\<rparr>) = Some (True, c2)" "chan c2 = chan ?c1"
    by blast
  have "\<exists>k c' entitys' save'. ?r = Some (Some k, c', entitys', save')"
    using at(3-5) an j(1)
    by (simp add: c h start_server_channel_def wait_conn_def msg_type_of_def j(6) str_or_empty_def msg_type_from_str_def lookup_or_def
      start_work_def attach_channel_def)
  then obtain k c' entitys' save' where r: "?r = Some (Some k, c', entitys', save')" by blast
  have "need_approve (chan demo_new_conn)" by (simp add: demo_new_conn_def new_channel_def)
  from work_needs_login [OF r this] r show ?thesis by (force simp: demo_new_conn_def new_channel_def)
qed


subsection \<open>Messages that go in circles\<close>

lemma send_open_handed:
  assumes "mpsc_ok m" and "all_open m c" and "send_channels c \<noteq> []" and "distinct (map cs_id (send_channels c))"
  shows "\<exists>c'. send_to_channels m msg c = Some c' \<and> failures (to_queue c') = failures (to_queue c) \<and>
    handed m (is_priority msg) (stamp_msg c msg) (send_channels c) (send_channels c')"
proof -
  obtain c' kept es where r: "send_to_channels m msg c = Some c'" "to_queue c' = to_queue c @ es"
    "only_dead_dropped m (is_priority msg) (stamp_msg c msg) (send_channels c) kept"
    "failures es = [] \<and> handed m (is_priority msg) (stamp_msg c msg) kept (send_channels c') \<or>
     failures es = [(TOPIC_TO_B_FAILURE, [], stamp_msg c msg)] \<and> send_channels c' = kept"
    using send_to_channels_result [OF assms(1,4), of msg] by blast
  have "fst (mpsc_send m v (sender pr s))" if "s \<in> set (send_channels c)" for v pr s
    using assms(1,2) that by (auto simp: mpsc_ok_def all_open_def list_all_iff sender_def)
  then have kept: "kept = send_channels c"
    using r(3) by (auto simp: only_dead_dropped_def intro: filter_True)
  obtain i s' where "i < length (send_channels c)" "send_channels c' = (send_channels c)[i := s']"
    "queued m s' = Suc (queued m (send_channels c ! i))"
    using send_open [OF assms(1-3), of msg] r(1) assms(3) by (metis length_greater_0_conv mod_less_divisor option.inject)
  then have "send_channels c' \<noteq> kept" using kept by (metis n_not_Suc_n nth_list_update_eq)
  with r kept show ?thesis by auto
qed

text \<open>A submit message, not yet sent, of more units than a second of the connection allows.\<close>

definition oversize :: "u32 \<Rightarrow> json \<Rightarrow> bool" where
  "oversize limit v \<longleftrightarrow> of_type ''Submit'' v \<and> as_bool (idx v WAIT_RECEIPT) \<noteq> Some True \<and>
     unat limit < jlen (idx v MSG_IDS) \<and> countable_msg limit v"

lemma oversize_over:
  assumes "oversize limit v" and "n \<le> limit"
  shows "msg_num v + n > limit"
proof -
  have "unat (msg_num v + n) = jlen (idx v MSG_IDS) + unat n"
    unfolding msg_num_def by (rule unat_add_units) (use assms in \<open>simp_all add: oversize_def countable_msg_def\<close>)
  then show ?thesis using assms(1) by (simp add: oversize_def word_less_nat_alt)
qed

text \<open>A message of more units than the limit of its connection goes in circles: the connection
  hands it back, closing its window, and the account queues it again, at a connection of the same
  limit for the same fate.  In no such round is it written, nor reported.\<close>

theorem oversize_circulates:
  assumes "mpsc_ok m" and "has_queues c" and "account_open m c" and "idle_count k \<le> 30"
    and "picked m (open_window t k) c = Some (pr, v)" and "oversize (tx_limit (chan c)) v"
    and "work_turn m s x t wake k c = Some (True, k', c')"
    and "all_open m ctx" and "send_channels ctx \<noteq> []" and "distinct (map cs_id (send_channels ctx))"
  shows "framed c' = framed c \<and> published c' = published c \<and> curr_tx k' = tx_limit (chan c') \<and>
    (\<exists>v' ctx' v''. account_queue m c' = account_queue m c @ [v'] \<and>
      handle_from_channel_rx m now (Some v') save ctx = Some (True, save, ctx') \<and>
      failures (to_queue ctx') = failures (to_queue ctx) \<and>
      handed m (is_priority v) v'' (send_channels ctx) (send_channels ctx') \<and> oversize (tx_limit (chan c)) v'')"
proof -
  let ?k = "open_window t k" and ?v = "setk v SPEED_LIMIT (JBool True)"
  have w: "select_turn m s x wake ?k c = Some (True, k', c')"
    using assms(7) by (simp add: work_turn_quiet [OF assms(4)])
  obtain c1 where c1: "same_but_queues c c1" "send_turn m s x pr v (?k\<lparr>idle_count := 0\<rparr>) c1 = Some (True, k', c')"
    using assms(1,2)
    by (cases rule: select_turn_cases [where k = ?k and s = s and x = x and wake = wake])
      (use w assms(5) in \<open>auto simp: taken_def\<close>)
  have l: "tx_limit (chan c1) = tx_limit (chan c)" "curr_tx ?k \<le> tx_limit (chan c)"
    using c1(1) assms(5) by (auto simp: same_but_queues_def fixed_def picked_def split: if_splits)
  have "msg_num v + curr_tx ?k > tx_limit (chan c1)" using oversize_over [OF assms(6) l(2)] l(1) by simp
  then have "k' = ?k\<lparr>idle_count := 0, curr_tx := tx_limit (chan c1)\<rparr>" "c' = snd (to_entity m ?v c1)"
    using c1(2) by (auto simp: send_turn_def split_def Let_def)
  moreover have "account_open m c1" "account_queue m c1 = account_queue m c"
    using same_but_queues_account [OF c1(1)] assms(3) by simp_all
  ultimately have conn: "framed c' = framed c" "published c' = published c" "curr_tx k' = tx_limit (chan c')"
    "account_queue m c' = account_queue m c @ [?v]"
    using c1(1) to_entity_open(2) [OF assms(1), of c1 ?v] by (simp_all add: same_but_queues_def)
  let ?r = "removek (received (entity_id ctx) now ?v) SPEED_LIMIT"
  obtain ctx' where ctx': "send_to_channels m ?r ctx = Some ctx'" "failures (to_queue ctx') = failures (to_queue ctx)"
    "handed m (is_priority ?r) (stamp_msg ctx ?r) (send_channels ctx) (send_channels ctx')"
    using send_open_handed [OF assms(1,8-10), of ?r] by blast
  have "handle_from_channel_rx m now (Some ?v) save ctx = Some (True, save, ctx')"
    using assms(6) ctx'(1)
    by (simp add: handle_from_channel_rx_def on_channel_msg_def on_submit_def oversize_def of_type_def Let_def)
  moreover have "oversize (tx_limit (chan c)) (stamp_msg ctx ?r)"
    using assms(6) by (simp add: oversize_def of_type_def countable_msg_def)
  moreover have "is_priority ?r = is_priority v" by (simp add: is_priority_def)
  ultimately show ?thesis using conn ctx'(2,3) by auto
qed


definition demo_long :: json where
  "demo_long = JObj [(MSG_TYPE_STR, JStr ''Submit''), (MSG_IDS, strs [''1'', ''2''])]"

lemma oversize_circulates_witness:
  "\<exists>k' c' v' ctx' v''. work_turn demo_mpsc demo_socket demo_ext 100 OneSecond demo_work (demo_conn CMPP48 1 [] [demo_long]) =
       Some (True, k', c') \<and> account_queue demo_mpsc c' = [v'] \<and>
     handle_from_channel_rx demo_mpsc 0 (Some v') [] (demo_context Server 5 [demo_channel 1 True True]) = Some (True, [], ctx') \<and>
     oversize 1 v'' \<and> handed demo_mpsc False v'' [demo_channel 1 True True] (send_channels ctx')"
proof -
  let ?c = "demo_conn CMPP48 1 [] [demo_long]" and ?ctx = "demo_context Server 5 [demo_channel 1 True True]"
  have "case work_turn demo_mpsc demo_socket demo_ext 100 OneSecond demo_work ?c of Some (True, _) \<Rightarrow> True | _ \<Rightarrow> False"
    by code_simp
  then obtain k' c' where w: "work_turn demo_mpsc demo_socket demo_ext 100 OneSecond demo_work ?c = Some (True, k', c')"
    by (auto split: option.splits bool.splits)
  have o: "oversize (tx_limit (chan ?c)) demo_long"
    by (simp add: oversize_def demo_long_def of_type_def countable_msg_def)
  have pk: "picked demo_mpsc (open_window 100 demo_work) ?c = Some (False, demo_long)"
    by (simp add: picked_def) (simp add: demo_work_def)
  have ctx: "all_open demo_mpsc ?ctx" "send_channels ?ctx \<noteq> []" "distinct (map cs_id (send_channels ?ctx))"
    by (simp_all add: all_open_def demo_channel_def)
  have p: "is_priority demo_long = False" by (simp add: is_priority_def demo_long_def)
  from oversize_circulates [OF demo_mpsc_ok _ _ _ pk o w ctx, where save = "[]" and now = 0] w p
  show ?thesis by auto
qed

text \<open>A message for the peer that is no submit, handed back by its connection because the window
  is full, is taken by the account for one the peer has sent: it is published as incoming, and
  leaves the queues.\<close>

theorem bounced_deliver_published:
  assumes "of_type ''Deliver'' v" and "as_bool (idx v WAIT_RECEIPT) \<noteq> Some True" and "as_u8 (idx v LONG_SMS_TOTAL) = None"
  shows "\<exists>ctx' j. handle_from_channel_rx m now (Some (setk v SPEED_LIMIT (JBool True))) save ctx = Some (True, save, ctx') \<and>
    send_channels ctx' = send_channels ctx \<and> wait_receipt_map ctx' = wait_receipt_map ctx \<and>
    to_queue ctx' = to_queue ctx @ [(TOPIC_TO_B_DELIVER, [], j)] \<and> idx j MSG_CONTENT = idx v MSG_CONTENT"
  using assms
  by (simp add: handle_from_channel_rx_def on_channel_msg_def on_deliver_def of_type_def Let_def strip_internal_def)

lemma bounced_deliver_published_witness:
  "\<exists>ctx' j. handle_from_channel_rx demo_mpsc 0 (Some (setk (demo_json ''Deliver'') SPEED_LIMIT (JBool True))) []
       (demo_context Custom 0 []) = Some (True, [], ctx') \<and>
     to_queue ctx' = [(TOPIC_TO_B_DELIVER, [], j)] \<and> idx j MSG_CONTENT = JStr ''hello''"
proof -
  have h: "of_type ''Deliver'' (demo_json ''Deliver'')" "as_bool (idx (demo_json ''Deliver'') WAIT_RECEIPT) \<noteq> Some True"
    "as_u8 (idx (demo_json ''Deliver'') LONG_SMS_TOTAL) = None"
    by (simp_all add: demo_of_type) (simp_all add: demo_json_def)
  from bounced_deliver_published [OF h, of demo_mpsc 0 "[]" "demo_context Custom 0 []"] show ?thesis by auto
qed


subsection \<open>Too many messages from the peer\<close>

lemma decode_msg_content_keeps:
  "decode_msg_content x buf f l json b = Ok (r, j) \<Longrightarrow>
   idx j DEST_IDS = idx json DEST_IDS \<and> idx j MSG_TYPE_U32 = idx json MSG_TYPE_U32 \<and> idx j SEQ_ID = idx json SEQ_ID"
  by (auto simp: decode_msg_content_def bind_eq_Some Let_def split: if_splits sum.splits prod.splits)

lemma json_of_Ok: "json_of r = Ok j \<longleftrightarrow> (\<exists>b. r = Ok (b, j))"
  by (cases r) (auto simp: json_of_def map_sum_def split: sum.splits)

lemma smgp_submit_fields:
  "smgp_decode_submit x buf seq tp = Ok j \<Longrightarrow>
   idx j DEST_IDS = JNull \<and> idx j MSG_TYPE_U32 = num tp \<and> idx j SEQ_ID = num seq"
  by (auto simp: smgp_decode_submit_def bind_eq_Some Let_def split_def json_of_Ok msg_header_def split: if_splits
    dest!: decode_msg_content_keeps)

lemma default_submit_fields:
  "default_decode_submit x buf seq tp = Ok j \<Longrightarrow>
   (\<exists>ids. idx j DEST_IDS = strs ids) \<and> idx j MSG_TYPE_U32 = num tp \<and> idx j SEQ_ID = num seq"
  by (auto simp: default_decode_submit_def bind_eq_Some Let_def split_def json_of_Ok msg_header_def
    dest!: decode_msg_content_keeps)

text \<open>What a frame that is a submit message decodes to.\<close>

lemma submit_frame:
  assumes "framed_next p x ev = Some (Some (Inr json))" and "msg_type_of json = Submit"
  shows "\<exists>b seq tp j. decode_submit p x b seq tp = Ok j \<and> get_type_enum p tp = Submit \<and>
    json = setk j MSG_TYPE_STR (JStr ''Submit'')"
proof -
  obtain buf where f: "ev = Frame buf" "decode_frame p x buf = Ok json"
    using assms(1) by (cases ev) auto
  obtain tp seq b r where d: "get_u32 buf = Some (tp, r)" "get_u32 r = Some (seq, b)"
    using f(2) by (auto simp: decode_frame_def bind_eq_Some)
  obtain j ty where j: "json = setk j MSG_TYPE_STR (JStr (msg_type_to_str ty))"
    "ty = get_type_enum p tp \<or> get_type_enum p tp = Deliver \<and> ty = Report"
    using f(2) d by (auto simp: decode_frame_def Let_def simp del: msg_type_to_str.simps elim!: bind_Some_pairE
        split: sum.splits if_splits)
  have "msg_type_of json = ty"
    by (simp add: j(1) msg_type_of_def str_or_empty_def msg_type_name_back)
  then have "get_type_enum p tp = Submit" using assms(2) j(2) by auto
  moreover from this obtain j where "decode_submit p x b seq tp = Ok j" "json = setk j MSG_TYPE_STR (JStr ''Submit'')"
    using f(2) d by (auto simp: decode_frame_def Let_def elim!: bind_Some_pairE split: sum.splits)
  ultimately show ?thesis by blast
qed

lemma net_turn_over:
  assumes "msg_type_of json = Submit" and "rx_limit (chan c) < curr_rx k + 1"
    and "encode_receipt (ch_protocol (chan c)) TrafficRestrictions json (globals c) = Some (resp, json', w)"
  shows "net_turn m s x json k c = Some (True, k\<lparr>wait_active_resp := False, curr_rx := curr_rx k + 1\<rparr>,
    case resp of None \<Rightarrow> snd (to_entity m json' (c\<lparr>globals := w\<rparr>)) | Some r \<Rightarrow> snd (framed_send s r (c\<lparr>globals := w\<rparr>)))"
proof -
  have "\<not> curr_rx k + 1 \<le> rx_limit (chan c)" using assms(2) by simp
  then show ?thesis using assms(1,3) by (cases resp) (simp_all add: net_turn_def Let_def split_def)
qed

text \<open>C40: a submit message beyond the limit of the second is refused on a CMPP 3.0 or SMPP connection:
  the account does not see it, and the answer carries the code for too much traffic.  On a SMGP
  connection the limit has no effect: as the decoder leaves out the destinations, there is no answer
  to be made, and the message goes to the account as if it had been a receipt.\<close>

theorem over_limit_submit:
  assumes "mpsc_ok m" and "account_open m c" and "codec_protocol c = ch_protocol (chan c)"
    and "framed_next (ch_protocol (chan c)) x ev = Some (Some (Inr json))" and "msg_type_of json = Submit"
    and "rx_limit (chan c) < curr_rx k + 1" and "ch_protocol (chan c) \<in> {CMPP48, SMPP, SMGP}"
  shows "\<exists>k' c'. read_turn m s x ev k c = Some (True, k', c') \<and>
    (if ch_protocol (chan c) = SMGP then account_queue m c' = account_queue m c @ [json] \<and> framed c' = framed c
     else account_queue m c' = account_queue m c \<and>
       (\<exists>resp. framed c' = snd (sock_send s resp (framed c)) \<and> length resp = 24 \<and>
          drop 20 resp = be_bytes 4 (unat (get_status_id (ch_protocol (chan c)) TrafficRestrictions))))"
proof -
  let ?p = "ch_protocol (chan c)"
  obtain b seq tp j where d: "decode_submit ?p x b seq tp = Ok j" "get_type_enum ?p tp = Submit"
    "json = setk j MSG_TYPE_STR (JStr ''Submit'')"
    using submit_frame [OF assms(4,5)] by blast
  show ?thesis
  proof (cases "?p = SMGP")
    case True
    have "smgp_decode_submit x b seq tp = Ok j" using d(1) True by simp
    note j = smgp_submit_fields [OF this]
    have "encode_receipt ?p TrafficRestrictions json (globals c) = Some (None, json, globals c)"
      using j d(2,3) True by (simp add: encode_receipt_def smgp_encode_submit_resp_def no_reply_def)
    then show ?thesis
      using assms(3,4) True to_entity_open [OF assms(1,2), of json]
      by (simp add: read_turn_def net_turn_over [OF assms(5,6)])
  next
    case False
    then have "default_decode_submit x b seq tp = Ok j" using d(1) assms(7) by (cases ?p) auto
    from default_submit_fields [OF this] obtain ids where j: "idx j DEST_IDS = strs ids" "idx j MSG_TYPE_U32 = num tp"
      "idx j SEQ_ID = num seq" by blast
    obtain msg_id w where i: "create_cmpp_msg_id (of_nat (length ids)) (globals c) = (msg_id, w)" by fastforce
    let ?resp = "put_u32 (put_u64 (put_u32 (put_u32 (put_u32 [] 24) (get_type_id ?p SubmitResp)) seq) msg_id)
      (get_status_id ?p TrafficRestrictions)"
    have "encode_submit_resp ?p st v u = default_encode_submit_resp ?p st v u" for st v u
      using False assms(7) by (cases ?p) auto
    then have "encode_receipt ?p TrafficRestrictions json (globals c) =
        Some (Some ?resp, setk json MSG_ID (JStr (cmpp_msg_id_u64_to_str msg_id)), w)"
      using j d(2,3) i assms(7)
      by (auto simp: encode_receipt_def default_encode_submit_resp_def reply_def)
    then show ?thesis
      using assms(3,4) False
      by (auto simp: read_turn_def net_turn_over [OF assms(5,6)] framed_send_def split_def Let_def account_queue_def put_defs)
  qed
qed


definition demo_submit_frame :: "protocol \<Rightarrow> buf" where
  "demo_submit_frame p =
     (if p = SMGP then [0, 0, 0, 2, 0, 0, 0, 1] @ replicate 105 0 @ [1, 65] @ replicate 8 0
      else [0, 0, 0, 4, 0, 0, 0, 1] @ replicate 130 0 @ [1, 65])"

lemma over_limit_submit_witness:
  "\<exists>j k' c' k'' c''. read_turn demo_mpsc demo_socket demo_ext (Frame (demo_submit_frame SMGP)) demo_work (demo_conn SMGP 0 [] []) =
       Some (True, k', c') \<and> account_queue demo_mpsc c' = [j] \<and>
     read_turn demo_mpsc demo_socket demo_ext (Frame (demo_submit_frame CMPP48)) demo_work (demo_conn CMPP48 0 [] []) =
       Some (True, k'', c'') \<and> account_queue demo_mpsc c'' = []"
proof -
  have "case framed_next SMGP demo_ext (Frame (demo_submit_frame SMGP)) of
      Some (Some (Inr j)) \<Rightarrow> msg_type_of j = Submit | _ \<Rightarrow> False"
    "case framed_next CMPP48 demo_ext (Frame (demo_submit_frame CMPP48)) of
      Some (Some (Inr j)) \<Rightarrow> msg_type_of j = Submit | _ \<Rightarrow> False"
    by code_simp+
  then obtain i j where d: "framed_next SMGP demo_ext (Frame (demo_submit_frame SMGP)) = Some (Some (Inr i))" "msg_type_of i = Submit"
    "framed_next CMPP48 demo_ext (Frame (demo_submit_frame CMPP48)) = Some (Some (Inr j))" "msg_type_of j = Submit"
    by (auto split: option.splits sum.splits)
  have c: "account_open demo_mpsc (demo_conn p 0 [] [])" "codec_protocol (demo_conn p 0 [] []) = p"
    "ch_protocol (chan (demo_conn p 0 [] [])) = p" "rx_limit (chan (demo_conn p 0 [] [])) < curr_rx demo_work + 1" for p
    by simp_all (simp_all add: demo_conn_def demo_work_def)
  show ?thesis
    using over_limit_submit [OF demo_mpsc_ok c(1), where k = demo_work and s = demo_socket, unfolded c(2,3), OF refl d(1,2) c(4)]
      over_limit_submit [OF demo_mpsc_ok c(1), where k = demo_work and s = demo_socket, unfolded c(2,3), OF refl d(3,4) c(4)]
    by auto
qed

end
