(* ===== verification/Managing.thy ===== *)
theory Managing
  imports Manager Sessions
begin

text \<open>
  What the manager guarantees as long as it does not panic, and the one message that makes it: an
  account never has two tasks that have not been told to end, a
  replaced account starts afresh and its old task closes its connections, a message for an account
  reaches its task and a connection, and an account that was added can be logged in to.
\<close>

subsection \<open>The invariant\<close>

definition told :: "'q mpsc \<Rightarrow> 'q \<Rightarrow> bool" where
  "told m q \<longleftrightarrow> mpsc_is_closed m q \<or> (\<exists>xs. mpsc_contents m q = xs @ [close_json])"

definition tasks_of :: "u32 \<Rightarrow> 'q manage \<Rightarrow> nat" where
  "tasks_of i s = length (filter (\<lambda>c. entity_id c = i) (started s))"

definition dismissed_of :: "u32 \<Rightarrow> 'q manage \<Rightarrow> nat" where
  "dismissed_of i s = length (filter (\<lambda>(j, _). j = i) (dismissed s))"

definition manage_ok :: "'q mpsc \<Rightarrow> 'q manage \<Rightarrow> bool" where
  "manage_ok m s \<longleftrightarrow>
     distinct (map fst (senders s)) \<and> distinct (map fst (entitys s)) \<and>
     fst ` set (senders s) \<subseteq> fst ` set (entitys s) \<and>
     (\<forall>i. tasks_of i s = dismissed_of i s + (if i \<in> fst ` set (senders s) then 1 else 0)) \<and>
     list_all (\<lambda>(_, q). told m q) (dismissed s)"

lemma manage_ok_new: "manage_ok m (new_manage q)"
  by (simp add: manage_ok_def new_manage_def tasks_of_def dismissed_of_def)

lemma told_sent: "mpsc_ok m \<Longrightarrow> told m (snd (mpsc_send m close_json q))"
  by (auto simp: told_def mpsc_ok_def)

lemma keys_update: "fst ` set (AList.update k v al) = insert k (fst ` set al)"
  by (induction al) auto

lemma keys_delete: "fst ` set (AList.delete k al) = fst ` set al - {k}"
  by (induction al) auto

lemma map_of_key: "map_of al k = Some v \<Longrightarrow> k \<in> fst ` set al"
  by (induction al) (auto split: if_splits)

lemma map_of_no_key: "map_of al k = None \<longleftrightarrow> k \<notin> fst ` set al"
  by (rule map_of_eq_None_iff)

lemma close_task_keys:
  "fst ` set (senders (close_task m i s)) = fst ` set (senders s) - {i}" "entitys (close_task m i s) = entitys s"
  "started (close_task m i s) = started s"
  by (auto simp: close_task_def keys_delete map_of_no_key simp del: map_of_eq_None_iff split: option.splits)

lemma close_task_ok:
  assumes "mpsc_ok m" and "manage_ok m s"
  shows "manage_ok m (close_task m i s)"
proof (cases "map_of (senders s) i")
  case None
  then show ?thesis using assms(2) by (simp add: close_task_def)
next
  case (Some q)
  have "i \<in> fst ` set (senders s)" using map_of_key [OF Some] .
  then show ?thesis using assms Some
    by (auto simp: close_task_def manage_ok_def keys_delete distinct_delete told_sent tasks_of_def dismissed_of_def
        simp del: image_iff)
qed

lemma manage_ok_entitys:
  "manage_ok m s \<Longrightarrow> distinct (map fst al) \<Longrightarrow> fst ` set (senders s) \<subseteq> fst ` set al \<Longrightarrow>
   manage_ok m (s\<lparr>entitys := al\<rparr>)"
  by (simp add: manage_ok_def tasks_of_def dismissed_of_def)

lemma remove_entity_ok:
  assumes "mpsc_ok m" and "manage_ok m s"
  shows "manage_ok m (remove_entity m i s)"
proof -
  have k: "manage_ok m (close_task m i s)" by (rule close_task_ok [OF assms])
  have "manage_ok m (close_task m i s\<lparr>entitys := AList.delete i (entitys (close_task m i s))\<rparr>)"
    by (rule manage_ok_entitys [OF k])
      (use assms(2) in \<open>auto simp: manage_ok_def close_task_keys keys_delete distinct_delete simp del: image_iff\<close>)
  then show ?thesis using assms(2) by (simp add: remove_entity_def Let_def split: option.split)
qed

lemma remove_entity_gone: "manage_ok m s \<Longrightarrow> i \<notin> fst ` set (senders (remove_entity m i s))"
  using close_task_keys(1) [of m i s]
  by (auto simp: remove_entity_def Let_def manage_ok_def map_of_no_key simp del: map_of_eq_None_iff image_iff split: option.splits)

lemma register_ok:
  assumes "manage_ok m s" and "get_id en \<notin> fst ` set (senders s)" and "entity_id task = get_id en"
  shows "manage_ok m (register q (task, en) s)"
proof -
  have "map_of (senders s) (get_id en) = None" using assms(2) by (simp add: map_of_no_key)
  then show ?thesis using assms
    by (auto simp: register_def manage_ok_def keys_update distinct_update tasks_of_def dismissed_of_def)
qed

lemma start_ids:
  "entity_id (fst (start_custom tx e)) = ce_id e" "ce_id (snd (start_custom tx e)) = ce_id e"
  "ce_id (custom_of i json) = i" "se_id (server_of i json) = i"
  by (simp_all add: start_custom_def start_context_def custom_of_def server_of_def new_custom_def
    new_server_def Let_def)

lemma add_custom_ok:
  "manage_ok m s \<Longrightarrow> i \<notin> fst ` set (senders s) \<Longrightarrow> manage_ok m (add_custom mq tx i json s)"
  unfolding add_custom_def split_def Let_def by (rule register_ok) (simp_all add: start_ids)

lemma add_server_ok:
  assumes "manage_ok m s" and "i \<notin> fst ` set (senders s)"
  shows "pred_option (manage_ok m) (add_server mq tx i json s)"
proof (cases rule: add_server_cases [where json = json and mq = mq and tx = tx and i = i and s = s])
  case (starts task d)
  have "manage_ok m (s\<lparr>dialling := d\<rparr>)"
    using assms(1) by (simp add: manage_ok_def tasks_of_def dismissed_of_def)
  then show ?thesis using assms(2) starts by (simp add: register_ok)
qed (use assms in simp_all)

text \<open>Changing queues in place.\<close>

lemma manage_ok_senders:
  "manage_ok m s \<Longrightarrow> map fst al = map fst (senders s) \<Longrightarrow> manage_ok m (s\<lparr>senders := al\<rparr>)"
  by (simp add: manage_ok_def tasks_of_def dismissed_of_def) (metis list.set_map)

lemma queue_to_ok: "manage_ok m s \<Longrightarrow> manage_ok m (queue_to m i json s)"
  by (auto simp: queue_to_def update_keys dest: map_of_key intro!: manage_ok_senders split: option.splits)

lemma queue_to_all_ok: "manage_ok m s \<Longrightarrow> manage_ok m (queue_to_all m json s)"
  unfolding queue_to_all_def by (rule manage_ok_senders) (simp_all add: split_def comp_def)

lemma handle_queue_msg_ok:
  assumes "mpsc_ok m" and "manage_ok m s" and "handle_queue_msg m mq tx topic json s = Some s'"
  shows "manage_ok m s'"
proof -
  have "pred_option (manage_ok m) (handle_queue_msg m mq tx topic json s)"
    using remove_entity_ok [OF assms(1,2)] remove_entity_gone [OF assms(2)] assms(2)
    by (simp add: handle_queue_msg_def Let_def add_custom_ok add_server_ok queue_to_ok queue_to_all_ok)
  with assms(3) show ?thesis by simp
qed

text \<open>The message that makes the manager panic: a link with an address and a read limit of zero, for
  which \<open>mpsc::channel\<close> has no queue.\<close>

definition fatal :: "string \<Rightarrow> json \<Rightarrow> bool" where
  "fatal topic json \<longleftrightarrow> topic \<in> {TOPIC_PASSAGE_ADD, TOPIC_PASSAGE_INIT, TOPIC_PASSAGE_MODIFY} \<and>
     str_or [] (idx json ADDRESS) \<noteq> [] \<and> (num_or 200 (idx json READ_LIMIT) :: u32) = 0"

fun fatal_msg :: "business \<Rightarrow> bool" where
  "fatal_msg (Record topic (Some json)) = fatal topic json"
| "fatal_msg (Record topic None) = False"
| "fatal_msg ReceiveError = False"

lemma add_server_None:
  "add_server mq tx i json s = None \<longleftrightarrow> str_or [] (idx json ADDRESS) \<noteq> [] \<and> (num_or 200 (idx json READ_LIMIT) :: u32) = 0"
  by (cases rule: add_server_cases [where json = json and mq = mq and tx = tx and i = i and s = s]) simp_all

lemma handle_queue_msg_None: "handle_queue_msg m mq tx topic json s = None \<longleftrightarrow> fatal topic json"
  by (auto simp: handle_queue_msg_def Let_def add_server_None fatal_def)

lemma manager_turn_None:
  "manager_turn m mq tx b s = None \<longleftrightarrow> fst (mpsc_recv m (from_entity s)) = None \<and> fatal_msg b"
  by (cases b rule: fatal_msg.cases)
    (auto simp: manager_turn_def Let_def handle_queue_msg_None split: prod.split option.split)

lemma handle_from_entity_msg_ok:
  "mpsc_ok m \<Longrightarrow> manage_ok m s \<Longrightarrow> manage_ok m (handle_from_entity_msg m t msg s)"
  by (simp add: handle_from_entity_msg_def close_task_ok split: option.split)

lemma manager_turn_ok:
  assumes "mpsc_ok m" and "manage_ok m s" and "manager_turn m mq tx msg s = Some (go, s')"
  shows "manage_ok m s'"
proof -
  have "manage_ok m (s\<lparr>from_entity := q\<rparr>)" for q
    using assms(2) by (simp add: manage_ok_def tasks_of_def dismissed_of_def)
  then show ?thesis
    using assms(1,3)
    by (auto simp: manager_turn_def Let_def handle_from_entity_msg_ok intro: handle_queue_msg_ok
        split: prod.splits option.splits business.splits)
qed

text \<open>
  The manager among the other tasks: its turns, in which it may panic; an account that takes a message from its queue, or
  stops reading it; an account that has something to say to the manager.
\<close>

datatype 'q manage_event = ManagerTurn 'q 'q business | TaskTakes u32 | TaskEnds u32 | EntitySays json

definition on_queue :: "('q \<Rightarrow> 'q) \<Rightarrow> u32 \<Rightarrow> 'q manage \<Rightarrow> 'q manage" where
  "on_queue f i s = s\<lparr>senders := map (\<lambda>(j, q). (j, if j = i then f q else q)) (senders s)\<rparr>"

fun manage_step :: "'q mpsc \<Rightarrow> 'q manage_event \<Rightarrow> bool \<times> 'q manage \<Rightarrow> (bool \<times> 'q manage) option" where
  "manage_step m (ManagerTurn mq tx msg) (go, s) = (if go then manager_turn m mq tx msg s else Some (go, s))"
| "manage_step m (TaskTakes i) (go, s) = Some (go, on_queue (\<lambda>q. snd (mpsc_recv m q)) i s)"
| "manage_step m (TaskEnds i) (go, s) = Some (go, on_queue (mpsc_close m) i s)"
| "manage_step m (EntitySays json) (go, s) =
     Some (go, s\<lparr>from_entity := snd (mpsc_send m json (from_entity s))\<rparr>)"

lemma on_queue_ok: "manage_ok m s \<Longrightarrow> manage_ok m (on_queue f i s)"
  unfolding on_queue_def by (rule manage_ok_senders) (simp_all add: split_def comp_def)

lemma from_entity_ok: "manage_ok m s \<Longrightarrow> manage_ok m (s\<lparr>from_entity := q\<rparr>)"
  by (simp add: manage_ok_def tasks_of_def dismissed_of_def)

lemma manage_step_ok:
  assumes "mpsc_ok m" and "manage_ok m s" and "manage_step m e (go, s) = Some (go', s')"
  shows "manage_ok m s'"
proof (cases e)
  case (ManagerTurn mq tx msg)
  then show ?thesis
    using assms(2,3) manager_turn_ok [OF assms(1,2), of mq tx msg go' s'] by (auto split: if_splits)
qed (use assms(2,3) on_queue_ok from_entity_ok in auto)

interpretation manager: machine "manage_step m" "\<lambda>_ _. mpsc_ok m" "\<lambda>(_, s). manage_ok m s"
proof unfold_locales
  fix st t :: "bool \<times> 'a manage" and e
  assume "case st of (_, s) \<Rightarrow> manage_ok m s" "mpsc_ok m" "manage_step m e st = Some t"
  then show "case t of (_, s) \<Rightarrow> manage_ok m s"
    using manage_step_ok [of m "snd st" e "fst st" "fst t" "snd t"] by (simp add: split_def)
qed

lemma manage_step_None:
  "manage_step m e (go, s) = None \<longleftrightarrow>
     go \<and> (\<exists>mq tx b. e = ManagerTurn mq tx b \<and> fst (mpsc_recv m (from_entity s)) = None \<and> fatal_msg b)"
  by (cases e) (simp_all add: manager_turn_None)

text \<open>When the manager panics: it takes a fatal message while it is at work and no account has sent it any.\<close>

lemma manager_panics:
  "run (manage_step m) es (True, new_manage q) = None \<longleftrightarrow>
     (\<exists>pre mq tx b post s. es = pre @ ManagerTurn mq tx b # post \<and>
        run (manage_step m) pre (True, new_manage q) = Some (True, s) \<and>
        fst (mpsc_recv m (from_entity s)) = None \<and> fatal_msg b)"
  unfolding run_None
proof
  assume "\<exists>pre e post t. es = pre @ e # post \<and> run (manage_step m) pre (True, new_manage q) = Some t \<and> manage_step m e t = None"
  then obtain pre e post go s where p: "es = pre @ e # post" "run (manage_step m) pre (True, new_manage q) = Some (go, s)"
    "manage_step m e (go, s) = None" by auto
  then obtain mq tx b where "go = True" "e = ManagerTurn mq tx b" "fst (mpsc_recv m (from_entity s)) = None" "fatal_msg b"
    by (auto simp: manage_step_None)
  with p(1,2) show "\<exists>pre mq tx b post s. es = pre @ ManagerTurn mq tx b # post \<and>
      run (manage_step m) pre (True, new_manage q) = Some (True, s) \<and> fst (mpsc_recv m (from_entity s)) = None \<and> fatal_msg b"
    by blast
next
  assume "\<exists>pre mq tx b post s. es = pre @ ManagerTurn mq tx b # post \<and>
      run (manage_step m) pre (True, new_manage q) = Some (True, s) \<and> fst (mpsc_recv m (from_entity s)) = None \<and> fatal_msg b"
  then obtain pre mq tx b post s where p: "es = pre @ ManagerTurn mq tx b # post"
    "run (manage_step m) pre (True, new_manage q) = Some (True, s)" "fst (mpsc_recv m (from_entity s)) = None" "fatal_msg b"
    by blast
  have "manage_step m (ManagerTurn mq tx b) (True, s) = None" using p(3,4) by (simp add: manager_turn_None)
  with p(1,2) show "\<exists>pre e post t. es = pre @ e # post \<and> run (manage_step m) pre (True, new_manage q) = Some t \<and> manage_step m e t = None"
    by blast
qed

lemma manager_run_ok:
  assumes "mpsc_ok m" and "run (manage_step m) es (True, new_manage q) = Some (go, s)"
  shows "manage_ok m s"
proof -
  have "case (True, new_manage q) of (_, s) \<Rightarrow> manage_ok m s" by (simp add: manage_ok_new)
  from manager.run_inv [OF assms(2) may_run_always [OF assms(1)] this] show ?thesis by simp
qed

text \<open>C10: whatever the business side sends and the accounts do, the only thing that makes the manager panic is
  a link with an address and a read limit of zero, taken while it is at work; in every other run the tasks
  it has started for an account are those it has dismissed and the one, if any, it still feeds, and every
  dismissed task has been told to close by the last message it will find, or had gone before.\<close>

theorem one_task_per_account:
  assumes "mpsc_ok m"
  shows "(run (manage_step m) es (True, new_manage q) = None \<longleftrightarrow>
      (\<exists>pre mq tx b post s. es = pre @ ManagerTurn mq tx b # post \<and>
         run (manage_step m) pre (True, new_manage q) = Some (True, s) \<and>
         fst (mpsc_recv m (from_entity s)) = None \<and> fatal_msg b)) \<and>
    (\<forall>go s. run (manage_step m) es (True, new_manage q) = Some (go, s) \<longrightarrow>
      tasks_of i s = dismissed_of i s + (if i \<in> fst ` set (senders s) then 1 else 0) \<and>
      list_all (\<lambda>(_, q). told m q) (dismissed s) \<and>
      distinct (map fst (senders s)) \<and> fst ` set (senders s) \<subseteq> fst ` set (entitys s))"
  using manager_panics [of m es q] manager_run_ok [OF assms, of es q] unfolding manage_ok_def by blast

definition demo_fatal :: json where
  "demo_fatal = JObj [(ID, JNum 7), (ADDRESS, JStr ''1.2.3.4:5''), (READ_LIMIT, JNum 0)]"

lemma demo_fatal_msg: "fatal_msg (Record TOPIC_PASSAGE_ADD (Some demo_fatal))"
  by (simp add: fatal_def demo_fatal_def str_or_def num_or_def as_word.simps)

lemma one_task_per_account_witness:
  "(\<exists>s. run (manage_step demo_mpsc) [ManagerTurn (True, []) (True, []) (Record ''account.add'' (Some (JObj [(ID, JNum 7)]))),
       ManagerTurn (True, []) (True, []) (Record ''account.modify'' (Some (JObj [(ID, JNum 7)])))]
       (True, new_manage (True, [])) = Some (True, s) \<and> tasks_of 7 s = 2 \<and> dismissed_of 7 s = 1) \<and>
   run (manage_step demo_mpsc) [ManagerTurn (True, []) (True, []) (Record TOPIC_PASSAGE_ADD (Some demo_fatal))]
     (True, new_manage (True, [])) = None"
proof
  let ?es = "[ManagerTurn (True, []) (True, []) (Record ''account.add'' (Some (JObj [(ID, JNum 7)]))),
       ManagerTurn (True, []) (True, []) (Record ''account.modify'' (Some (JObj [(ID, JNum 7)])))]"
  note defs = manager_turn_def new_manage_def handle_queue_msg_def num_or_def as_word.simps
      add_custom_def register_def start_custom_def custom_of_def new_custom_def remove_entity_def close_task_def dismissed_of_def
  obtain go s where r: "run (manage_step demo_mpsc) ?es (True, new_manage (True, [])) = Some (go, s)"
    by (simp add: defs)
  have d: "go \<and> dismissed_of 7 s = 1 \<and> 7 \<in> fst ` set (senders s)" using r by (auto simp: defs)
  have "tasks_of 7 s = dismissed_of 7 s + (if 7 \<in> fst ` set (senders s) then 1 else 0)"
    using one_task_per_account [OF demo_mpsc_ok, of ?es "(True, [])" 7] r by blast
  with r d show "\<exists>s. run (manage_step demo_mpsc) ?es (True, new_manage (True, [])) = Some (True, s) \<and>
      tasks_of 7 s = 2 \<and> dismissed_of 7 s = 1" by (auto simp del: run.simps)
next
  let ?turn = "ManagerTurn (True, []) (True, []) (Record TOPIC_PASSAGE_ADD (Some demo_fatal))"
  have "[?turn] = [] @ ?turn # []" "run (manage_step demo_mpsc) [] (True, new_manage (True, [])) = Some (True, new_manage (True, []))"
    "fst (mpsc_recv demo_mpsc (from_entity (new_manage (True, [])))) = None" by (simp_all add: new_manage_def)
  then show "run (manage_step demo_mpsc) [?turn] (True, new_manage (True, [])) = None"
    using one_task_per_account [OF demo_mpsc_ok, of "[?turn]" "(True, [])"] demo_fatal_msg by blast
qed

subsection \<open>Replacing an account\<close>

lemma remove_entity_running:
  assumes "manage_ok m s" and "map_of (senders s) i = Some q"
  shows "remove_entity m i s = s\<lparr>senders := AList.delete i (senders s), entitys := AList.delete i (entitys s),
    dismissed := dismissed s @ [(i, snd (mpsc_send m close_json q))]\<rparr>"
proof -
  have "i \<in> fst ` set (entitys s)" using map_of_key [OF assms(2)] assms(1) by (auto simp: manage_ok_def)
  then obtain en where "map_of (entitys s) i = Some en" by (metis map_of_no_key not_None_eq)
  then show ?thesis using assms(2) by (simp add: remove_entity_def close_task_def)
qed

lemma close_json_ends_task:
  "handle_from_manager_rx m (Some close_json) ctx =
     Some (False, send_entity_state (ctx\<lparr>send_channels := close_channels m (send_channels ctx)\<rparr>))"
  by (simp add: handle_from_manager_rx_def close_json_def)

lemma close_channels_told:
  assumes "mpsc_ok m"
  shows "list_all2 (\<lambda>old new. cs_id new = cs_id old \<and>
     (\<not> mpsc_is_closed m (sender True old) \<longrightarrow>
       mpsc_contents m (sender True new) = mpsc_contents m (sender True old) @ [terminate_msg]))
     chans (close_channels m chans)"
  by (simp add: close_channels_def list_all2_conv_all_nth sender_def mpsc_contents_send [OF assms])

text \<open>C24: a message that adds, initialises or modifies an account the manager already runs sends the
  running task, behind all that waits for it, the message to close, which makes it end every
  connection that still listens; the new account has a task without connections and the fields
  of the message; nothing else changes.\<close>

theorem account_replaced:
  assumes "mpsc_ok m" and "manage_ok m s" and "topic \<in> {''account.add'', ''account.init'', ''account.modify''}"
    and "as_u32 (idx json ID) = Some i" and "map_of (senders s) i = Some q" and "\<not> mpsc_is_closed m q"
  shows "\<exists>s'. handle_queue_msg m mq tx topic json s = Some s' \<and>
    (\<exists>q'. dismissed s' = dismissed s @ [(i, q')] \<and> mpsc_contents m q' = mpsc_contents m q @ [close_json]) \<and>
    (\<exists>ctx'. handle_from_manager_rx m (Some close_json) ctx = Some (False, ctx') \<and>
       list_all2 (\<lambda>old new. cs_id new = cs_id old \<and>
         (\<not> mpsc_is_closed m (sender True old) \<longrightarrow>
           mpsc_contents m (sender True new) = mpsc_contents m (sender True old) @ [terminate_msg]))
         (send_channels ctx) (send_channels ctx')) \<and>
    (\<exists>task e. started s' = started s @ [task] \<and> entity_id task = i \<and> send_channels task = [] \<and>
       map_of (entitys s') i = Some (CustomEntity e) \<and> ce_channel_to_entity_tx e = Some tx \<and>
       ce_login_name e = str_or [] (idx json LOGIN_NAME) \<and> ce_password e = str_or [] (idx json PASSWORD)) \<and>
    map_of (senders s') i = Some mq \<and>
    (\<forall>j. j \<noteq> i \<longrightarrow> map_of (senders s') j = map_of (senders s) j \<and> map_of (entitys s') j = map_of (entitys s) j)"
proof -
  have "handle_queue_msg m mq tx topic json s = Some (add_custom mq tx i json (s\<lparr>senders := AList.delete i (senders s),
    entitys := AList.delete i (entitys s), dismissed := dismissed s @ [(i, snd (mpsc_send m close_json q))]\<rparr>))"
    using assms(3,4) by (auto simp: handle_queue_msg_def num_or_def remove_entity_running [OF assms(2,5)])
  then show ?thesis
    using assms(6) close_channels_told [OF assms(1), of "send_channels ctx"]
    by (simp add: add_custom_def register_def start_custom_def custom_of_def new_custom_def start_context_def
      update_conv delete_conv mpsc_contents_send [OF assms(1)] close_json_ends_task)
qed

text \<open>An operator link that is modified without an address is lost: its task is told to close, the
  link is forgotten, and no new one is started.\<close>

theorem modify_without_address:
  assumes "mpsc_ok m" and "manage_ok m s" and "topic \<in> {''passage.add'', ''passage.init'', ''passage.modify''}"
    and "as_u32 (idx json ID) = Some i" and "map_of (senders s) i = Some q"
    and "as_str (idx json ADDRESS) = None \<or> as_str (idx json ADDRESS) = Some []"
  shows "\<exists>s'. handle_queue_msg m mq tx topic json s = Some s' \<and>
    map_of (senders s') i = None \<and> map_of (entitys s') i = None \<and> started s' = started s \<and>
    dialling s' = dialling s \<and> (\<exists>q'. dismissed s' = dismissed s @ [(i, q')] \<and> told m q')"
proof -
  have "str_or [] (idx json ADDRESS) = []" using assms(6) by (auto simp: str_or_def)
  then have "add_server mq tx i json s = Some s" for s by (simp add: add_server_def)
  then have "handle_queue_msg m mq tx topic json s = Some (s\<lparr>senders := AList.delete i (senders s),
    entitys := AList.delete i (entitys s), dismissed := dismissed s @ [(i, snd (mpsc_send m close_json q))]\<rparr>)"
    using assms(3,4) by (auto simp: handle_queue_msg_def num_or_def remove_entity_running [OF assms(2,5)])
  then show ?thesis by (simp add: delete_conv told_sent [OF assms(1)])
qed

definition demo_passage :: json where
  "demo_passage = JObj [(ID, JNum 7), (ADDRESS, JStr ''1.2.3.4:5'')]"

definition demo_manage :: "(bool \<times> json list) manage" where
  "demo_manage = the (handle_queue_msg demo_mpsc (True, []) (True, []) ''passage.add'' demo_passage (new_manage (True, [])))"

lemma demo_passage_simps [simp]:
  "num_or 0 (idx demo_passage ID) = (7 :: u32)" "str_or [] (idx demo_passage ADDRESS) \<noteq> []"
  "(num_or 200 (idx demo_passage READ_LIMIT) :: u32) = 200"
  by (simp_all add: demo_passage_def str_or_def num_or_def as_word.simps)

lemma demo_manage_started:
  "handle_queue_msg demo_mpsc (True, []) (True, []) ''passage.add'' demo_passage (new_manage (True, [])) = Some demo_manage"
proof -
  have "\<not> fatal ''passage.add'' demo_passage" by (simp add: fatal_def)
  then have "handle_queue_msg demo_mpsc (True, []) (True, []) ''passage.add'' demo_passage (new_manage (True, [])) \<noteq> None"
    by (simp only: handle_queue_msg_None not_False_eq_True)
  then show ?thesis unfolding demo_manage_def by simp
qed

lemma demo_manage_ok: "manage_ok demo_mpsc demo_manage"
  by (rule handle_queue_msg_ok [OF demo_mpsc_ok manage_ok_new demo_manage_started])

lemma demo_manage_known:
  "senders demo_manage = [(7, (True, []))]" "entitys demo_manage = [(7, ServerEntity (link_of (True, []) 7 demo_passage))]"
proof -
  have a: "add_server (True, []) (True, []) 7 demo_passage (new_manage (True, [])) = Some demo_manage"
    using demo_manage_started by (simp add: handle_queue_msg_def remove_entity_def new_manage_def)
  obtain task d where e: "demo_manage = register (True, []) (task, ServerEntity (link_of (True, []) 7 demo_passage))
      ((new_manage (True, []))\<lparr>dialling := d\<rparr>)"
  proof (cases rule: add_server_cases [where json = demo_passage and mq = "(True, [] :: json list)" and tx = "(True, [])" and i = 7
        and s = "new_manage (True, [])"])
    case (starts task d)
    then show ?thesis using that a by simp
  qed (use a in simp_all)
  show "senders demo_manage = [(7, (True, []))]"
    "entitys demo_manage = [(7, ServerEntity (link_of (True, []) 7 demo_passage))]"
    unfolding e by (simp_all add: register_def new_manage_def)
qed

lemma demo_manage_sender: "map_of (senders demo_manage) 7 = Some (True, [])"
  by (simp add: demo_manage_known)

lemma account_replaced_witness:
  "\<exists>s' task. handle_queue_msg demo_mpsc (True, []) (True, []) ''account.modify''
      (JObj [(ID, JNum 7), (LOGIN_NAME, JStr ''shop'')]) demo_manage = Some s' \<and>
     started s' = started demo_manage @ [task] \<and> entity_id task = 7"
proof -
  let ?j = "JObj [(ID, JNum 7), (LOGIN_NAME, JStr ''shop'')]"
  have h: "''account.modify'' \<in> {''account.add'', ''account.init'', ''account.modify''}" "as_u32 (idx ?j ID) = Some 7"
    "\<not> mpsc_is_closed demo_mpsc (True, [])" by (simp_all add: as_word.simps)
  from account_replaced [OF demo_mpsc_ok demo_manage_ok h(1,2) demo_manage_sender h(3), where mq = "(True, [])"
      and tx = "(True, [])" and ctx = "demo_context Custom 0 []"]
  show ?thesis by blast
qed

lemma modify_without_address_witness:
  "\<exists>s'. handle_queue_msg demo_mpsc (True, []) (True, []) ''passage.modify''
      (JObj [(ID, JNum 7), (WRITE_LIMIT, JNum 50)]) demo_manage = Some s' \<and> map_of (senders s') 7 = None"
proof -
  let ?j = "JObj [(ID, JNum 7), (WRITE_LIMIT, JNum 50)]"
  have h: "''passage.modify'' \<in> {''passage.add'', ''passage.init'', ''passage.modify''}" "as_u32 (idx ?j ID) = Some 7"
    "as_str (idx ?j ADDRESS) = None \<or> as_str (idx ?j ADDRESS) = Some []" by (simp_all add: as_word.simps)
  from modify_without_address [OF demo_mpsc_ok demo_manage_ok h(1,2) demo_manage_sender h(3), where mq = "(True, [])"
      and tx = "(True, [])"]
  show ?thesis by blast
qed

subsection \<open>Messages for an account\<close>

lemma is_priority_setk: "k \<noteq> IS_PRIORITY \<Longrightarrow> is_priority (setk j k v) = is_priority j"
  by (simp add: is_priority_def)

text \<open>A message of the business side for a running account is put behind the messages that wait for
  its task and nowhere else; when the task takes it, and while its connections are open, it goes into
  the queue of exactly one of them that may write, the priority queue if it is marked so.\<close>

theorem business_message_sent:
  assumes "mpsc_ok m" and "topic \<in> {''send.submit'', ''send.deliver'', ''send.report''}"
    and "as_u32 (idx json ID) = Some i" and "map_of (senders s) i = Some q" and "\<not> mpsc_is_closed m q"
    and "all_open m ctx" and "send_channels ctx \<noteq> []" and "distinct (map cs_id (send_channels ctx))"
  shows "\<exists>s' v q'. handle_queue_msg m mq tx topic json s = Some s' \<and> map_of (senders s') i = Some q' \<and> mpsc_contents m q' = mpsc_contents m q @ [v] \<and>
    (\<forall>j. j \<noteq> i \<longrightarrow> map_of (senders s') j = map_of (senders s) j) \<and>
    entitys s' = entitys s \<and> started s' = started s \<and> dismissed s' = dismissed s \<and>
    (\<exists>ctx'. handle_from_manager_rx m (Some v) ctx = Some (True, ctx') \<and>
      failures (to_queue ctx') = failures (to_queue ctx) \<and>
      handed m (is_priority json) (stamp_msg ctx v) (send_channels ctx) (send_channels ctx'))"
proof -
  let ?v = "setk json MANAGER_TYPE (JStr ''send'')"
  have s': "handle_queue_msg m mq tx topic json s = Some (s\<lparr>senders := AList.update i (snd (mpsc_send m ?v q)) (senders s)\<rparr>)"
    using assms(2-4) by (auto simp: handle_queue_msg_def num_or_def queue_to_def)
  obtain ctx' where "send_to_channels m ?v ctx = Some ctx'" "failures (to_queue ctx') = failures (to_queue ctx)"
    "handed m (is_priority ?v) (stamp_msg ctx ?v) (send_channels ctx) (send_channels ctx')"
    using send_open_handed [OF assms(1,6-8), of ?v] by blast
  then have "\<exists>ctx'. handle_from_manager_rx m (Some ?v) ctx = Some (True, ctx') \<and>
      failures (to_queue ctx') = failures (to_queue ctx) \<and>
      handed m (is_priority json) (stamp_msg ctx ?v) (send_channels ctx) (send_channels ctx')"
    by (simp add: handle_from_manager_rx_def is_priority_setk)
  moreover have "mpsc_contents m (snd (mpsc_send m ?v q)) = mpsc_contents m q @ [?v]"
    using assms(5) by (simp add: mpsc_contents_send [OF assms(1)])
  ultimately show ?thesis using s' by (auto simp: update_conv)
qed

lemma business_message_sent_witness:
  "\<exists>s' v q'. handle_queue_msg demo_mpsc (True, []) (True, []) ''send.submit'' (JObj [(ID, JNum 7)]) demo_manage = Some s' \<and>
    map_of (senders s') 7 = Some q' \<and> mpsc_contents demo_mpsc q' = [v] \<and>
    (\<exists>ctx'. handle_from_manager_rx demo_mpsc (Some v) (demo_context Server 0 [demo_channel 1 True True]) = Some (True, ctx'))"
proof -
  let ?j = "JObj [(ID, JNum 7)]" and ?ctx = "demo_context Server 0 [demo_channel 1 True True]"
  have h: "''send.submit'' \<in> {''send.submit'', ''send.deliver'', ''send.report''}" "as_u32 (idx ?j ID) = Some 7"
    "\<not> mpsc_is_closed demo_mpsc (True, [])" by (simp_all add: as_word.simps)
  have ctx: "all_open demo_mpsc ?ctx" "send_channels ?ctx \<noteq> []" "distinct (map cs_id (send_channels ?ctx))"
    by (simp_all add: all_open_def demo_channel_def)
  from business_message_sent [OF demo_mpsc_ok h(1,2) demo_manage_sender h(3) ctx, where mq = "(True, [])" and tx = "(True, [])"]
  show ?thesis by auto
qed

subsection \<open>Logging in to an account\<close>

text \<open>No account but \<open>i\<close> can be logged in to under this name.\<close>

definition only_name :: "u32 \<Rightarrow> string \<Rightarrow> 'q entitys \<Rightarrow> bool" where
  "only_name i name al \<longleftrightarrow> list_all (\<lambda>(j, en). can_login en \<and> get_login_name en = name \<longrightarrow> j = i) al"

lemma update_member: "(k, v) \<in> set (AList.update k v al)"
  by (induction al) auto

lemma update_members: "x \<in> set (AList.update k v al) \<Longrightarrow> x = (k, v) \<or> x \<in> set al"
  by (induction al) (auto split: if_splits)

lemma update_only:
  assumes "distinct (map fst al)" and "(k, u) \<in> set (AList.update k v al)"
  shows "u = v"
proof -
  have "map_of (AList.update k v al) k = Some u"
    using assms by (intro map_of_is_SomeI) (simp_all add: distinct_update)
  then show ?thesis by (simp add: update_conv)
qed

lemma find_only:
  assumes "y \<in> set xs" and "P y" and "\<And>z. z \<in> set xs \<Longrightarrow> P z \<Longrightarrow> z = y"
  shows "find P xs = Some y"
proof (cases "find P xs")
  case None
  then show ?thesis using assms(1,2) by (auto simp: find_None_iff)
next
  case (Some z)
  then have "z \<in> set xs" "P z" by (auto simp: find_Some_iff)
  then show ?thesis using Some assms(3) by simp
qed

lemma only_name_delete: "only_name i name al \<Longrightarrow> only_name i name (AList.delete i al)"
  by (auto simp: only_name_def list_all_iff AList.delete_eq)

lemma find_named:
  assumes "distinct (map fst al)" and "only_name i name al" and "can_login en" and "get_login_name en = name"
    and "str_or_empty (idx info LOGIN_NAME) = name"
  shows "find_entity True info (AList.update i en al) = Inr (i, en)"
proof -
  have "find (\<lambda>(_, en). can_login en \<and> get_login_name en = name) (AList.update i en al) = Some (i, en)"
  proof (rule find_only [OF update_member])
    fix z assume z: "z \<in> set (AList.update i en al)" "(\<lambda>(_, en). can_login en \<and> get_login_name en = name) z"
    then have "fst z = i"
      using update_members [OF z(1)] assms(2) by (auto simp: only_name_def list_all_iff)
    then show "z = (i, en)" using z(1) update_only [OF assms(1)] by (cases z) auto
  qed (use assms(3,4) in simp)
  then show ?thesis using assms(5) by (simp add: find_entity_def)
qed

lemma find_unnamed:
  assumes "only_name i name al" and "i \<notin> fst ` set al" and "str_or_empty (idx info LOGIN_NAME) = name"
  shows "find_entity True info al = Inl AuthError"
proof -
  have "find (\<lambda>(_, en). can_login en \<and> get_login_name en = name) al = None"
    using assms(1,2) by (force simp: find_None_iff only_name_def list_all_iff)
  then show ?thesis using assms(3) by (simp add: find_entity_def)
qed

text \<open>C23: an account the business side has added can be logged in to at once, under the name, with the
  password, from an address and in the numbers the message gave: the connection gets the queues and
  the limits of the account.  Once the account is removed, the same login finds no account.\<close>

theorem added_account_logs_in:
  assumes "mpsc_ok m" and "manage_ok m s" and "topic \<in> {''account.add'', ''account.init'', ''account.modify''}"
    and "as_u32 (idx json ID) = Some i" and "only_name i (str_or [] (idx json LOGIN_NAME)) (entitys s)"
    and "str_or_empty (idx info LOGIN_NAME) = str_or [] (idx json LOGIN_NAME)"
    and "check_addr_range (str_or [] (idx json ALLOW_ADDRS)) ip"
    and "digest_agrees x (CustomEntity (custom_of i json)) info (ch_protocol (chan c))"
    and "as_u32 (idx info VERSION) = Some v" and "has (ch_protocol (chan c)) v"
    and "(num_or 0xff (idx json MAX_CHANNEL_NUMBER) :: u64) \<noteq> 0"
  shows "\<exists>s' s''. handle_queue_msg m mq tx topic json s = Some s' \<and>
    handle_queue_msg m mq' tx' ''account.remove'' json s' = Some s'' \<and>
    (\<exists>c' al save'. handle_login m x p q info True ip (c, entitys s', save) = Some ((Success, info), c', al, save') \<and>
      entity_to_channel_priority_rx (chan c') = Some p \<and> entity_to_channel_common_rx (chan c') = Some q \<and>
      rx_limit (chan c') = num_or 200 (idx json READ_LIMIT) \<and> tx_limit (chan c') = num_or 200 (idx json WRITE_LIMIT) \<and>
      ch_protocol (chan c') = match_version (ch_protocol (chan c)) v) \<and>
    handle_login m x p q info True ip (c, entitys s'', save) = Some ((AuthError, info), c, entitys s'', save)"
proof -
  let ?r = "remove_entity m i s" and ?name = "str_or [] (idx json LOGIN_NAME)"
  let ?e = "CustomEntity (snd (start_custom tx (custom_of i json)))"
  have en: "get_login_name ?e = ?name" "get_id ?e = i" "can_login ?e"
    "login x ?e info (ch_protocol (chan c)) ip = (None, match_version (ch_protocol (chan c)) v)"
    using assms(7-10) by (simp_all add: start_custom_def custom_of_def new_custom_def login_def digest_agrees_def)
  have r: "distinct (map fst (entitys ?r))" "only_name i ?name (entitys ?r)"
    using remove_entity_ok [OF assms(1,2), of i] only_name_delete [OF assms(5)] assms(5)
    by (auto simp: manage_ok_def remove_entity_def close_task_keys Let_def split: option.split)
  let ?s' = "add_custom mq tx i json ?r" and ?s'' = "remove_entity m i (add_custom mq tx i json ?r)"
  have h: "handle_queue_msg m mq tx topic json s = Some ?s'" "handle_queue_msg m mq' tx' ''account.remove'' json ?s' = Some ?s''"
    using assms(3,4) by (auto simp: handle_queue_msg_def num_or_def)
  have s': "entitys ?s' = AList.update i ?e (entitys ?r)"
    using en(2) by (simp add: add_custom_def register_def Let_def split_def)
  have f: "find_entity True info (entitys ?s') = Inr (i, ?e)"
    unfolding s' by (rule find_named [OF r en(3,1) assms(6)])
  have at: "\<not> ce_max_channel_number (snd (start_custom tx (custom_of i json))) \<le>
      ucast (ce_now_channel_number (snd (start_custom tx (custom_of i json))))"
    using assms(11) by (simp add: start_custom_def custom_of_def new_custom_def word_le_0_iff)
  have "\<exists>c' al save'. handle_login m x p q info True ip (c, entitys ?s', save) = Some ((Success, info), c', al, save') \<and>
      entity_to_channel_priority_rx (chan c') = Some p \<and> entity_to_channel_common_rx (chan c') = Some q \<and>
      rx_limit (chan c') = num_or 200 (idx json READ_LIMIT) \<and> tx_limit (chan c') = num_or 200 (idx json WRITE_LIMIT) \<and>
      ch_protocol (chan c') = match_version (ch_protocol (chan c)) v"
    using at by (simp add: handle_login_def f en(4) Let_def split_def attach_queues_def attach_channel_def)
      (simp add: start_custom_def custom_of_def new_custom_def attach_channel_def split: prod.split)
  moreover have "entitys ?s'' = AList.delete i (entitys ?s')"
    using s' by (simp add: remove_entity_def update_conv close_task_keys Let_def)
  moreover have "find_entity True info (AList.delete i (entitys ?s')) = Inl AuthError"
  proof (rule find_unnamed [OF only_name_delete _ assms(6)])
    show "only_name i ?name (entitys ?s')"
      using r(2) unfolding s' by (auto simp: only_name_def list_all_iff dest: update_members)
  qed (simp add: keys_delete)
  ultimately show ?thesis using h by (intro exI [of _ ?s'] exI [of _ ?s'']) (simp add: handle_login_def)
qed

definition demo_account :: json where
  "demo_account = JObj [(ID, JNum 9), (LOGIN_NAME, JStr ''901234''), (PASSWORD, JStr ''secret''),
     (ALLOW_ADDRS, JStr ''0.0.0.0'')]"

definition demo_request :: json where
  "demo_request = setk demo_login LOGIN_NAME (JStr ''901234'')"

lemma added_account_logs_in_witness:
  "\<exists>s' c' al save'. handle_queue_msg demo_mpsc (True, []) (True, []) ''account.add'' demo_account demo_manage = Some s' \<and>
    handle_login demo_mpsc demo_ext (True, []) (True, []) demo_request True (V4 1 2 3 4)
      (demo_conn CMPP48 0 [] [], entitys s', []) = Some ((Success, demo_request), c', al, save') \<and> tx_limit (chan c') = 200"
proof -
  let ?c = "demo_conn CMPP48 0 [] []"
  have "only_name 9 (str_or [] (idx demo_account LOGIN_NAME)) (entitys demo_manage)"
    by (simp add: demo_manage_known only_name_def link_of_def server_of_def new_server_def str_or_def demo_passage_def Let_def)
  moreover have "digest_agrees demo_ext (CustomEntity (custom_of 9 demo_account)) demo_request (ch_protocol (chan ?c))"
    by (simp add: digest_agrees_def custom_of_def new_custom_def demo_account_def demo_request_def demo_login_def str_or_def
      as_word.simps demo_digest demo_conn_def)
  moreover have "''account.add'' \<in> {''account.add'', ''account.init'', ''account.modify''}"
    "as_u32 (idx demo_account ID) = Some 9"
    "str_or_empty (idx demo_request LOGIN_NAME) = str_or [] (idx demo_account LOGIN_NAME)"
    "check_addr_range (str_or [] (idx demo_account ALLOW_ADDRS)) (V4 1 2 3 4)"
    "as_u32 (idx demo_request VERSION) = Some 32" "has (ch_protocol (chan ?c)) 32"
    "(num_or 0xff (idx demo_account MAX_CHANNEL_NUMBER) :: u64) \<noteq> 0"
    "(num_or 200 (idx demo_account WRITE_LIMIT) :: u32) = 200"
    by (simp_all add: demo_account_def demo_request_def demo_login_def as_word.simps str_or_def str_or_empty_def num_or_def
      any_address demo_conn_def)
  ultimately show ?thesis
    using added_account_logs_in [OF demo_mpsc_ok demo_manage_ok, where topic = "''account.add''" and json = demo_account
        and i = 9 and info = demo_request and ip = "V4 1 2 3 4" and x = demo_ext and c = ?c and v = 32
        and mq = "(True, [])" and tx = "(True, [])" and p = "(True, [])" and q = "(True, [])" and save = "[]"]
    by force
qed

end
