(* ===== verification/Registry.thy ===== *)
theory Registry
  imports Managing
begin

text \<open>
  What the manager of \<open>entity/entity_manager.rs\<close> is for, without its maps, tasks and queues: a register
  of accounts with an inbox for each, and what every message does to it.  The model of the code is
  shown to do nothing else, as long as it does not panic.
\<close>

subsection \<open>The specification\<close>

text \<open>An inbox is what waits in it and whether anybody will read it.\<close>

record 'q registry =
  going :: bool
  known :: "u32 \<rightharpoonup> 'q entity"
  inbox :: "u32 \<rightharpoonup> bool \<times> json list"
  outbox :: "bool \<times> json list"

definition put_in :: "json \<Rightarrow> bool \<times> json list \<Rightarrow> bool \<times> json list" where
  "put_in v = (\<lambda>(live, vs). (live, if live then vs @ [v] else vs))"

datatype 'q registry_op =
    Tell u32 json
  | TellAll json
  | Install u32 "'q entity"
  | Forget u32
  | Release u32
  | Ignore

text \<open>\<open>fresh\<close> is the inbox an account that is installed gets.\<close>

fun reg_apply :: "bool \<times> json list \<Rightarrow> 'q registry_op \<Rightarrow> 'q registry \<Rightarrow> 'q registry" where
  "reg_apply fresh (Tell i v) r = r\<lparr>inbox := (inbox r)(i := map_option (put_in v) (inbox r i))\<rparr>"
| "reg_apply fresh (TellAll v) r = r\<lparr>inbox := (\<lambda>i. map_option (put_in v) (inbox r i))\<rparr>"
| "reg_apply fresh (Install i e) r = r\<lparr>known := (known r)(i \<mapsto> e), inbox := (inbox r)(i \<mapsto> fresh)\<rparr>"
| "reg_apply fresh (Forget i) r =
     (if known r i = None then r else r\<lparr>known := (known r)(i := None), inbox := (inbox r)(i := None)\<rparr>)"
| "reg_apply fresh (Release i) r = r\<lparr>inbox := (inbox r)(i := None)\<rparr>"
| "reg_apply fresh Ignore r = r"

text \<open>What a message of the business side asks for.\<close>

definition account_op :: "'q \<Rightarrow> u32 \<Rightarrow> json \<Rightarrow> 'q registry_op" where
  "account_op tx i json = Install i (CustomEntity (snd (start_custom tx (custom_of i json))))"

definition link_op :: "'q \<Rightarrow> u32 \<Rightarrow> json \<Rightarrow> 'q registry_op" where
  "link_op tx i json =
     (if str_or [] (idx json ADDRESS) = [] then Forget i
      else Install i (ServerEntity (link_of tx i json)))"

definition state_op :: "u32 \<Rightarrow> json \<Rightarrow> 'q registry_op" where
  "state_op i json =
     (let v = setk json MANAGER_TYPE (JStr TOPIC_PASSAGE_REQUEST_STATE) in if i = 0 then TellAll v else Tell i v)"

definition topic_op :: "'q \<Rightarrow> string \<Rightarrow> json \<Rightarrow> 'q registry_op" where
  "topic_op tx topic json =
     (let i = num_or 0 (idx json ID);
          table = map (\<lambda>t. (t, Tell i (setk json MANAGER_TYPE (JStr ''send''))))
              [TOPIC_FROM_B_SUBMIT, TOPIC_FROM_B_DELIVER, TOPIC_FROM_B_REPORT]
            @ map (\<lambda>t. (t, account_op tx i json)) [TOPIC_ACCOUNT_ADD, TOPIC_ACCOUNT_INIT, TOPIC_ACCOUNT_MODIFY]
            @ map (\<lambda>t. (t, link_op tx i json)) [TOPIC_PASSAGE_ADD, TOPIC_PASSAGE_INIT, TOPIC_PASSAGE_MODIFY]
            @ map (\<lambda>t. (t, Forget i)) [TOPIC_ACCOUNT_REMOVE, TOPIC_PASSAGE_REMOVE]
            @ [(TOPIC_PASSAGE_REQUEST_STATE, state_op i json)]
      in case map_of table topic of Some oper \<Rightarrow> oper | None \<Rightarrow> Ignore)"

fun business_op :: "'q \<Rightarrow> business \<Rightarrow> 'q registry_op" where
  "business_op tx (Record topic (Some json)) = topic_op tx topic json"
| "business_op tx (Record topic None) = Ignore"
| "business_op tx ReceiveError = Ignore"

text \<open>What a message of an account asks for.\<close>

definition entity_op :: "json \<Rightarrow> 'q registry_op" where
  "entity_op msg =
     (case (as_str (idx msg MANAGER_TYPE), as_u32 (idx msg ID)) of
        (Some ty, Some i) \<Rightarrow> if ty = ''close'' then Release i else Ignore
      | _ \<Rightarrow> Ignore)"

text \<open>The steps: the manager serves the accounts first, and stops when their queue has ended.\<close>

definition queue_view :: "'q mpsc \<Rightarrow> 'q \<Rightarrow> bool \<times> json list" where
  "queue_view m q = (\<not> mpsc_is_closed m q, mpsc_contents m q)"

inductive reg_step :: "'q mpsc \<Rightarrow> 'q manage_event \<Rightarrow> 'q registry \<Rightarrow> 'q registry \<Rightarrow> bool" for m where
  account: "going r \<Longrightarrow> outbox r = (live, msg # msgs) \<Longrightarrow>
     reg_step m (ManagerTurn mq tx b) r (reg_apply fresh (entity_op msg) (r\<lparr>outbox := (live, msgs)\<rparr>))"
| business: "going r \<Longrightarrow> outbox r = (live, []) \<Longrightarrow>
     reg_step m (ManagerTurn mq tx b) r (reg_apply (queue_view m mq) (business_op tx b) r)"
| over: "going r \<Longrightarrow> outbox r = (live, []) \<Longrightarrow> reg_step m (ManagerTurn mq tx b) r (r\<lparr>going := False\<rparr>)"
| stopped: "\<not> going r \<Longrightarrow> reg_step m (ManagerTurn mq tx b) r r"
| takes: "reg_step m (TaskTakes i) r (r\<lparr>inbox := (inbox r)(i := map_option (map_prod id tl) (inbox r i))\<rparr>)"
| ends: "reg_step m (TaskEnds i) r (r\<lparr>inbox := (inbox r)(i := map_option (apfst (\<lambda>_. False)) (inbox r i))\<rparr>)"
| says: "reg_step m (EntitySays v) r (r\<lparr>outbox := put_in v (outbox r)\<rparr>)"

inductive_cases reg_turnE: "reg_step m (ManagerTurn mq tx b) r r'"

subsection \<open>The code implements it\<close>

definition registry_of :: "'q mpsc \<Rightarrow> bool \<times> 'q manage \<Rightarrow> 'q registry" where
  "registry_of m = (\<lambda>(go, s). \<lparr>going = go, known = map_of (entitys s),
     inbox = (\<lambda>i. map_option (queue_view m) (map_of (senders s) i)), outbox = queue_view m (from_entity s)\<rparr>)"

lemma queue_view_send: "mpsc_ok m \<Longrightarrow> queue_view m (snd (mpsc_send m v q)) = put_in v (queue_view m q)"
  using mpsc_send_law [of m v q "fst (mpsc_send m v q)", OF _ prod.collapse [symmetric]]
  by (simp add: queue_view_def put_in_def)

lemma queue_view_recv: "mpsc_ok m \<Longrightarrow> queue_view m (snd (mpsc_recv m q)) = map_prod id tl (queue_view m q)"
  using mpsc_recv_law [of m q] mpsc_recv_closed(1) [of m q] by (simp add: queue_view_def split: list.splits)

lemma queue_view_close: "mpsc_ok m \<Longrightarrow> queue_view m (mpsc_close m q) = apfst (\<lambda>_. False) (queue_view m q)"
  by (simp add: queue_view_def mpsc_closed)

lemmas queue_views = queue_view_send queue_view_recv queue_view_close

lemma map_of_on_queue: "map_of (map (\<lambda>(j, q). (j, if j = i then f q else q)) kvs) =
    (map_of kvs)(i := map_option f (map_of kvs i))"
  by (induction kvs) (auto simp: fun_eq_iff)

lemma map_of_map_all: "map_of (map (\<lambda>(j, q). (j, f q)) kvs) i = map_option f (map_of kvs i)"
  by (induction kvs) auto

lemma close_task_registry:
  "registry_of m (go, close_task m i s) = reg_apply fresh (Release i) (registry_of m (go, s))"
  by (auto simp: close_task_def registry_of_def delete_conv' fun_eq_iff split: option.split)

lemma remove_entity_registry:
  "registry_of m (go, remove_entity m i s) = reg_apply fresh (Forget i) (registry_of m (go, s))"
  by (auto simp: remove_entity_def close_task_def registry_of_def Let_def delete_conv' fun_eq_iff split: option.split)

lemma register_registry:
  "registry_of m (go, register mq (task, e) s) = reg_apply (queue_view m mq) (Install (get_id e) e) (registry_of m (go, s))"
  by (auto simp: register_def registry_of_def update_conv' fun_eq_iff)

text \<open>Installing an account over one that is there leaves nothing of the old one.\<close>

lemma install_after_forget:
  "reg_apply fresh (Install i e) (reg_apply fresh' (Forget i) r) = reg_apply fresh (Install i e) r"
  by auto

lemma add_custom_registry:
  "registry_of m (go, add_custom mq tx i json s) = reg_apply (queue_view m mq) (account_op tx i json) (registry_of m (go, s))"
  by (simp add: add_custom_def split_def account_op_def register_registry start_custom_def custom_of_def new_custom_def)

lemma add_server_registry:
  assumes "add_server mq tx i json (remove_entity m i s) = Some s'"
  shows "registry_of m (go, s') = reg_apply (queue_view m mq) (link_op tx i json) (registry_of m (go, s))"
proof (cases rule: add_server_cases [where json = json and mq = mq and tx = tx and i = i and s = "remove_entity m i s"])
  case none
  then show ?thesis
    using assms remove_entity_registry [of m go i s "queue_view m mq"] by (simp add: link_op_def)
next
  case panics
  then show ?thesis using assms by simp
next
  case (starts task d)
  have d: "registry_of m (go, s\<lparr>dialling := d\<rparr>) = registry_of m (go, s)" for d s by (simp add: registry_of_def)
  have "s' = register mq (task, ServerEntity (link_of tx i json)) ((remove_entity m i s)\<lparr>dialling := d\<rparr>)"
    using assms starts(4) by simp
  with starts(1) show ?thesis
    by (simp add: link_op_def register_registry d remove_entity_registry [where fresh = "queue_view m mq"]
        install_after_forget del: reg_apply.simps)
qed

lemma queue_to_registry:
  "mpsc_ok m \<Longrightarrow> registry_of m (go, queue_to m i v s) = reg_apply fresh (Tell i v) (registry_of m (go, s))"
  by (auto simp: queue_to_def registry_of_def update_conv' queue_views fun_eq_iff split: option.split)

lemma queue_to_all_registry:
  "mpsc_ok m \<Longrightarrow> registry_of m (go, queue_to_all m v s) = reg_apply fresh (TellAll v) (registry_of m (go, s))"
  by (simp add: queue_to_all_def registry_of_def map_of_map_all queue_views option.map_comp comp_def)

lemma handle_queue_msg_registry:
  assumes "mpsc_ok m" and "handle_queue_msg m mq tx topic json s = Some s'"
  shows "registry_of m (go, s') = reg_apply (queue_view m mq) (topic_op tx topic json) (registry_of m (go, s))"
proof -
  note ops = remove_entity_registry [where fresh = "queue_view m mq"] queue_to_registry [OF assms(1), where fresh = "queue_view m mq"]
    queue_to_all_registry [OF assms(1), where fresh = "queue_view m mq"] add_custom_registry
  have add: "reg_apply f (account_op tx i json) (reg_apply f' (Forget i) r) = reg_apply f (account_op tx i json) r" for f f' i r
    unfolding account_op_def by (rule install_after_forget)
  let ?P = "\<lambda>oper s'. registry_of m (go, s') = reg_apply (queue_view m mq) oper (registry_of m (go, s))"
  have link: "pred_option (?P (link_op tx i json)) (add_server mq tx i json (remove_entity m i s))" for i
    using add_server_registry [of mq tx i json m s _ go] by (cases "add_server mq tx i json (remove_entity m i s)") simp_all
  have "pred_option (?P (topic_op tx topic json)) (handle_queue_msg m mq tx topic json s)"
    by (simp add: handle_queue_msg_def topic_op_def state_op_def Let_def ops add link del: reg_apply.simps) simp
  with assms(2) show ?thesis by simp
qed

lemma handle_from_entity_registry:
  "registry_of m (go, case as_str (idx msg MANAGER_TYPE) of Some ty \<Rightarrow> handle_from_entity_msg m ty msg s | None \<Rightarrow> s) =
     reg_apply fresh (entity_op msg) (registry_of m (go, s))"
proof -
  have none: "map_of (senders s) i = None \<Longrightarrow> reg_apply fresh (Release i) (registry_of m (go, s)) = registry_of m (go, s)" for i
    by (auto simp: registry_of_def)
  show ?thesis
    by (simp add: handle_from_entity_msg_def entity_op_def close_task_registry [where fresh = fresh] none del: reg_apply.simps(5)
        split: option.split)
qed

lemma manager_turn_registry:
  assumes "mpsc_ok m" and "manager_turn m mq tx b s = Some (go, s')"
  shows "reg_step m (ManagerTurn mq tx b) (registry_of m (True, s)) (registry_of m (go, s'))"
proof -
  obtain r q where r: "mpsc_recv m (from_entity s) = (r, q)" by fastforce
  let ?s = "s\<lparr>from_entity := q\<rparr>"
  have v: "queue_view m q = map_prod id tl (queue_view m (from_entity s))"
    using queue_view_recv [OF assms(1), of "from_entity s"] r by simp
  have view: "registry_of m (True, ?s) = (registry_of m (True, s))\<lparr>outbox := queue_view m q\<rparr>"
    by (simp add: registry_of_def)
  have on: "going (registry_of m (True, s))" "outbox (registry_of m (True, s)) = queue_view m (from_entity s)"
    by (simp_all add: registry_of_def)
  show ?thesis
  proof (cases "\<exists>msg. r = Some (Some msg)")
    case True
    then obtain msg where msg: "r = Some (Some msg)" by blast
    have c: "mpsc_contents m (from_entity s) = msg # mpsc_contents m q" using mpsc_received [OF assms(1)] r msg by simp
    have go: "go" and s': "s' = (case as_str (idx msg MANAGER_TYPE) of Some ty \<Rightarrow> handle_from_entity_msg m ty msg ?s | None \<Rightarrow> ?s)"
      using assms(2) r msg by (auto simp: manager_turn_def Let_def)
    let ?live = "\<not> mpsc_is_closed m (from_entity s)"
    have o: "outbox (registry_of m (True, s)) = (?live, msg # mpsc_contents m q)" "queue_view m q = (?live, mpsc_contents m q)"
      using v c on(2) by (simp_all add: queue_view_def)
    have "registry_of m (go, s') = reg_apply (True, []) (entity_op msg) ((registry_of m (True, s))\<lparr>outbox := (?live, mpsc_contents m q)\<rparr>)"
      unfolding s' o(2) [symmetric] view [symmetric] using go handle_from_entity_registry [where s = ?s and fresh = "(True, [])"] by simp
    then show ?thesis using reg_step.account [OF on(1) o(1)] by simp
  next
    case False
    have q: "queue_view m (from_entity s) = (\<not> mpsc_is_closed m (from_entity s), [])" "queue_view m q = queue_view m (from_entity s)"
      using mpsc_nothing [OF assms(1) r] False v by (auto simp: queue_view_def)
    have view': "registry_of m (go, ?s) = registry_of m (go, s)" for go using q(2) by (simp add: registry_of_def)
    show ?thesis
    proof (cases r)
      case None
      then have "go" and s': "registry_of m (True, s') = reg_apply (queue_view m mq) (business_op tx b) (registry_of m (True, s))"
        using assms(2) r view' handle_queue_msg_registry [OF assms(1), of mq tx _ _ ?s s' True]
        by (auto simp: manager_turn_def Let_def split: business.splits option.splits)
      then show ?thesis using reg_step.business [OF on(1)] on(2) q(1) by simp
    next
      case (Some r')
      then have "\<not> go" "s' = ?s" using assms(2) r False by (auto simp: manager_turn_def Let_def)
      moreover have "registry_of m (False, s) = (registry_of m (True, s))\<lparr>going := False\<rparr>" by (simp add: registry_of_def)
      ultimately show ?thesis using reg_step.over [OF on(1)] on(2) q(1) view' by simp
    qed
  qed
qed

lemma manage_step_registry:
  assumes "mpsc_ok m" and "manage_step m e st = Some st'"
  shows "reg_step m e (registry_of m st) (registry_of m st')"
proof (cases e)
  case (ManagerTurn mq tx b)
  obtain go s where st: "st = (go, s)" by fastforce
  show ?thesis
  proof (cases go)
    case True
    then show ?thesis
      using assms st ManagerTurn manager_turn_registry [OF assms(1), of mq tx b s "fst st'" "snd st'"] by simp
  next
    case False
    then have "st' = st" "\<not> going (registry_of m st)" using assms(2) st ManagerTurn by (auto simp: registry_of_def)
    then show ?thesis using reg_step.stopped ManagerTurn by metis
  qed
next
  case (TaskTakes i)
  have "registry_of m (go, on_queue (\<lambda>q. snd (mpsc_recv m q)) i s) = (let r = registry_of m (go, s) in
      r\<lparr>inbox := (inbox r)(i := map_option (map_prod id tl) (inbox r i))\<rparr>)" for go s
    by (auto simp: registry_of_def on_queue_def map_of_on_queue queue_view_recv [OF assms(1)] option.map_comp comp_def fun_eq_iff)
  then show ?thesis using assms(2) TaskTakes reg_step.takes [of m i] by (cases st) (auto simp: Let_def)
next
  case (TaskEnds i)
  have "registry_of m (go, on_queue (mpsc_close m) i s) = (let r = registry_of m (go, s) in
      r\<lparr>inbox := (inbox r)(i := map_option (apfst (\<lambda>_. False)) (inbox r i))\<rparr>)" for go s
    by (auto simp: registry_of_def on_queue_def map_of_on_queue queue_view_close [OF assms(1)] option.map_comp comp_def fun_eq_iff)
  then show ?thesis using assms(2) TaskEnds reg_step.ends [of m i] by (cases st) (auto simp: Let_def)
next
  case (EntitySays v)
  have "registry_of m (go, s\<lparr>from_entity := snd (mpsc_send m v (from_entity s))\<rparr>) = (let r = registry_of m (go, s) in
      r\<lparr>outbox := put_in v (outbox r)\<rparr>)" for go s
    by (simp add: registry_of_def queue_view_send [OF assms(1)])
  then show ?thesis using assms(2) EntitySays reg_step.says [of m v] by (cases st) (auto simp: Let_def)
qed

subsection \<open>Whole runs\<close>

text \<open>A machine that does, step by step, what another allows.\<close>

inductive runs :: "('e \<Rightarrow> 'a \<Rightarrow> 'a \<Rightarrow> bool) \<Rightarrow> 'e list \<Rightarrow> 'a \<Rightarrow> 'a \<Rightarrow> bool" for astep where
  runs_Nil: "runs astep [] r r"
| runs_Cons: "astep e r r' \<Longrightarrow> runs astep es r' r'' \<Longrightarrow> runs astep (e # es) r r''"

inductive_simps runs_simps: "runs astep [] r r'" "runs astep (e # es) r r'"

locale simulation =
  fixes step :: "'e \<Rightarrow> 's \<Rightarrow> 's option"
    and may :: "'e \<Rightarrow> 's \<Rightarrow> bool"
    and astep :: "'e \<Rightarrow> 'a \<Rightarrow> 'a \<Rightarrow> bool"
    and abs_of :: "'s \<Rightarrow> 'a"
  assumes simulates: "may e s \<Longrightarrow> step e s = Some t \<Longrightarrow> astep e (abs_of s) (abs_of t)"
begin

lemma run_simulates:
  "may_run step may es s \<Longrightarrow> run step es s = Some t \<Longrightarrow> runs astep es (abs_of s) (abs_of t)"
proof (induction es arbitrary: s)
  case Nil
  then show ?case by (simp add: runs_simps)
next
  case (Cons e es)
  then obtain u where "step e s = Some u" "may e s" "may_run step may es u" "run step es u = Some t"
    by (auto simp: bind_eq_Some)
  then show ?case using Cons.IH simulates by (metis runs_Cons)
qed

end

interpretation register: simulation "manage_step m" "\<lambda>_ _. mpsc_ok m" "reg_step m" "registry_of m"
  by unfold_locales (rule manage_step_registry)

text \<open>On the register it is plain that only accounts the register knows have an inbox.\<close>

lemma reg_apply_known: "dom (inbox r) \<subseteq> dom (known r) \<Longrightarrow> dom (inbox (reg_apply fresh oper r)) \<subseteq> dom (known (reg_apply fresh oper r))"
  by (cases oper) (auto split: if_splits)

lemma reg_step_known: "reg_step m e r r' \<Longrightarrow> dom (inbox r) \<subseteq> dom (known r) \<Longrightarrow> dom (inbox r') \<subseteq> dom (known r')"
  by (induction rule: reg_step.induct) (simp_all add: reg_apply_known, auto split: if_splits)

lemma runs_known: "runs (reg_step m) es r r' \<Longrightarrow> dom (inbox r) \<subseteq> dom (known r) \<Longrightarrow> dom (inbox r') \<subseteq> dom (known r')"
  by (induction rule: runs.induct) (blast dest: reg_step_known)+

lemma manager_may_run: "mpsc_ok m \<Longrightarrow> may_run (manage_step m) (\<lambda>_ _. mpsc_ok m) es st"
  by (induction es arbitrary: st) (auto split: option.split)

text \<open>C9: the manager is a register of accounts.  Whatever messages of the business side and of the
  accounts come, in whatever order the tasks run, every step of a run in which it does not panic is a
  step of the register with the accounts and the queues the manager then holds: it installs, replaces and
  forgets accounts by their id, puts messages into the inbox of the account named or of all, and
  serves the accounts first.  So it never feeds a task of an account it does not list.  It panics in no step
  but one that takes a fatal message: a link with an address and a read limit of zero.\<close>

theorem manager_refines_register:
  assumes "mpsc_ok m" and "run (manage_step m) es (True, new_manage q) = Some (go, s)"
  shows "runs (reg_step m) es \<lparr>going = True, known = Map.empty, inbox = Map.empty, outbox = queue_view m q\<rparr> (registry_of m (go, s)) \<and>
    dom (map_of (senders s)) \<subseteq> dom (map_of (entitys s)) \<and>
    (\<forall>e. manage_step m e (go, s) = None \<longleftrightarrow>
       go \<and> (\<exists>mq tx b. e = ManagerTurn mq tx b \<and> fst (mpsc_recv m (from_entity s)) = None \<and> fatal_msg b))"
proof -
  have i: "registry_of m (True, new_manage q) = \<lparr>going = True, known = Map.empty, inbox = Map.empty, outbox = queue_view m q\<rparr>"
    by (simp add: registry_of_def new_manage_def fun_eq_iff)
  have r: "runs (reg_step m) es (registry_of m (True, new_manage q)) (registry_of m (go, s))"
    using register.run_simulates [OF manager_may_run [OF assms(1)] assms(2)] .
  have "dom (inbox (registry_of m (go, s))) \<subseteq> dom (known (registry_of m (go, s)))"
    using runs_known [OF r] by (simp add: i)
  then have "dom (map_of (senders s)) \<subseteq> dom (map_of (entitys s))"
    by (auto simp: registry_of_def dom_def)
  with r show ?thesis by (simp add: i manage_step_None)
qed

lemma manager_refines_register_witness:
  "\<exists>s. run (manage_step demo_mpsc) [ManagerTurn (True, []) (True, []) (Record ''account.add'' (Some (JObj [(ID, JNum 7)])))]
      (True, new_manage (True, [])) = Some (True, s) \<and>
     dom (map_of (senders s)) = {7} \<and> dom (map_of (senders s)) \<subseteq> dom (map_of (entitys s))"
proof -
  let ?es = "[ManagerTurn (True, []) (True, []) (Record ''account.add'' (Some (JObj [(ID, JNum 7)])))]"
  obtain s where s: "run (manage_step demo_mpsc) ?es (True, new_manage (True, [])) = Some (True, s)" "dom (map_of (senders s)) = {7}"
    by (simp add: manager_turn_def new_manage_def handle_queue_msg_def num_or_def as_word.simps remove_entity_def add_custom_def
        register_def start_custom_def custom_of_def new_custom_def Let_def split_def)
  with manager_refines_register [OF demo_mpsc_ok s(1)] show ?thesis by blast
qed

end
