(* ===== verification/Pipeline.thy ===== *)
theory Pipeline
  imports Sessions
begin

text \<open>
  A submit message on its way: taken from the queue of its connection, encoded, written, handed back
  to the account and filed there under the sequence number of every unit that was written.
\<close>

subsection \<open>The numbers of the units\<close>

text \<open>Sequence numbers drawn in steps of \<open>n\<close> from \<open>s\<close> on.\<close>

definition numbered :: "u32 \<Rightarrow> u32 \<Rightarrow> nat \<Rightarrow> buf \<times> u32 list \<times> world \<Rightarrow> bool" where
  "numbered s n i = (\<lambda>(dst, qs, w). qs = map (\<lambda>j. s + of_nat j * n) [0..<i] \<and> sequence w = s + of_nat i * n)"

lemma numbered_0 [simp]: "numbered (sequence w) n 0 (dst, [], w)"
  by (simp add: numbered_def)

lemma numbered_Suc:
  "numbered s n i (dst, qs, w) \<Longrightarrow> sequence w' = sequence w + n \<Longrightarrow> numbered s n (Suc i) (dst', qs @ [sequence w], w')"
  by (simp add: numbered_def algebra_simps)

lemma default_submit_part_numbered:
  "default_submit_part p a sp b c d ds fmt code seg i st = Some st' \<Longrightarrow>
   numbered s (norm_step (of_nat (length ds))) j st \<Longrightarrow>
   numbered s (norm_step (of_nat (length ds))) (Suc j) st'"
  by (cases st) (auto simp: default_submit_part_def bind_eq_Some Let_def split_def get_sequence_id_eq intro!: numbered_Suc)

lemma cmpp32_submit_part_numbered:
  "cmpp32_submit_part a sp b c d ds fmt code seg i st = Some st' \<Longrightarrow>
   numbered s (norm_step (of_nat (length ds))) j st \<Longrightarrow>
   numbered s (norm_step (of_nat (length ds))) (Suc j) st'"
  by (cases st) (auto simp: cmpp32_submit_part_def bind_eq_Some Let_def split_def get_sequence_id_eq intro!: numbered_Suc)

lemma smgp_submit_part_numbered:
  "smgp_submit_part a b c d ds fmt code seg ln ts i st = Some st' \<Longrightarrow>
   numbered s (norm_step (of_nat (length ds))) j st \<Longrightarrow>
   numbered s (norm_step (of_nat (length ds))) (Suc j) st'"
  by (cases st) (auto simp: smgp_submit_part_def bind_eq_Some Let_def split_def get_sequence_id_eq intro!: numbered_Suc)

lemma numbered_loop:
  assumes "for_each [0..<n] body ([], [], w) = Some (out, qs, w')"
    and "\<And>i j st st'. body i st = Some st' \<Longrightarrow> numbered (sequence w) k j st \<Longrightarrow> numbered (sequence w) k (Suc j) st'"
  shows "qs = map (\<lambda>j. sequence w + of_nat j * k) [0..<n]"
proof -
  have "numbered (sequence w) k (length [0..<n]) (out, qs, w')"
    by (rule for_each_invariant [OF assms(1)]) (auto intro: assms(2))
  then show ?thesis by (simp add: numbered_def)
qed

lemmas loop_numbers =
  numbered_loop [OF _ default_submit_part_numbered] numbered_loop [OF _ cmpp32_submit_part_numbered]
  numbered_loop [OF _ smgp_submit_part_numbered]

text \<open>The message after it was encoded: the numbers of its units are drawn one after the other.\<close>

definition drawn :: "json \<Rightarrow> json \<Rightarrow> bool" where
  "drawn json json' \<longleftrightarrow> (\<exists>s n. json' = setk json SEQ_IDS
     (nums (map (\<lambda>j. s + of_nat j * norm_step (of_nat (jlen (idx json DEST_IDS)))) [0..<n])))"

lemma drawnI:
  assumes "for_each [0..<n] body ([], [], w) = Some (out, qs, w')"
    and "\<And>i j st st'. body i st = Some st' \<Longrightarrow> numbered (sequence w) (norm_step (of_nat (length ds))) j st \<Longrightarrow>
      numbered (sequence w) (norm_step (of_nat (length ds))) (Suc j) st'"
    and "idx json DEST_IDS = JArr js" and "unwrap_strs js = Some ds"
  shows "drawn json (setk json SEQ_IDS (nums qs))"
  unfolding drawn_def using numbered_loop [OF assms(1,2)] assms(3) unwrap_strs_length [OF assms(4)] by auto

lemma default_drawn:
  assumes "default_encode_submit p x json w = Some (Inr out, json', w')" and "content_code x json = Some code"
  shows "drawn json json'"
  using assms(1) content_codeD [OF assms(2)]
  by (auto simp: default_encode_submit_def require_eq_Some bind_eq_Some Let_def split_def split: if_splits
    elim!: is_arrayE) (erule drawnI, erule (1) default_submit_part_numbered, assumption+)

lemma cmpp32_drawn:
  assumes "cmpp32_encode_submit x json w = Some (Inr out, json', w')" and "content_code x json = Some code"
  shows "drawn json json'"
  using assms(1) content_codeD [OF assms(2)]
  by (auto simp: cmpp32_encode_submit_def require_eq_Some bind_eq_Some Let_def split_def split: if_splits
    elim!: is_arrayE) (erule drawnI, erule (1) cmpp32_submit_part_numbered, assumption+)

lemma smgp_drawn:
  assumes "smgp_encode_submit x json w = Some (Inr out, json', w')" and "content_code x json = Some code"
  shows "drawn json json'"
  using assms(1) content_codeD [OF assms(2)]
  by (auto simp: smgp_encode_submit_def require_eq_Some bind_eq_Some Let_def split_def split: if_splits
    elim!: is_arrayE) ((erule drawnI, erule (1) smgp_submit_part_numbered, assumption+)+)

lemma submit_drawn:
  assumes "encode_message p x json w = Some (Inr out, json', w')" and "of_type ''Submit'' json" and "p \<noteq> SGIP"
    and "content_code x json = Some code"
  shows "drawn json json'"
proof -
  have "p \<noteq> NoProtocol" using assms(1) by (auto simp: encode_message_def)
  then show ?thesis
    using assms default_drawn [OF _ assms(4)] cmpp32_drawn [OF _ assms(4)] smgp_drawn [OF _ assms(4)] by (cases p) (auto simp: encode_message_def of_type_def)
qed

lemma steps_distinct:
  fixes s k :: u32
  assumes "n * unat k \<le> 2 ^ 32" and "k \<noteq> 0"
  shows "distinct (map (\<lambda>j. s + of_nat j * k) [0..<n])"
proof -
  have u: "unat (of_nat j * k) = j * unat k" if "j < n" for j
  proof -
    have "0 < unat k" using assms(2) by (simp add: unat_gt_0)
    then have "j * unat k < n * unat k" using that by simp
    then have "j * unat k < 2 ^ 32" using assms(1) by linarith
    moreover have "(of_nat j * k :: u32) = of_nat (j * unat k)" by simp
    ultimately show ?thesis by (simp only: unsigned_of_nat) (simp add: take_bit_nat_eq_self)
  qed
  have "inj_on (\<lambda>j. s + of_nat j * k) {..<n}"
  proof (rule inj_onI)
    fix i j assume "i \<in> {..<n}" "j \<in> {..<n}" "s + of_nat i * k = s + of_nat j * k"
    then have "i * unat k = j * unat k" using u [of i] u [of j] by auto
    then show "i = j" using assms(2) by (simp add: unat_eq_0)
  qed
  then show ?thesis by (simp add: distinct_map atLeast0LessThan)
qed


subsection \<open>From the queue to the wire and back\<close>

text \<open>A submit message that can be sent now: it is complete, its units have their ids, and they fit
  into the window.\<close>

definition sendable :: "protocol \<Rightarrow> ext \<Rightarrow> u32 \<Rightarrow> buf \<Rightarrow> string list \<Rightarrow> json \<Rightarrow> bool" where
  "sendable p x left code msg_ids v \<longleftrightarrow>
     submit_ready p v \<and> p \<noteq> SGIP \<and> content_code x v = Some code \<and> length code < 2 ^ 24 \<and>
     idx v MSG_IDS = strs msg_ids \<and> seg_count (length code) \<le> length msg_ids \<and> length msg_ids \<le> unat left \<and>
     seg_count (length code) * max 1 (jlen (idx v DEST_IDS)) \<le> 2 ^ 32 \<and> jlen (idx v DEST_IDS) < 2 ^ 24"

lemma nums_inj: "nums (xs :: 'a::len word list) = nums ys \<Longrightarrow> xs = ys"
  by (auto dest!: map_injective simp: inj_def word_uint_eq_iff)

lemma norm_step_of_nat: "n < 2 ^ 32 \<Longrightarrow> unat (norm_step (of_nat n)) = max 1 n \<and> norm_step (of_nat n) \<noteq> 0"
proof -
  assume "n < 2 ^ 32"
  then have u: "unat (of_nat n :: u32) = n" by (simp only: unsigned_of_nat) (simp add: take_bit_nat_eq_self)
  then have "(of_nat n :: u32) = 0 \<longleftrightarrow> n = 0" by (simp add: unat_eq_0 [symmetric])
  with u show ?thesis by (simp add: norm_step_def max_def)
qed

lemma sendable_units:
  assumes "sendable p x left code msg_ids v"
  shows "\<exists>out json w' ps. encode_message p x v w = Some (Inr out, json, w') \<and>
    split_frames out = Some ps \<and> length ps = seg_count (length code) \<and>
    concat (map (pdu_content (submit_offset p (jlen (idx v DEST_IDS)) + head_len (length code))
      (submit_tail p (length code))) ps) = code \<and>
    sent_submit (map (pdu_u32 8) ps) msg_ids (setk json WAIT_RECEIPT (JBool True))"
proof -
  have p: "submit_ready p v" "p \<noteq> SGIP" "content_code x v = Some code" "length code < 2 ^ 24" "jlen (idx v DEST_IDS) < 2 ^ 24"
    and n: "seg_count (length code) * max 1 (jlen (idx v DEST_IDS)) \<le> 2 ^ 32"
    and ids: "idx v MSG_IDS = strs msg_ids" "seg_count (length code) \<le> length msg_ids"
    using assms by (simp_all add: sendable_def)
  then have ty: "of_type ''Submit'' v" by (simp add: submit_ready_def)
  obtain out json w' where e: "encode_message p x v w = Some (Inr out, json, w')"
    using submit_ready_encodes [OF p(1,3,4)] by blast
  from submit_units [OF e ty p(3-5)] obtain ps where ps: "split_frames out = Some ps" "length ps = seg_count (length code)"
    "concat (map (pdu_content (submit_offset p (jlen (idx v DEST_IDS)) + head_len (length code))
      (submit_tail p (length code))) ps) = code" "idx json SEQ_IDS = JArr (map (seq_of p) ps)" by blast
  let ?k = "norm_step (of_nat (jlen (idx v DEST_IDS))) :: u32"
  obtain s n' where d: "json = setk v SEQ_IDS (nums (map (\<lambda>j. s + of_nat j * ?k) [0..<n']))"
    using submit_drawn [OF e ty p(2,3)] by (auto simp: drawn_def)
  have "nums (map (pdu_u32 8) ps) = nums (map (\<lambda>j. s + of_nat j * ?k) [0..<n'])"
    using ps(4) d p(2) by (simp add: seq_of_def comp_def)
  then have q: "map (pdu_u32 8) ps = map (\<lambda>j. s + of_nat j * ?k) [0..<n']"
    by (rule nums_inj)
  have l: "n' = length ps" using arg_cong [OF q, of length] by simp
  have "jlen (idx v DEST_IDS) < 2 ^ 32" using p(5) by (rule order_less_le_trans) simp
  note k = norm_step_of_nat [OF this]
  have "n' * unat ?k \<le> 2 ^ 32" using n unfolding l ps(2) conjunct1 [OF k] .
  from steps_distinct [OF this conjunct2 [OF k], of s] have "distinct (map (pdu_u32 8) ps)" unfolding q .
  moreover have "ps \<noteq> []" using ps(2) seg_count_pos [of "length code"] by (metis less_irrefl list.size(3))
  ultimately have "sent_submit (map (pdu_u32 8) ps) msg_ids (setk json WAIT_RECEIPT (JBool True))"
    using ids ps(2,4) ty p(2) d by (simp add: sent_submit_def of_type_def seq_of_def comp_def)
  with e ps show ?thesis by blast
qed


text \<open>Once the connection has taken such a message, it sends it, hands it back and goes on.\<close>

lemma sendable_turn:
  assumes "mpsc_ok m" and "socket_ok s" and "\<And>b. fst (sock_send s b (framed c))" and "account_open m c"
    and "curr_tx k < tx_limit (chan c)"
    and "sendable (ch_protocol (chan c)) x (tx_limit (chan c) - curr_tx k) code msg_ids v"
  shows "\<exists>out ps json w w' k' c'. send_turn m s x pr v k c = Some (True, k', c') \<and>
    encode_message (ch_protocol (chan c)) x v w = Some (Inr out, json, w') \<and>
    split_frames out = Some ps \<and> length ps = seg_count (length code) \<and>
    concat (map (pdu_content (submit_offset (ch_protocol (chan c)) (jlen (idx v DEST_IDS)) + head_len (length code))
      (submit_tail (ch_protocol (chan c)) (length code))) ps) = code \<and>
    sent_submit (map (pdu_u32 8) ps) msg_ids (setk json WAIT_RECEIPT (JBool True)) \<and>
    sock_sent s (framed c') = sock_sent s (framed c) @ [out] \<and>
    account_queue m c' = account_queue m c @ [setk json WAIT_RECEIPT (JBool True)]"
proof -
  obtain out json w' ps where u: "encode_message (ch_protocol (chan c)) x v (globals c) = Some (Inr out, json, w')"
    "split_frames out = Some ps" "length ps = seg_count (length code)"
    "concat (map (pdu_content (submit_offset (ch_protocol (chan c)) (jlen (idx v DEST_IDS)) + head_len (length code))
      (submit_tail (ch_protocol (chan c)) (length code))) ps) = code"
    "sent_submit (map (pdu_u32 8) ps) msg_ids (setk json WAIT_RECEIPT (JBool True))"
    using sendable_units [OF assms(6)] by blast
  have fits: "\<not> msg_num v + curr_tx k > tx_limit (chan c)"
  proof -
    have l: "curr_tx k \<le> tx_limit (chan c)" using assms(5) by simp
    then have "length msg_ids \<le> unat (tx_limit (chan c)) - unat (curr_tx k)"
      using assms(6) by (simp add: sendable_def unat_sub)
    then have n: "length msg_ids + unat (curr_tx k) \<le> unat (tx_limit (chan c))"
      using l by (simp add: word_le_nat_alt)
    then have "unat (msg_num v + curr_tx k) = length msg_ids + unat (curr_tx k)"
      using assms(6) unat_bound [of "tx_limit (chan c)"] unat_add_units [of "length msg_ids" "curr_tx k" "curr_tx k"]
      by (simp add: sendable_def msg_num_def)
    then show ?thesis using n by (simp add: word_less_nat_alt)
  qed
  let ?v = "setk json WAIT_RECEIPT (JBool True)" and ?c2 = "snd (framed_send s out (c\<lparr>globals := w'\<rparr>))"
  have o: "fst (framed_send s out (c\<lparr>globals := w'\<rparr>))" using assms(3) by (simp add: framed_send_def split_def Let_def)
  have "account_open m ?c2" using assms(4) by simp
  note ent = to_entity_open(1,2) [OF assms(1) this]
  have "send_turn m s x pr v k c = Some (True, k\<lparr>curr_tx := curr_tx k + msg_num v\<rparr>, snd (to_entity m ?v ?c2))"
    using fits u(1) o ent by (simp add: send_turn_def split_def Let_def)
  moreover have "sock_sent s (framed (snd (to_entity m ?v ?c2))) = sock_sent s (framed c) @ [out]"
    "account_queue m (snd (to_entity m ?v ?c2)) = account_queue m c @ [?v]"
    using o framed_send_sent [OF assms(2), of out "c\<lparr>globals := w'\<rparr>"] ent(2) by simp_all
  ultimately show ?thesis using u by blast
qed

lemma submit_turn:
  assumes "mpsc_ok m" and "socket_ok s" and "\<And>b. fst (sock_send s b (framed c))"
    and "has_queues c" and "account_open m c" and "idle_count k \<le> 30"
    and "picked m (open_window t k) c = Some (pr, v)"
    and "sendable (ch_protocol (chan c)) x (tx_limit (chan c) - curr_tx (open_window t k)) code msg_ids v"
    and "work_turn m s x t wake k c = Some (True, k', c')"
  shows "\<exists>out ps json w w'. encode_message (ch_protocol (chan c)) x v w = Some (Inr out, json, w') \<and>
    split_frames out = Some ps \<and> length ps = seg_count (length code) \<and>
    concat (map (pdu_content (submit_offset (ch_protocol (chan c)) (jlen (idx v DEST_IDS)) + head_len (length code))
      (submit_tail (ch_protocol (chan c)) (length code))) ps) = code \<and>
    sent_submit (map (pdu_u32 8) ps) msg_ids (setk json WAIT_RECEIPT (JBool True)) \<and>
    sock_sent s (framed c') = sock_sent s (framed c) @ [out] \<and>
    account_queue m c' = account_queue m c @ [setk json WAIT_RECEIPT (JBool True)]"
proof -
  let ?k = "open_window t k"
  have w: "select_turn m s x wake ?k c = Some (True, k', c')"
    using assms(9) by (simp add: work_turn_quiet [OF assms(6)])
  obtain c1 where c1: "same_but_queues c c1" "send_turn m s x pr v (?k\<lparr>idle_count := 0\<rparr>) c1 = Some (True, k', c')"
    using assms(1,4)
    by (cases rule: select_turn_cases [where k = ?k and s = s and x = x and wake = wake])
      (use w assms(7) in \<open>auto simp: taken_def\<close>)
  have same: "ch_protocol (chan c1) = ch_protocol (chan c)" "tx_limit (chan c1) = tx_limit (chan c)"
    "framed c1 = framed c" "account_queue m c1 = account_queue m c" "account_open m c1"
    using c1(1) same_but_queues_account [OF c1(1), of m] assms(5) by (simp_all add: same_but_queues_def fixed_def)
  have "curr_tx (?k\<lparr>idle_count := 0\<rparr>) < tx_limit (chan c1)" using assms(7) same(2) by (auto simp: picked_def split: if_splits)
  from sendable_turn [OF assms(1,2) _ same(5) this, of x code msg_ids v pr] assms(3,8) c1(2)
  show ?thesis unfolding same by auto
qed

text \<open>A submit message at the head of the queues is written in one turn as one unit per segment, the
  segments put together being the encoded text, and goes back to its account, which files it under
  the number of every unit written, with the customer's id of that unit.\<close>

theorem submit_written_and_filed:
  assumes "mpsc_ok m" and "socket_ok s" and "\<And>b. fst (sock_send s b (framed c))"
    and "has_queues c" and "account_open m c" and "idle_count k \<le> 30"
    and "picked m (open_window t k) c = Some (pr, v)"
    and "sendable (ch_protocol (chan c)) x (tx_limit (chan c) - curr_tx (open_window t k)) code msg_ids v"
    and "work_turn m s x t wake k c = Some (True, k', c')"
  shows "\<exists>out ps v'. sock_sent s (framed c') = sock_sent s (framed c) @ [out] \<and>
    split_frames out = Some ps \<and> length ps = seg_count (length code) \<and>
    concat (map (pdu_content (submit_offset (ch_protocol (chan c)) (jlen (idx v DEST_IDS)) + head_len (length code))
      (submit_tail (ch_protocol (chan c)) (length code))) ps) = code \<and>
    account_queue m c' = account_queue m c @ [v'] \<and>
    (\<exists>ctx'. handle_from_channel_rx m now (Some v') save ctx = Some (True, save, ctx') \<and>
      list_all (\<lambda>i. \<exists>e. map_of (wait_receipt_map ctx') (ucast (pdu_u32 8 (ps ! i))) = Some e \<and>
        idx e ACCOUNT_MSG_ID = JStr (msg_ids ! i)) [0..<length ps])"
proof -
  obtain out ps json where u: "split_frames out = Some ps" "length ps = seg_count (length code)"
    "concat (map (pdu_content (submit_offset (ch_protocol (chan c)) (jlen (idx v DEST_IDS)) + head_len (length code))
      (submit_tail (ch_protocol (chan c)) (length code))) ps) = code"
    "sent_submit (map (pdu_u32 8) ps) msg_ids (setk json WAIT_RECEIPT (JBool True))"
    "sock_sent s (framed c') = sock_sent s (framed c) @ [out]"
    "account_queue m c' = account_queue m c @ [setk json WAIT_RECEIPT (JBool True)]"
    using submit_turn [OF assms] by blast
  let ?v = "setk json WAIT_RECEIPT (JBool True)"
  have "\<exists>ctx'. handle_from_channel_rx m now (Some ?v) save ctx = Some (True, save, ctx') \<and>
      list_all (\<lambda>i. \<exists>e. map_of (wait_receipt_map ctx') (ucast (pdu_u32 8 (ps ! i))) = Some e \<and>
        idx e ACCOUNT_MSG_ID = JStr (msg_ids ! i)) [0..<length ps]"
    using handle_sent_submit [OF u(4), of m now save ctx]
      insert_into_wait_receipt_lookup(1) [of "map (pdu_u32 8) ps" msg_ids "received (entity_id ctx) now ?v"] u(4)
    by (simp add: list_all_iff part_entry_def)
  with u show ?thesis by blast
qed

lemma demo_sendable: "sendable CMPP48 demo_ext 10 (as_bytes ''hello'') [''1''] (demo_json ''Submit'')"
  using demo_submit_ready [of CMPP48] demo_content by (simp add: sendable_def seg_count_def)

definition demo_loaded :: "(bool \<times> json list, bool \<times> buf list) conn" where
  "demo_loaded = demo_conn CMPP48 10 [] [demo_json ''Submit'']"

lemma demo_loaded_turn:
  "\<exists>k' c'. work_turn demo_mpsc demo_socket demo_ext 100 OneSecond demo_work demo_loaded = Some (True, k', c')"
proof -
  have "case work_turn demo_mpsc demo_socket demo_ext 100 OneSecond demo_work demo_loaded of Some (True, _) \<Rightarrow> True | _ \<Rightarrow> False"
    unfolding demo_loaded_def by code_simp
  then show ?thesis by (auto split: option.splits bool.splits)
qed

lemma demo_loaded_ready:
  "fst (sock_send demo_socket b (framed demo_loaded))" "has_queues demo_loaded" "account_open demo_mpsc demo_loaded"
  "idle_count demo_work \<le> 30" "picked demo_mpsc (open_window 100 demo_work) demo_loaded = Some (False, demo_json ''Submit'')"
  "sendable (ch_protocol (chan demo_loaded)) demo_ext (tx_limit (chan demo_loaded) - curr_tx (open_window 100 demo_work))
      (as_bytes ''hello'') [''1''] (demo_json ''Submit'')"
  "ch_protocol (chan demo_loaded) = CMPP48" "account_queue demo_mpsc demo_loaded = []" "framed demo_loaded = (True, [])"
proof -
  show "picked demo_mpsc (open_window 100 demo_work) demo_loaded = Some (False, demo_json ''Submit'')"
    unfolding demo_loaded_def by (simp add: picked_def) (simp add: demo_work_def)
  show "sendable (ch_protocol (chan demo_loaded)) demo_ext (tx_limit (chan demo_loaded) - curr_tx (open_window 100 demo_work))
      (as_bytes ''hello'') [''1''] (demo_json ''Submit'')"
    using demo_sendable by (simp add: demo_loaded_def demo_conn_def demo_work_def)
qed (simp_all add: demo_loaded_def, simp_all add: demo_socket_def demo_conn_def)

lemma submit_written_and_filed_witness:
  "\<exists>k' c' ps v' ctx' e. work_turn demo_mpsc demo_socket demo_ext 100 OneSecond demo_work demo_loaded = Some (True, k', c') \<and>
     account_queue demo_mpsc c' = [v'] \<and>
     handle_from_channel_rx demo_mpsc 0 (Some v') [] (demo_context Server 0 []) = Some (True, [], ctx') \<and> length ps = 1 \<and>
     map_of (wait_receipt_map ctx') (ucast (pdu_u32 8 (ps ! 0))) = Some e \<and> idx e ACCOUNT_MSG_ID = JStr ''1''"
proof -
  obtain k' c' where w: "work_turn demo_mpsc demo_socket demo_ext 100 OneSecond demo_work demo_loaded = Some (True, k', c')"
    using demo_loaded_turn by blast
  have n: "seg_count (length (as_bytes ''hello'')) = 1" by (simp add: seg_count_def)
  from submit_written_and_filed [OF demo_mpsc_ok demo_socket_ok demo_loaded_ready(1-6) w, where now = 0 and save = "[]"
      and ctx = "demo_context Server 0 []"] w n demo_loaded_ready(8)
  show ?thesis by auto
qed

end
