(* ===== verification/Units.thy ===== *)
theory Units
  imports Wire
begin

text \<open>
  What the proofs that a gateway reads what another has written share: rows of units with a
  property each, the pieces of a text, and the encoding loops that write such rows.
\<close>

subsection \<open>Rows of units\<close>

text \<open>\<open>row Q n b\<close>: the buffer is a row of \<open>n\<close> well-formed units, the \<open>i\<close>-th with the property \<open>Q i\<close>.\<close>

definition row :: "(nat \<Rightarrow> buf \<Rightarrow> bool) \<Rightarrow> nat \<Rightarrow> buf \<Rightarrow> bool" where
  "row Q n b \<longleftrightarrow> (\<exists>ps. b = concat ps \<and> length ps = n \<and> (\<forall>i<n. pdu_ok (ps ! i) \<and> Q i (ps ! i)))"

lemma row_0: "row Q 0 []"
  by (simp add: row_def)

lemma row_snoc: "row Q n b \<Longrightarrow> pdu_ok p \<Longrightarrow> Q n p \<Longrightarrow> row Q (Suc n) (b @ p)"
  unfolding row_def by (erule exE, rule_tac x = "ps @ [p]" in exI) (auto simp: nth_append less_Suc_eq)

lemma row_split:
  assumes "row Q n b"
  shows "\<exists>ps. split_frames b = Some ps \<and> length ps = n \<and> (\<forall>i<n. Q i (ps ! i))"
proof -
  obtain ps where ps: "b = concat ps" "length ps = n" "\<forall>i<n. pdu_ok (ps ! i) \<and> Q i (ps ! i)"
    using assms by (auto simp: row_def)
  then have "split_frames b = Some ps" using split_frames_concat [of ps] by (fastforce simp: in_set_conv_nth)
  with ps show ?thesis by blast
qed

subsection \<open>Content\<close>

text \<open>The pieces decode one by one to the texts \<open>ts\<close>.\<close>

definition pieces :: "ext \<Rightarrow> u8 \<Rightarrow> buf \<Rightarrow> string list \<Rightarrow> bool" where
  "pieces x fmt code ts \<longleftrightarrow> map (decode_charset x fmt) (segments code) = map Inr ts"

text \<open>Part \<open>i\<close> of \<open>n\<close> of a message, as it is decoded; a message of one part has no part numbers.\<close>

definition content_json :: "nat \<Rightarrow> nat \<Rightarrow> string \<Rightarrow> json \<Rightarrow> json" where
  "content_json n i t json = setk
     (if n = 1 then json
      else setk (setk (setk json LONG_SMS_TOTAL (num (of_nat n :: u8))) LONG_SMS_NOW_NUMBER (num (of_nat (i + 1) :: u8)))
        TP_UDHI (JNum 1)) MSG_CONTENT (JStr t)"

definition text_part :: "nat \<Rightarrow> nat \<Rightarrow> string \<Rightarrow> json \<Rightarrow> bool" where
  "text_part n i t j \<longleftrightarrow> idx j MSG_CONTENT = JStr t \<and>
     (if n = 1 then idx j LONG_SMS_TOTAL = JNull
      else idx j LONG_SMS_TOTAL = num (of_nat n :: u8) \<and> idx j LONG_SMS_NOW_NUMBER = num (of_nat (i + 1) :: u8))"

lemma text_part_content:
  "idx json LONG_SMS_TOTAL = JNull \<Longrightarrow> text_part n i t (content_json n i t json)"
  by (simp add: text_part_def content_json_def)

lemma text_part_setk:
  "k \<notin> {MSG_CONTENT, LONG_SMS_TOTAL, LONG_SMS_NOW_NUMBER} \<Longrightarrow> text_part n i t (setk j k v) = text_part n i t j"
  by (auto simp: text_part_def)

lemma idx_content_json:
  "k \<notin> {MSG_CONTENT, LONG_SMS_TOTAL, LONG_SMS_NOW_NUMBER, TP_UDHI} \<Longrightarrow> idx (content_json n i t json) k = idx json k"
  by (auto simp: content_json_def)

text \<open>ASCII text is its own encoding, and so is every segment of it.\<close>

lemma segment_ascii:
  assumes "ascii c" and "b \<in> set (segments (as_bytes c))"
  shows "from_utf8 b = Some (from_bytes b)"
proof -
  have "set b \<subseteq> set (concat (segments (as_bytes c)))" using assms(2) by auto
  then have "set (from_bytes b) \<subseteq> set (from_bytes (as_bytes c))"
    unfolding segments_concat from_bytes_def by auto
  then have "ascii (from_bytes b)" using assms(1) by (auto simp: ascii_def)
  from from_utf8_as_bytes [OF ascii_valid_str [OF this]] show ?thesis by simp
qed

lemma ascii_pieces:
  assumes "ascii c"
  shows "pieces x 0 (as_bytes c) (map from_bytes (segments (as_bytes c)))"
  using segment_ascii [OF assms] by (simp add: pieces_def decode_charset_def)

lemma concat_ascii_pieces: "concat (map from_bytes (segments (as_bytes c))) = c"
proof -
  have "concat (map from_bytes bs) = from_bytes (concat bs)" for bs by (induction bs) (simp_all add: from_bytes_def)
  then show ?thesis by (simp add: segments_concat)
qed

text \<open>What the encoding loop knows of the segment it writes.\<close>

definition seg_ok :: "ext \<Rightarrow> u8 \<Rightarrow> nat \<Rightarrow> nat \<Rightarrow> buf \<Rightarrow> string \<Rightarrow> bool" where
  "seg_ok x fmt h n seg t \<longleftrightarrow> h = (if n = 1 then 0 else 6) \<and> length seg + h \<le> 140 \<and> (n = 1 \<or> seg \<noteq> []) \<and>
     decode_charset x fmt seg = Inr t"

lemma decode_content_part:
  assumes "seg_ok x fmt h n seg t" and "long = (n \<noteq> Suc 0)"
  shows "json_of (decode_msg_content x (put_head [] h s n i @ seg @ r) fmt (of_nat (length seg) + of_nat h) json long) =
      Ok (content_json n i t json)"
proof (cases "n = 1")
  case True
  have "unat (of_nat (length seg) :: u8) = length seg" using assms(1) by (simp add: unat_of_nat seg_ok_def split: if_splits)
  then show ?thesis using True assms
    by (simp add: decode_msg_content_def put_head_eq content_json_def seg_ok_def)
next
  case False
  have l: "unat (of_nat (length seg + 6) :: u8) = length seg + 6" "unat (of_nat (length seg) :: u8) = length seg"
    using False assms by (simp_all add: unat_of_nat seg_ok_def del: of_nat_add)
  have "0 < length seg" using False assms by (simp add: seg_ok_def)
  then have g: "(6 :: u8) < of_nat (length seg + 6)" using l(1) by (simp add: word_less_nat_alt del: of_nat_add)
  have "(of_nat (length seg) + 6 :: u8) - 5 - 1 = of_nat (length seg)" by simp
  then show ?thesis using False assms g l(2)
    by (simp add: decode_msg_content_def put_head_eq content_json_def seg_ok_def)
qed

lemma sms_head_seg_ok:
  assumes "sms_head (length code) v = ((h, one, s, n), v')" and "length code < 2 ^ 24" and "i < n"
    and "pieces x fmt code ts"
  shows "segment code one n i = Some (segments code ! i) \<and> seg_ok x fmt h n (segments code ! i) (ts ! i)"
proof -
  note b = segment_bound [OF assms(1-3)]
  have n: "length (segments code) = n" by (rule sms_head_segments(1) [OF assms(1,2)])
  have "decode_charset x fmt (segments code ! i) = Inr (ts ! i)"
    using assms(3,4) n unfolding pieces_def by (metis length_map nth_map)
  moreover have "h = (if n = 1 then 0 else 6) \<and> (n = 1 \<or> segments code ! i \<noteq> [])"
    using assms(1,2)
  proof (cases rule: sms_headE)
    case multi
    have "i * 134 < length code"
    proof -
      have "n = (length code + 133) div 134" using multi by simp
      then have "i \<le> (length code - 1) div 134" using assms(3) multi(1) by linarith
      then have "i * 134 \<le> length code - 1" by (simp add: less_eq_div_iff_mult_less_eq)
      then show ?thesis using multi(1) by linarith
    qed
    moreover have "1 < n" using multi by simp
    ultimately show ?thesis using multi assms(3) n by (auto simp: segments_def Let_def)
  qed simp
  ultimately show ?thesis using b by (simp add: seg_ok_def)
qed

lemma seg_ok_length: "seg_ok x fmt h n seg t \<Longrightarrow> length seg + h \<le> 140"
  by (simp add: seg_ok_def)

lemma ucast_length: "ucast (of_nat (a + b) :: u32) = (of_nat a + of_nat b :: u8)"
proof -
  have "ucast (of_nat k :: u32) = (of_nat k :: u8)" for k by transfer simp
  from this [of "a + b"] show ?thesis by (simp only: of_nat_add)
qed

text \<open>A text field that is read back as it was written.\<close>

definition clean :: "nat \<Rightarrow> string \<Rightarrow> bool" where
  "clean n s \<longleftrightarrow> length s \<le> n \<and> no_trailing_nul s"

lemma clean_field [simp]: "clean n s \<Longrightarrow> trim_nul (from_bytes (field s n)) = s"
  by (simp add: clean_def)

lemma put_head_append: "put_head dst h s n i = dst @ put_head [] h s n i"
  by (simp add: put_head_eq)

lemma length_put_head: "seg_ok x fmt h n seg t \<Longrightarrow> length (put_head [] h s n i) = h"
  by (simp add: put_head_eq seg_ok_def)

text \<open>A loop that appends one unit per round writes a row.\<close>

lemma loop_row:
  assumes "for_each [0..<n] body st = Some st'" and "fst st = []"
    and "\<And>i st st'. i < n \<Longrightarrow> body i st = Some st' \<Longrightarrow> \<exists>u. fst st' = fst st @ u \<and> pdu_ok u \<and> Q i u"
  shows "row Q n (fst st')"
proof -
  have "row Q (length [0..<n]) (fst st')"
    using assms(1)
  proof (rule for_each_invariant [where P = "\<lambda>i st. row Q i (fst st)"])
    show "row Q 0 (fst st)" using assms(2) by (simp add: row_0)
  next
    fix i s s' assume "i < length [0..<n]" "row Q i (fst s)" "body ([0..<n] ! i) s = Some s'"
    then show "row Q (Suc i) (fst s')" using assms(3) [of i s s'] row_snoc by fastforce
  qed
  then show ?thesis by simp
qed

lemma text_row:
  assumes "sms_head (length code) w = ((h, one, s, n), w')" and "length code < 2 ^ 24" and "pieces x fmt code ts"
    and "for_each [0..<n] body st = Some st'" and "fst st = []"
    and "\<And>i st st' seg t. body i st = Some st' \<Longrightarrow> segment code one n i = Some seg \<Longrightarrow>
      seg_ok x fmt h n seg t \<Longrightarrow> \<exists>u. fst st' = fst st @ u \<and> pdu_ok u \<and> Q i t u"
  shows "row (\<lambda>i. Q i (ts ! i)) n (fst st')"
  using sms_head_seg_ok [OF assms(1,2) _ assms(3)] assms(6) by (intro loop_row [OF assms(4,5)]) blast

lemma flag_byte: "((if c then 0 else 1) = (0 :: u8)) = c" "((if c then 0 else 1) = (1 :: u8)) = (\<not> c)"
  by simp_all

text \<open>What evaluates a decoder on the bytes of a unit.\<close>

lemmas read_simps = wire_simps idx_content_json text_part_content msg_header_def flag_byte

text \<open>What evaluates one round of an encoding loop to the bytes it appends.\<close>

lemmas write_simps = bind_eq_Some fill_bytes_zero_eq_Some fill_all_eq_Some split_def Let_def put_defs
  put_head_append [of "_ @ _"]

text \<open>A length field that counts itself and what follows.\<close>

lemma pdu_ok_counted: "k = 4 + length u \<Longrightarrow> k < 2 ^ 32 \<Longrightarrow> pdu_ok (be_bytes 4 (unat (of_nat k :: u32)) @ u)"
  unfolding pdu_ok_append unat_of_nat by simp

lemma unit_written:
  assumes "dst' = dst @ be_bytes 4 (unat (of_nat k :: u32)) @ rest" and "k = 4 + length rest" and "k < 2 ^ 32" and "P rest"
  shows "\<exists>u. dst' = dst @ u \<and> pdu_ok u \<and> P (drop 4 u)"
  using assms(1,4) pdu_ok_counted [OF assms(2,3)]
  by (intro exI [of _ "be_bytes 4 (unat (of_nat k :: u32)) @ rest"]) simp

text \<open>In SMGP the content is cut off first, and a parameter behind it tells whether it is a part.\<close>

definition tlv_bytes :: "SmgpTLV list \<Rightarrow> nat \<Rightarrow> buf" where
  "tlv_bytes tlvs k = concat (map (\<lambda>t. tlv_put_value t k (put_u16 [] (tlv_get_u16 t))) tlvs)"

lemma coder_tlv_bytes: "(if tlvs \<noteq> [] then coder_tlv dst tlvs k else dst) = dst @ tlv_bytes tlvs k"
  by (simp add: coder_tlv_append tlv_bytes_def)

lemma get_u16_be: "k < 2 ^ 16 \<Longrightarrow> get_u16 (be_bytes 2 k @ r) = Some (of_nat k, r)"
  by (simp add: get_u16_def)

lemma split_content:
  assumes "seg_ok x fmt h n seg t" and "k = unat (of_nat (length seg) + of_nat h :: u8)"
  shows "split_to (put_head [] h s n i @ seg @ r) k = Some (put_head [] h s n i @ seg, r)"
proof -
  have "k = h + length seg"
    using seg_ok_length [OF assms(1)] assms(2) by (simp add: unat_of_nat flip: of_nat_add)
  then have "length (put_head [] h s n i @ seg) = k" using length_put_head [OF assms(1), of s i] by simp
  from split_to_append [OF this, of r] show ?thesis by simp
qed

lemmas decode_content_end = decode_content_part [where r = "[]", unfolded append_Nil2]

lemma demo_pieces: "pieces demo_ext (msg_fmt_of (demo_json t)) (as_bytes ''hello'') [''hello'']"
proof -
  have "segments (as_bytes ''hello'') = [as_bytes ''hello'']" by (simp add: segments_def seg_count_def)
  moreover have "ascii ''hello''" by (intro ascii_example) simp
  moreover have "msg_fmt_of (demo_json t) = 0" by (simp add: msg_fmt_of_def as_word.simps)
  ultimately show ?thesis using ascii_pieces [of "''hello''" demo_ext] by (simp del: as_bytes_simps)
qed

end
