(* ===== verification/Submitted.thy ===== *)
theory Submitted
  imports Units
begin

text \<open>
  A submit message read back: in every protocol the units \<open>encode_message\<close> writes decode to submit
  messages with the numbers, the format and the piece of the text of their place in the message.
\<close>

subsection \<open>One unit\<close>

definition submit_read :: "nat \<Rightarrow> nat \<Rightarrow> string \<Rightarrow> string \<Rightarrow> json \<Rightarrow> u8 \<Rightarrow> json \<Rightarrow> bool" where
  "submit_read n i t src_id ids fmt j \<longleftrightarrow> of_type ''Submit'' j \<and> text_part n i t j \<and>
     idx j SRC_ID = JStr src_id \<and> idx j DEST_IDS = ids \<and> idx j MSG_FMT = num fmt"

text \<open>The numbers a message goes to as they are read: SMGP drops them, SGIP adds the country code.\<close>

definition ids_read :: "protocol \<Rightarrow> string list \<Rightarrow> json" where
  "ids_read p ds = (if p = SMGP then JNull else if p = SGIP then strs (map (\<lambda>d. ''86'' @ d) ds) else strs ds)"

lemma decode_submit_unit:
  assumes "\<exists>j. decode_submit p x rest seq (get_type_id p Submit) = Ok j \<and> text_part n i t j \<and>
    idx j SRC_ID = JStr src_id \<and> idx j DEST_IDS = ids \<and> idx j MSG_FMT = num fmt" and "p \<noteq> NoProtocol"
  shows "\<exists>j. decode_frame p x (be_bytes 4 (unat (get_type_id p Submit)) @ be_bytes 4 (unat seq) @ rest) = Ok j \<and>
    submit_read n i t src_id ids fmt j"
proof -
  have "has_type p Submit" using assms(2) by (cases p) auto
  then show ?thesis using assms
    by (auto simp: decode_frame_def type_back Let_def submit_read_def of_type_def text_part_setk)
qed

lemma get_u64_0: "get_u64 (be_bytes 8 0 @ r) = Some (0, r)"
  using get_u64_put [of 0 r] by simp

lemma load_fields:
  "length ds < 256 \<Longrightarrow> list_all (clean k) ds \<Longrightarrow>
   load_strings (unat (of_nat (length ds) :: u8)) k (concat (map (\<lambda>s. field s k) ds) @ r) = (ds, r)"
  using load_strings_fields [of ds k r]
  by (simp add: unat_of_nat clean_def list_all_iff map_idI)

lemma default_submit_unit:
  assumes "default_submit_part p service_id sp_id valid_time at_time src_id ds fmt code (h, one, s, n) i st = Some st'"
    and "segment code one n i = Some seg" and "seg_ok x fmt h n seg t"
    and "p \<in> {CMPP48, SMPP}" and "clean 21 src_id" and "length ds < 256" and "list_all (clean 32) ds"
  shows "\<exists>u. fst st' = fst st @ u \<and> pdu_ok u \<and>
    (\<exists>j. decode_frame p x (drop 4 u) = Ok j \<and> submit_read n i t src_id (ids_read p ds) fmt j)"
proof -
  let ?rest = "\<lambda>sp. be_bytes 8 0 @ [1, 1, 1, 1] @ field service_id 10 @ [3] @ replicate 32 0 @
     [0, 0, if n = Suc 0 then 0 else 1, fmt] @ sp @ as_bytes ''01'' @ as_bytes ''000001'' @ field valid_time 17 @
     field at_time 17 @ field src_id 21 @ [of_nat (length ds)] @ concat (map (\<lambda>s. field s 32) ds) @
     [0, of_nat (length seg) + of_nat h] @ put_head [] h s n i @ seg @ replicate 20 0"
  obtain seq sp where u: "fst st' = fst st @ be_bytes 4 (unat (of_nat (163 + length ds * 32 + h + length seg) :: u32)) @
      be_bytes 4 (unat (get_type_id p Submit)) @ be_bytes 4 (unat (seq :: u32)) @ ?rest sp" and sp: "length sp = 6"
    using assms(1,2) by (auto simp: default_submit_part_def write_simps dest!: prefix_bytes_length)
  have "decode_submit p = default_decode_submit" using assms(4) by (auto simp: fun_eq_iff)
  then have "\<exists>j. decode_submit p x (?rest sp) seq tp = Ok j \<and> text_part n i t j \<and> idx j SRC_ID = JStr src_id \<and>
    idx j DEST_IDS = ids_read p ds \<and> idx j MSG_FMT = num fmt" for tp
    using assms(4,5) sp
    by (simp add: default_decode_submit_def read_simps get_u64_0 load_fields [OF assms(6,7)]
        decode_content_part [OF assms(3)] ids_read_def del: put_head_eq split del: if_split)
      (auto simp: ids_read_def)
  from decode_submit_unit [OF this] have "\<exists>j. decode_frame p x (be_bytes 4 (unat (get_type_id p Submit)) @
    be_bytes 4 (unat seq) @ ?rest sp) = Ok j \<and> submit_read n i t src_id (ids_read p ds) fmt j"
    using assms(4) by blast
  then show ?thesis
    using u sp length_put_head [OF assms(3), of s i] seg_ok_length [OF assms(3)] assms(6)
    by (intro unit_written) (assumption | simp del: put_head_eq)+
qed

lemma cmpp32_submit_unit:
  assumes "cmpp32_submit_part service_id sp_id valid_time at_time src_id ds fmt code (h, one, s, n) i st = Some st'"
    and "segment code one n i = Some seg" and "seg_ok x fmt h n seg t"
    and "clean 21 src_id" and "length ds < 256" and "list_all (clean 21) ds"
  shows "\<exists>u. fst st' = fst st @ u \<and> pdu_ok u \<and>
    (\<exists>j. decode_frame CMPP32 x (drop 4 u) = Ok j \<and> submit_read n i t src_id (ids_read CMPP32 ds) fmt j)"
proof -
  let ?rest = "\<lambda>sp. be_bytes 8 0 @ [1, 1, 1, 1] @ field service_id 10 @ [3] @ replicate 21 0 @
     [0, if n = Suc 0 then 0 else 1, fmt] @ sp @ as_bytes ''01'' @ as_bytes ''000001'' @ field valid_time 17 @
     field at_time 17 @ field src_id 21 @ [of_nat (length ds)] @ concat (map (\<lambda>s. field s 21) ds) @
     [of_nat (length seg) + of_nat h] @ put_head [] h s n i @ seg @ replicate 8 0"
  obtain seq sp where u: "fst st' = fst st @ be_bytes 4 (unat (of_nat (138 + length ds * 21 + h + length seg) :: u32)) @
      be_bytes 4 (unat (get_type_id CMPP32 Submit)) @ be_bytes 4 (unat (seq :: u32)) @ ?rest sp" and sp: "length sp = 6"
    using assms(1,2) by (auto simp: cmpp32_submit_part_def write_simps dest!: prefix_bytes_length)
  have "\<exists>j. decode_submit CMPP32 x (?rest sp) seq tp = Ok j \<and> text_part n i t j \<and> idx j SRC_ID = JStr src_id \<and>
    idx j DEST_IDS = ids_read CMPP32 ds \<and> idx j MSG_FMT = num fmt" for tp
    using assms(4) sp
    by (simp add: cmpp32_decode_submit_def read_simps get_u64_0 load_fields [OF assms(5,6)]
        decode_content_part [OF assms(3)] ids_read_def del: put_head_eq split del: if_split)
  from decode_submit_unit [OF this] have "\<exists>j. decode_frame CMPP32 x (be_bytes 4 (unat (get_type_id CMPP32 Submit)) @
    be_bytes 4 (unat seq) @ ?rest sp) = Ok j \<and> submit_read n i t src_id (ids_read CMPP32 ds) fmt j"
    by blast
  then show ?thesis
    using u sp length_put_head [OF assms(3), of s i] seg_ok_length [OF assms(3)] assms(5)
    by (intro unit_written) (assumption | simp del: put_head_eq)+
qed

text \<open>
  \<open>decode_tlvs\<close> leaves the value of a parameter it does not know where it is and reads on in it; of the
  three parameters of a part it takes the first, and stops at a length that makes no sense.
\<close>

lemma get_u16_Cons: "get_u16 (a # b # r) = Some (of_nat (unat a * 256 + unat b), r)"
  by (simp add: get_u16_def get_be_def be_nat_def numeral_2_eq_2)

lemma be_bytes_2: "be_bytes 2 n = [of_nat (n div 256 mod 256), of_nat (n mod 256)]"
  by (simp add: numeral_2_eq_2)

lemma submit_tlvs_decoded:
  "decode_tlvs (tlv_bytes (submit_tlvs h n) k) [TPUdhi 0] = Some [TPUdhi (if h = 0 then 0 else 1)]"
  by (simp add: decode_tlvs.simps tlv_bytes_def submit_tlvs_def put_defs get_u16_be tlv_from_u8_def get_u16_Cons be_bytes_2)

lemma smgp_submit_unit:
  assumes "smgp_submit_part service_id valid_time at_time src_id ds fmt code (h, one, s, n)
      (tlv_tail h 15) (submit_tlvs h n) i st = Some st'"
    and "segment code one n i = Some seg" and "seg_ok x fmt h n seg t"
    and "clean 21 src_id" and "length ds < 256" and "list_all (clean 21) ds"
  shows "\<exists>u. fst st' = fst st @ u \<and> pdu_ok u \<and>
    (\<exists>j. decode_frame SMGP x (drop 4 u) = Ok j \<and> submit_read n i t src_id (ids_read SMGP ds) fmt j)"
proof -
  let ?rest = "[6, 1, 2] @ field service_id 10 @ as_bytes ''00'' @ as_bytes ''000000'' @ as_bytes ''000000'' @
     [fmt] @ field valid_time 17 @ field at_time 17 @ field src_id 21 @ replicate 21 0 @
     [of_nat (length ds)] @ concat (map (\<lambda>s. field s 21) ds) @
     [of_nat (length seg) + of_nat h] @ put_head [] h s n i @ seg @ replicate 8 0 @ tlv_bytes (submit_tlvs h n) (i + 1)"
  obtain seq where u: "fst st' = fst st @ be_bytes 4 (unat (of_nat (126 + length ds * 21 + h + length seg + tlv_tail h 15) :: u32)) @
      be_bytes 4 (unat (get_type_id SMGP Submit)) @ be_bytes 4 (unat (seq :: u32)) @ ?rest"
    using assms(1,2) unfolding smgp_submit_part_def coder_tlv_bytes by (auto simp: write_simps)
  have long: "(h = 0) = (n = Suc 0)" using assms(3) by (simp add: seg_ok_def)
  have len: "unat (of_nat (length seg) + of_nat h :: u8) = length seg + h"
    using seg_ok_length [OF assms(3)] by (simp add: unat_of_nat flip: of_nat_add)
  have "\<exists>j. decode_submit SMGP x ?rest seq tp = Ok j \<and> text_part n i t j \<and> idx j SRC_ID = JStr src_id \<and>
    idx j DEST_IDS = ids_read SMGP ds \<and> idx j MSG_FMT = num fmt" for tp
    using assms(4) length_put_head [OF assms(3), of s i]
    by (simp add: smgp_decode_submit_def read_simps load_fields [OF assms(5,6)] len split_content [OF assms(3) len [symmetric]]
        submit_tlvs_decoded tlv_is_long_def decode_content_end [OF assms(3)] long ids_read_def
        del: put_head_eq split del: if_split)
  from decode_submit_unit [OF this] have "\<exists>j. decode_frame SMGP x (be_bytes 4 (unat (get_type_id SMGP Submit)) @
    be_bytes 4 (unat seq) @ ?rest) = Ok j \<and> submit_read n i t src_id (ids_read SMGP ds) fmt j"
    by blast
  moreover have "length (tlv_bytes (submit_tlvs h n) k) = tlv_tail h 15" for k
    by (simp add: tlv_bytes_def submit_tlvs_def tlv_tail_def put_defs)
  ultimately show ?thesis
    using u length_put_head [OF assms(3), of s i] seg_ok_length [OF assms(3)] assms(5)
    by (intro unit_written) (assumption | simp add: tlv_tail_def del: put_head_eq)+
qed

lemma load_fields_86:
  assumes "length ds < 256" and "list_all (clean 19) ds"
  shows "load_strings (unat (of_nat (length ds) :: u8)) 21 (concat (map (\<lambda>s. as_bytes ''86'' @ field s 19) ds) @ r) =
    (map (\<lambda>d. ''86'' @ d) ds, r)"
proof -
  have f: "as_bytes ''86'' @ field s 19 = field (''86'' @ s) 21" for s by (simp add: field_def)
  have "list_all (clean 21) (map (\<lambda>d. ''86'' @ d) ds)"
    using assms(2) by (auto simp: list_all_iff clean_def no_trailing_nul_def)
  with assms(1) load_fields [of "map (\<lambda>d. ''86'' @ d) ds" 21 r] show ?thesis by (simp only: f map_map comp_def length_map)
qed

lemma sgip_submit_unit:
  assumes "sgip_submit_part node_id service_id corp_id src_id ds fmt code (h, one, s, n) i st = Some st'"
    and "segment code one n i = Some seg" and "seg_ok x fmt h n seg t"
    and "clean 21 src_id" and "length ds < 256" and "list_all (clean 19) ds"
  shows "\<exists>u. fst st' = fst st @ u \<and> pdu_ok u \<and>
    (\<exists>j. decode_frame SGIP x (drop 4 u) = Ok j \<and> submit_read n i t src_id (ids_read SGIP ds) fmt j)"
proof -
  let ?rest = "\<lambda>sq corp. be_bytes 8 (unat (sq :: u64)) @ field src_id 21 @ replicate 21 0 @ [of_nat (length ds)] @
     concat (map (\<lambda>s. as_bytes ''86'' @ field s 19) ds) @ corp @ field service_id 10 @ [1] @ as_bytes ''000001'' @
     as_bytes ''000000'' @ [0, 0, 0] @ replicate 16 0 @ replicate 16 0 @
     [1, 0, if n = Suc 0 then 0 else 1, fmt, 0] @ be_bytes 4 (unat (of_nat (length seg + h) :: u32)) @
     put_head [] h s n i @ seg @ replicate 8 0"
  obtain sq corp where u: "fst st' = fst st @ be_bytes 4 (unat (of_nat (143 + length ds * 21 + h + length seg) :: u32)) @
      be_bytes 4 (unat (get_type_id SGIP Submit)) @ be_bytes 4 (unat node_id) @ ?rest sq corp" and corp: "length corp = 5"
    using assms(1,2) by (auto simp: sgip_submit_part_def write_simps fill_all_86_eq_Some dest!: prefix_bytes_length)
  have "\<exists>j. decode_submit SGIP x (?rest sq corp) node_id tp = Ok j \<and> text_part n i t j \<and> idx j SRC_ID = JStr src_id \<and>
    idx j DEST_IDS = ids_read SGIP ds \<and> idx j MSG_FMT = num fmt" for tp
    using assms(4) corp
    by (simp add: sgip_decode_submit_def sgip_header_def read_simps load_fields_86 [OF assms(5,6), simplified]
        decode_content_part [OF assms(3)] ids_read_def ucast_length del: put_head_eq of_nat_add split del: if_split)
  from decode_submit_unit [OF this] have "\<exists>j. decode_frame SGIP x (be_bytes 4 (unat (get_type_id SGIP Submit)) @
    be_bytes 4 (unat node_id) @ ?rest sq corp) = Ok j \<and> submit_read n i t src_id (ids_read SGIP ds) fmt j"
    by blast
  moreover have "length (concat (map (\<lambda>s. as_bytes ''86'' @ field s 19) ds)) = length ds * 21"
    by (induction ds) simp_all
  ultimately show ?thesis
    using u corp length_put_head [OF assms(3), of s i] seg_ok_length [OF assms(3)] assms(5)
    by (intro unit_written) (assumption | simp del: put_head_eq)+
qed

subsection \<open>All units\<close>

definition submit_row :: "protocol \<Rightarrow> ext \<Rightarrow> json \<Rightarrow> string list \<Rightarrow> string list \<Rightarrow> nat \<Rightarrow> buf \<Rightarrow> bool" where
  "submit_row p x json ts ds n = row (\<lambda>i u. \<exists>j. decode_frame p x (drop 4 u) = Ok j \<and>
     submit_read n i (ts ! i) (str_or_empty (idx json SRC_ID)) (ids_read p ds) (msg_fmt_of json) j) n"

lemma submit_row_loop:
  assumes "sms_head (length code) w = ((h, one, s, n), w')" and "length code < 2 ^ 24"
    and "pieces x (msg_fmt_of json) code ts" and "as_str (idx json SRC_ID) = Some src_id"
    and "for_each [0..<n] body st = Some st'" and "fst st = []"
    and "\<And>i st st' seg t. body i st = Some st' \<Longrightarrow> segment code one n i = Some seg \<Longrightarrow>
      seg_ok x (msg_fmt_of json) h n seg t \<Longrightarrow> \<exists>u. fst st' = fst st @ u \<and> pdu_ok u \<and>
      (\<exists>j. decode_frame p x (drop 4 u) = Ok j \<and> submit_read n i t src_id (ids_read p ds) (msg_fmt_of json) j)"
  shows "submit_row p x json ts ds (seg_count (length code)) (fst st')"
  using text_row [OF assms(1-3,5-7)] assms(4) sms_head_count [OF assms(1,2)]
  by (simp add: submit_row_def str_or_empty_def)

lemma default_encode_submit_row:
  assumes "default_encode_submit p x json w = Some (Inr out, json', w')" and "content_code x json = Some code" and "length code < 2 ^ 24"
    and "pieces x (msg_fmt_of json) code ts" and "unwrap_strs (members (idx json DEST_IDS)) = Some ds" and "length ds < 256"
    and "clean 21 (str_or_empty (idx json SRC_ID))" and "list_all (clean 32) ds" and "p \<in> {CMPP48, SMPP}"
  shows "submit_row p x json ts ds (seg_count (length code)) out"
proof -
  obtain h one s n w1 where head: "sms_head (length code) w = ((h, one, s, n), w1)" by (metis surj_pair)
  obtain st service_id sp_id valid_time at_time src_id where l: "for_each [0..<n] (default_submit_part p service_id sp_id valid_time at_time src_id ds (msg_fmt_of json)
      code (h, one, s, n)) ([], [], w1) = Some st" "out = fst st"
    and s: "as_str (idx json SRC_ID) = Some src_id"
    using assms(1,5) content_codeD [OF assms(2)] head
    by (auto simp: default_encode_submit_def require_eq_Some bind_eq_Some Let_def split: if_splits)
  have c: "clean 21 src_id" using assms(7) s by (simp add: str_or_empty_def)
  show ?thesis
    using submit_row_loop [OF head assms(3,4) s l(1) _ default_submit_unit [OF _ _ _ assms(9) c assms(6,8)]] l(2) by simp
qed

lemma cmpp32_encode_submit_row:
  assumes "cmpp32_encode_submit x json w = Some (Inr out, json', w')" and "content_code x json = Some code" and "length code < 2 ^ 24"
    and "pieces x (msg_fmt_of json) code ts" and "unwrap_strs (members (idx json DEST_IDS)) = Some ds" and "length ds < 256"
    and "clean 21 (str_or_empty (idx json SRC_ID))" and "list_all (clean 21) ds"
  shows "submit_row CMPP32 x json ts ds (seg_count (length code)) out"
proof -
  obtain h one s n w1 where head: "sms_head (length code) w = ((h, one, s, n), w1)" by (metis surj_pair)
  obtain st service_id sp_id valid_time at_time src_id where l: "for_each [0..<n] (cmpp32_submit_part service_id sp_id valid_time at_time src_id ds (msg_fmt_of json)
      code (h, one, s, n)) ([], [], w1) = Some st" "out = fst st"
    and s: "as_str (idx json SRC_ID) = Some src_id"
    using assms(1,5) content_codeD [OF assms(2)] head
    by (auto simp: cmpp32_encode_submit_def require_eq_Some bind_eq_Some Let_def split: if_splits)
  have c: "clean 21 src_id" using assms(7) s by (simp add: str_or_empty_def)
  show ?thesis
    using submit_row_loop [OF head assms(3,4) s l(1) _ cmpp32_submit_unit [OF _ _ _ c assms(6,8)]] l(2) by simp
qed

lemma sgip_encode_submit_row:
  assumes "sgip_encode_submit x json w = Some (Inr out, json', w')" and "content_code x json = Some code" and "length code < 2 ^ 24"
    and "pieces x (msg_fmt_of json) code ts" and "unwrap_strs (members (idx json DEST_IDS)) = Some ds" and "length ds < 256"
    and "clean 21 (str_or_empty (idx json SRC_ID))" and "list_all (clean 19) ds"
  shows "submit_row SGIP x json ts ds (seg_count (length code)) out"
proof -
  obtain h one s n w1 where head: "sms_head (length code) w = ((h, one, s, n), w1)" by (metis surj_pair)
  obtain st node_id service_id corp_id src_id where l: "for_each [0..<n] (sgip_submit_part node_id service_id corp_id src_id ds (msg_fmt_of json)
      code (h, one, s, n)) ([], [], w1) = Some st" "out = fst st"
    and s: "as_str (idx json SRC_ID) = Some src_id"
    using assms(1,5) content_codeD [OF assms(2)] head
    by (auto simp: sgip_encode_submit_def require_eq_Some bind_eq_Some Let_def split: if_splits)
  have c: "clean 21 src_id" using assms(7) s by (simp add: str_or_empty_def)
  show ?thesis
    using submit_row_loop [OF head assms(3,4) s l(1) _ sgip_submit_unit [OF _ _ _ c assms(6,8)]] l(2) by simp
qed

lemma smgp_encode_submit_row:
  assumes "smgp_encode_submit x json w = Some (Inr out, json', w')" and "content_code x json = Some code" and "length code < 2 ^ 24"
    and "pieces x (msg_fmt_of json) code ts" and "unwrap_strs (members (idx json DEST_IDS)) = Some ds" and "length ds < 256"
    and "clean 21 (str_or_empty (idx json SRC_ID))" and "list_all (clean 21) ds"
  shows "submit_row SMGP x json ts ds (seg_count (length code)) out"
proof -
  obtain h one s n w1 where head: "sms_head (length code) w = ((h, one, s, n), w1)" by (metis surj_pair)
  have tlv: "tlv_tail h 15 = (if length code \<le> 140 then 0 else 15)"
    "submit_tlvs h n = (if length code \<le> 140 then [] else [TPUdhi 1, PkTotal (saturate_u8 n), PkNumber])"
    using sms_head_head_len [OF head] by (simp_all add: head_len_def tlv_tail_def submit_tlvs_def)
  obtain st service_id valid_time at_time src_id where l: "for_each [0..<n] (smgp_submit_part service_id valid_time at_time src_id ds (msg_fmt_of json)
      code (h, one, s, n) (tlv_tail h 15) (submit_tlvs h n)) ([], [], w1) = Some st" "out = fst st"
    and s: "as_str (idx json SRC_ID) = Some src_id"
    using assms(1,5) content_codeD [OF assms(2)] head
    by (cases "length code \<le> 140")
      (auto simp: smgp_encode_submit_def require_eq_Some bind_eq_Some Let_def tlv split: if_splits)
  have c: "clean 21 src_id" using assms(7) s by (simp add: str_or_empty_def)
  show ?thesis
    using submit_row_loop [OF head assms(3,4) s l(1) _ smgp_submit_unit [OF _ _ _ c assms(6,8)]] l(2) by simp
qed

text \<open>The width of the fields that hold the numbers a submit message goes to.\<close>

definition dest_width :: "protocol \<Rightarrow> nat" where
  "dest_width p = (if p = CMPP48 \<or> p = SMPP then 32 else if p = SGIP then 19 else 21)"

lemma encode_submit_row:
  assumes "encode_message p x json w = Some (Inr out, json', w')" and "of_type ''Submit'' json"
    and "content_code x json = Some code" and "length code < 2 ^ 24" and "pieces x (msg_fmt_of json) code ts"
    and "unwrap_strs (members (idx json DEST_IDS)) = Some ds" and "length ds < 256"
    and "clean 21 (str_or_empty (idx json SRC_ID))" and "list_all (clean (dest_width p)) ds"
  shows "submit_row p x json ts ds (seg_count (length code)) out"
proof -
  have "p \<noteq> NoProtocol" "encode_submit p x json w = Some (Inr out, json', w')"
    using assms(1,2) by (auto simp: encode_message_def of_type_def split: if_splits)
  then show ?thesis
    using assms(9) default_encode_submit_row [OF _ assms(3-8)] cmpp32_encode_submit_row [OF _ assms(3-8)]
      sgip_encode_submit_row [OF _ assms(3-8)] smgp_encode_submit_row [OF _ assms(3-8)]
    by (cases p) (simp_all add: dest_width_def)
qed

text \<open>C3: what a gateway reads of a submit message is what the other has put in. In every protocol the
  bytes of an accepted submit message are split by their length fields into one unit per segment, and
  each unit decodes to a submit message with the number it comes from, the format, the part of the
  text at its place with its part numbers, and the numbers it goes to - which SGIP gives back with the
  country code in front and SMGP not at all - for up to 255 numbers that fit their fields.\<close>

theorem submit_read_back:
  assumes "encode_message p x json w = Some (Inr out, json', w')" and "of_type ''Submit'' json"
    and "content_code x json = Some code" and "length code < 2 ^ 24" and "pieces x (msg_fmt_of json) code ts"
    and "unwrap_strs (members (idx json DEST_IDS)) = Some ds" and "length ds < 256"
    and "clean 21 (str_or_empty (idx json SRC_ID))" and "list_all (clean (dest_width p)) ds"
  shows "\<exists>ps. split_frames out = Some ps \<and> length ps = seg_count (length code) \<and>
    (\<forall>i < length ps. \<exists>j. decode_frame p x (drop 4 (ps ! i)) = Ok j \<and>
      submit_read (length ps) i (ts ! i) (str_or_empty (idx json SRC_ID)) (ids_read p ds) (msg_fmt_of json) j)"
  using row_split [OF encode_submit_row [OF assms, unfolded submit_row_def]] by fastforce

lemma submit_read_back_witness:
  "\<exists>out json' w' u j. encode_message SGIP demo_ext (demo_json ''Submit'') demo_world = Some (Inr out, json', w') \<and>
     split_frames out = Some [u] \<and> decode_frame SGIP demo_ext (drop 4 u) = Ok j \<and>
     idx j DEST_IDS = JArr [JStr ''8613800000000''] \<and> idx j MSG_CONTENT = JStr ''hello''"
proof -
  obtain out json' w' where
    e: "encode_message SGIP demo_ext (demo_json ''Submit'') demo_world = Some (Inr out, json', w')"
    using submit_ready_encodes [OF demo_submit_ready demo_content, of SGIP demo_world] by auto
  obtain ps where ps: "split_frames out = Some ps" "length ps = 1" "\<forall>i < length ps. \<exists>j.
      decode_frame SGIP demo_ext (drop 4 (ps ! i)) = Ok j \<and> submit_read (length ps) i ([''hello''] ! i)
        ''10690001'' (ids_read SGIP [''13800000000'']) (msg_fmt_of (demo_json ''Submit'')) j"
    using submit_read_back [OF e demo_of_type demo_content _ demo_pieces, of "[''13800000000'']"]
    by (fastforce simp: seg_count_def str_or_empty_def clean_def dest_width_def no_trailing_nul_def)
  then obtain u where "ps = [u]" by (metis One_nat_def length_0_conv length_Suc_conv)
  with e ps show ?thesis by (auto simp: submit_read_def text_part_def ids_read_def)
qed

end
