(* ===== verification/Framing.thy ===== *)
theory Framing
  imports Units
begin

text \<open>
  The stream between two gateways.  The codec that cuts it into frames belongs to a library: it is a
  parameter, with the law its documentation gives.  From that law: however the network cuts the stream,
  the messages read are those of its units, in order; and what a wrong length field does.
\<close>

subsection \<open>The codec\<close>

text \<open>
  The settings of a \<open>LengthDelimitedCodec\<close>: where the length stands in the head, its size, and what is added
  to it; no protocol sets the maximum of a frame.  \<open>new\<close> of a protocol fills its own number of a version,
  which nothing reads, and the settings; \<open>clone\<close> makes a new one.
\<close>

definition max_frame :: nat where
  "max_frame = 8 * 1024 * 1024"

record length_codec =
  length_field_offset :: nat
  length_field_length :: nat
  length_adjustment :: int

record protocol_impl =
  impl_version :: u32
  impl_codec :: length_codec

definition cmpp48_new :: protocol_impl where
  "cmpp48_new =
     \<lparr>impl_version = 48,
      impl_codec = \<lparr>length_field_offset = 0, length_field_length = 4, length_adjustment = -4\<rparr>\<rparr>"

definition cmpp32_new :: protocol_impl where
  "cmpp32_new =
     \<lparr>impl_version = 32,
      impl_codec = \<lparr>length_field_offset = 0, length_field_length = 4, length_adjustment = -4\<rparr>\<rparr>"

definition smgp_new :: protocol_impl where
  "smgp_new =
     \<lparr>impl_version = 0x30,
      impl_codec = \<lparr>length_field_offset = 0, length_field_length = 4, length_adjustment = -4\<rparr>\<rparr>"

definition sgip_new :: protocol_impl where
  "sgip_new =
     \<lparr>impl_version = 0x0d,
      impl_codec = \<lparr>length_field_offset = 0, length_field_length = 4, length_adjustment = -4\<rparr>\<rparr>"

definition smpp_new :: protocol_impl where
  "smpp_new =
     \<lparr>impl_version = 0,
      impl_codec = \<lparr>length_field_offset = 0, length_field_length = 4, length_adjustment = -4\<rparr>\<rparr>"

fun codec_of :: "protocol \<Rightarrow> length_codec option" where
  "codec_of CMPP48 = Some (impl_codec cmpp48_new)"
| "codec_of CMPP32 = Some (impl_codec cmpp32_new)"
| "codec_of SMGP = Some (impl_codec smgp_new)"
| "codec_of SGIP = Some (impl_codec sgip_new)"
| "codec_of SMPP = Some (impl_codec smpp_new)"
| "codec_of NoProtocol = None"

text \<open>
  What the library says of a codec with given settings: it reads the length, adjusts it, and gives as
  many bytes after the head.  The codec may keep the head it has read: \<open>pend c\<close> is what it has taken and
  not given out.  A length above the maximum, or below zero once adjusted, is an error, and nothing
  is taken.
\<close>

definition delimits :: "length_codec \<Rightarrow> ('c \<Rightarrow> buf) \<Rightarrow> 'c codec \<Rightarrow> bool" where
  "delimits lc pend g \<longleftrightarrow> (\<forall>c b. case g c b of (r, c', b') \<Rightarrow>
     let s = pend c @ b; h = length_field_offset lc + length_field_length lc;
         n = be_nat (take (length_field_length lc) (drop (length_field_offset lc) s));
         f = int n + length_adjustment lc
     in if length s < h then r = Inr None \<and> pend c' @ b' = s
        else if max_frame < n \<or> f < 0 then (\<exists>e. r = Inl e) \<and> pend c' @ b' = s
        else if length s < h + nat f then r = Inr None \<and> pend c' @ b' = s
        else r = Inr (Some (take (nat f) (drop h s))) \<and> pend c' @ b' = drop (h + nat f) s)"

text \<open>All protocols use the same settings: four bytes of length that count themselves.\<close>

definition codec_ok :: "('c \<Rightarrow> buf) \<Rightarrow> 'c codec \<Rightarrow> bool" where
  "codec_ok pend g \<longleftrightarrow> (\<forall>p lc. codec_of p = Some lc \<longrightarrow> delimits lc pend g)"

lemma codec_of_Some:
  "codec_of p = Some lc \<longleftrightarrow>
   p \<noteq> NoProtocol \<and> lc = \<lparr>length_field_offset = 0, length_field_length = 4, length_adjustment = -4\<rparr>"
  by (cases p) (auto simp: cmpp48_new_def cmpp32_new_def smgp_new_def sgip_new_def smpp_new_def)

lemma codec_ok_iff:
  "codec_ok pend g \<longleftrightarrow> (\<forall>c b. case g c b of (r, c', b') \<Rightarrow>
     let s = pend c @ b; n = be_nat (take 4 s) in
     if length s < 4 then r = Inr None \<and> pend c' @ b' = s
     else if n < 4 \<or> max_frame < n then (\<exists>e. r = Inl e) \<and> pend c' @ b' = s
     else if length s < n then r = Inr None \<and> pend c' @ b' = s
     else r = Inr (Some (drop 4 (take n s))) \<and> pend c' @ b' = drop n s)" (is "_ \<longleftrightarrow> ?law")
proof -
  have step: "(let h = 0 + 4; n = be_nat (take 4 (drop 0 s)); f = int n + - 4 in
      if length s < h then r = Inr None \<and> t = s
      else if max_frame < n \<or> f < 0 then (\<exists>e. r = Inl e) \<and> t = s
      else if length s < h + nat f then r = Inr None \<and> t = s
      else r = Inr (Some (take (nat f) (drop h s))) \<and> t = drop (h + nat f) s) \<longleftrightarrow>
     (let n = be_nat (take 4 s) in
      if length s < 4 then r = Inr None \<and> t = s
      else if n < 4 \<or> max_frame < n then (\<exists>e. r = Inl e) \<and> t = s
      else if length s < n then r = Inr None \<and> t = s
      else r = Inr (Some (drop 4 (take n s))) \<and> t = drop n s)" for r :: "io_error + buf option" and s t :: buf
  proof (cases "be_nat (take 4 s) < 4")
    case False
    then obtain m where m: "be_nat (take 4 s) = 4 + m" using le_Suc_ex by (metis not_less)
    show ?thesis by (simp add: Let_def m drop_take disj_commute)
  qed (simp add: Let_def)
  have "codec_ok pend g \<longleftrightarrow>
      delimits \<lparr>length_field_offset = 0, length_field_length = 4, length_adjustment = -4\<rparr> pend g"
    using codec_of_Some [of CMPP48] by (auto simp: codec_ok_def codec_of_Some)
  also have "\<dots> \<longleftrightarrow> ?law"
    unfolding delimits_def length_codec.simps step ..
  finally show ?thesis .
qed

text \<open>A codec that keeps nothing.\<close>

definition demo_codec :: "unit codec" where
  "demo_codec c s = (let n = be_nat (take 4 s) in
     if length s < 4 then (Inr None, c, s)
     else if n < 4 \<or> max_frame < n then (Inl Other, c, s)
     else if length s < n then (Inr None, c, s)
     else (Inr (Some (drop 4 (take n s))), c, drop n s))"

lemma demo_codec_ok: "codec_ok (\<lambda>_. []) demo_codec"
  by (auto simp: codec_ok_iff demo_codec_def Let_def)

subsection \<open>Reading a stream\<close>

text \<open>
  \<open>reads c b chunks js\<close>: with the codec at \<open>c\<close>, \<open>b\<close> received and \<open>chunks\<close> still to come, the connection
  reads \<open>js\<close>; it ends at the first error or panic, and otherwise waits for more.
\<close>

inductive reads :: "protocol \<Rightarrow> ext \<Rightarrow> 'c codec \<Rightarrow> 'c \<Rightarrow> buf \<Rightarrow> buf list \<Rightarrow> json res list \<Rightarrow> bool" for p x g where
  message: "decode p x g c b = (Ok (Some j), c', b') \<Longrightarrow> reads p x g c' b' chunks js \<Longrightarrow> reads p x g c b chunks (Ok j # js)"
| more: "decode p x g c b = (Ok None, c', b') \<Longrightarrow> reads p x g c' (b' @ chunk) chunks js \<Longrightarrow> reads p x g c b (chunk # chunks) js"
| wait: "decode p x g c b = (Ok None, c', b') \<Longrightarrow> reads p x g c b [] []"
| error: "decode p x g c b = (Err e, c', b') \<Longrightarrow> reads p x g c b chunks [Err e]"
| panic: "decode p x g c b = (None, c', b') \<Longrightarrow> reads p x g c b chunks [None]"

lemma reads_message:
  "decode p x g c b = (Ok (Some j), c', b') \<Longrightarrow>
   reads p x g c b chunks js \<longleftrightarrow> (\<exists>js'. js = Ok j # js' \<and> reads p x g c' b' chunks js')"
  by (auto elim: reads.cases intro: reads.intros)

lemma reads_more:
  "decode p x g c b = (Ok None, c', b') \<Longrightarrow> reads p x g c b (chunk # chunks) js \<longleftrightarrow> reads p x g c' (b' @ chunk) chunks js"
  by (auto elim: reads.cases intro: reads.intros)

lemma reads_wait: "decode p x g c b = (Ok None, c', b') \<Longrightarrow> reads p x g c b [] js \<longleftrightarrow> js = []"
  by (auto elim: reads.cases intro: reads.intros)

lemma reads_panic: "decode p x g c b = (None, c', b') \<Longrightarrow> reads p x g c b chunks js \<longleftrightarrow> js = [None]"
  by (auto elim: reads.cases intro: reads.intros)

text \<open>One call of the decoder, by what is there: a whole unit, part of one, or a wrong length.\<close>

lemma codec_call:
  assumes "codec_ok pend g" and "g c b = (q, c', b')" and "pend c @ b = s" and "n = be_nat (take 4 s)"
  shows "if length s < 4 then q = Inr None \<and> pend c' @ b' = s
    else if n < 4 \<or> max_frame < n then (\<exists>e. q = Inl e) \<and> pend c' @ b' = s
    else if length s < n then q = Inr None \<and> pend c' @ b' = s
    else q = Inr (Some (drop 4 (take n s))) \<and> pend c' @ b' = drop n s"
proof -
  have "case g c b of (r, c', b') \<Rightarrow>
     let s = pend c @ b; n = be_nat (take 4 s) in
     if length s < 4 then r = Inr None \<and> pend c' @ b' = s
     else if n < 4 \<or> max_frame < n then (\<exists>e. r = Inl e) \<and> pend c' @ b' = s
     else if length s < n then r = Inr None \<and> pend c' @ b' = s
     else r = Inr (Some (drop 4 (take n s))) \<and> pend c' @ b' = drop n s"
    using assms(1) unfolding codec_ok_iff by (elim allE)
  then show ?thesis unfolding assms(2-4) Let_def prod.case .
qed

lemma decode_unit:
  assumes "codec_ok pend g" and "p \<noteq> NoProtocol" and "pend c @ b = u @ r" and "pdu_ok u" and "length u \<le> max_frame"
  shows "\<exists>c' b'. decode p x g c b = (map_option (map_sum id Some) (decode_frame p x (drop 4 u)), c', b') \<and> pend c' @ b' = r"
proof -
  obtain q c' b' where g: "g c b = (q, c', b')" by (metis surj_pair)
  have n: "length u = be_nat (take 4 (u @ r))" and l: "4 \<le> length u" using assms(4) by (simp_all add: pdu_ok_def)
  have "q = Inr (Some (drop 4 u)) \<and> pend c' @ b' = r"
    using codec_call [OF assms(1) g assms(3) n] l assms(5) by simp
  then show ?thesis using assms(2) g by (simp add: decode_def decode_read_msg_def)
qed

lemma decode_part:
  assumes "codec_ok pend g" and "p \<noteq> NoProtocol" and "pend c @ b = s" and "pdu_ok u" and "u = s @ t" and "t \<noteq> []"
    and "length u \<le> max_frame"
  shows "\<exists>c' b'. decode p x g c b = (Ok None, c', b') \<and> pend c' @ b' = s"
proof -
  obtain q c' b' where g: "g c b = (q, c', b')" by (metis surj_pair)
  have "4 \<le> length s \<longrightarrow> be_nat (take 4 s) = length u" "length s < length u" "4 \<le> length u"
    using assms(4-6) by (auto simp: pdu_ok_def)
  then have "q = Inr None \<and> pend c' @ b' = s"
    using codec_call [OF assms(1) g assms(3) refl] assms(7) by (auto split: if_splits)
  then show ?thesis using assms(2) g by (simp add: decode_def decode_read_msg_def)
qed

subsection \<open>Any cut of a stream\<close>

lemma split_frames_units: "split_frames b = Some ps \<Longrightarrow> b = concat ps \<and> (\<forall>u \<in> set ps. pdu_ok u)"
proof (induction b arbitrary: ps rule: split_frames.induct)
  case (1 b)
  show ?case
  proof (cases "b = []")
    case False
    let ?n = "be_nat (take 4 b)"
    obtain qs where q: "split_frames (drop ?n b) = Some qs" "ps = take ?n b # qs" and ok: "\<not> (length b < 4 \<or> ?n < 4 \<or> length b < ?n)"
      using 1(2) False by (auto simp: split_frames.simps [of b] Let_def split: if_splits)
    have "pdu_ok (take ?n b)" using ok by (simp add: pdu_ok_def min_def)
    with 1(1) [OF False refl ok q(1)] q(2) show ?thesis by (metis append_take_drop_id concat.simps(2) set_ConsD)
  qed (use 1 in simp)
qed

lemma reads_units:
  assumes "codec_ok pend g" and "p \<noteq> NoProtocol"
  shows "pend c @ b @ concat chunks = concat us \<Longrightarrow>
    list_all (\<lambda>u. pdu_ok u \<and> length u \<le> max_frame \<and> (\<exists>j. decode_frame p x (drop 4 u) = Ok j)) us \<Longrightarrow>
    reads p x g c b chunks js \<longleftrightarrow> js = map (\<lambda>u. decode_frame p x (drop 4 u)) us"
proof (induction "length us + length chunks" arbitrary: c b chunks us js rule: less_induct)
  case less
  show ?case
  proof (cases us)
    case Nil
    then have e: "pend c @ b = []" "concat chunks = []" using less.prems(1) by auto
    obtain q c' b' where g: "g c b = (q, c', b')" by (metis surj_pair)
    have "q = Inr None \<and> pend c' @ b' = []" using codec_call [OF assms(1) g e(1) refl] by simp
    then have d: "decode p x g c b = (Ok None, c', b')" and n: "pend c' @ b' = []"
      using assms(2) g by (simp_all add: decode_def decode_read_msg_def)
    show ?thesis
    proof (cases chunks)
      case Nil
      with \<open>us = []\<close> d show ?thesis by (simp add: reads_wait)
    next
      case (Cons chunk rest)
      with less.hyps [of us rest c' "b' @ chunk" js] less.prems e n \<open>us = []\<close> d show ?thesis by (simp add: reads_more)
    qed
  next
    case (Cons u rest)
    then have u: "pdu_ok u" "length u \<le> max_frame" and j: "\<exists>j. decode_frame p x (drop 4 u) = Ok j"
      using less.prems(2) by auto
    show ?thesis
    proof (cases "length u \<le> length (pend c @ b)")
      case True
      obtain r where r: "pend c @ b = u @ r" "r @ concat chunks = concat rest"
        using append_eq_append_conv2 [THEN iffD1, of "pend c @ b" "concat chunks" u "concat rest"] less.prems(1) Cons True by auto
      obtain j c' b' where d: "decode p x g c b = (Ok (Some j), c', b')" "pend c' @ b' = r" "decode_frame p x (drop 4 u) = Ok j"
        using decode_unit [OF assms r(1) u, of x] j by auto
      show ?thesis
        using less.hyps [of rest chunks c' b'] less.prems(2) Cons r(2) d by (simp add: reads_message flip: append_assoc)
    next
      case False
      have "(pend c @ b) @ concat chunks = u @ concat rest" using less.prems(1) Cons by simp
      from append_eq_append_conv2 [THEN iffD1, OF this] obtain t
        where t: "u = (pend c @ b) @ t" "concat chunks = t @ concat rest"
        using False by (auto dest: arg_cong [of _ _ length])
      with False have ne: "t \<noteq> []" by auto
      with t obtain chunk more where ch: "chunks = chunk # more" by (cases chunks) auto
      obtain c' b' where d: "decode p x g c b = (Ok None, c', b')" "pend c' @ b' = pend c @ b"
        using decode_part [OF assms refl u(1) t(1) ne u(2)] by blast
      show ?thesis
        using less.hyps [of us more c' "b' @ chunk" js] less.prems Cons ch d by (simp add: reads_more flip: append_assoc)
    qed
  qed
qed

text \<open>C7: the messages arrive as they were sent, however the network cuts the stream. If the bytes of a
  stream are units and every unit decodes, a connection that receives them in chunks of any sizes - a
  byte, half a unit, many units at once, nothing - reads the messages of the units, each once and in
  order, and waits for more.\<close>

theorem stream_reassembled:
  assumes "codec_ok pend g" and "pend c = []" and "p \<noteq> NoProtocol"
    and "split_frames out = Some us" and "list_all (\<lambda>u. length u \<le> max_frame) us"
    and "map (\<lambda>u. decode_frame p x (drop 4 u)) us = map Ok msgs" and "concat chunks = out"
  shows "reads p x g c [] chunks js \<longleftrightarrow> js = map Ok msgs"
proof -
  have "\<exists>j. decode_frame p x (drop 4 u) = Ok j" if "u \<in> set us" for u
    using assms(6) that by (metis (no_types, lifting) imageE image_eqI image_set)
  then have "list_all (\<lambda>u. pdu_ok u \<and> length u \<le> max_frame \<and> (\<exists>j. decode_frame p x (drop 4 u) = Ok j)) us"
    using assms(5) split_frames_units [OF assms(4)] by (auto simp: list_all_iff)
  from reads_units [OF assms(1,3) _ this] show ?thesis
    using assms(2,6,7) split_frames_units [OF assms(4)] by simp
qed

lemma stream_reassembled_witness:
  "\<exists>out json' w' j. encode_message CMPP48 demo_ext (demo_json ''Terminate'') demo_world = Some (Inr out, json', w') \<and>
     reads CMPP48 demo_ext demo_codec () [] [take 5 out, [], drop 5 out] [Ok j] \<and> of_type ''Terminate'' j"
proof -
  obtain seq :: u32 and json' w' where e: "encode_message CMPP48 demo_ext (demo_json ''Terminate'') demo_world = Some (Inr
      (be_bytes 4 (unat (12 :: u32)) @ be_bytes 4 (unat (get_type_id CMPP48 Terminate)) @ be_bytes 4 (unat seq)), json', w')"
    by (simp add: encode_message_def default_encode_terminate_def succeed_def Let_def split_def put_defs)
  let ?out = "be_bytes 4 (unat (12 :: u32)) @ be_bytes 4 (unat (get_type_id CMPP48 Terminate)) @ be_bytes 4 (unat seq)"
  let ?j = "setk (msg_header seq (get_type_id CMPP48 Terminate)) MSG_TYPE_STR (JStr ''Terminate'')"
  have d: "decode_frame CMPP48 demo_ext (drop 4 ?out) = Ok ?j"
    using get_u32_put [of seq "[]"]
    by (simp add: decode_frame_def type_back default_decode_nobody_def Let_def del: get_type_id.simps get_type_enum.simps)
  have p: "pdu_ok ?out" unfolding pdu_ok_append by simp
  then have "reads CMPP48 demo_ext demo_codec () [] [take 5 ?out, [], drop 5 ?out] [Ok ?j]"
    using stream_reassembled [OF demo_codec_ok refl _ split_frames_single [OF p], where p = CMPP48 and x = demo_ext and msgs = "[?j]"
        and chunks = "[take 5 ?out, [], drop 5 ?out]" and js = "[Ok ?j]"] d
    by (simp add: max_frame_def del: drop_append take_append)
  with e show ?thesis by (intro exI conjI) (assumption | simp add: of_type_def)+
qed

subsection \<open>The other direction\<close>

text \<open>
  \<open>Encoder::encode\<close> of \<open>protocol/mod.rs\<close>: what is already in the write buffer is replaced, not continued.  The
  connection sends one message at a time and waits until the buffer has been written, so it is empty.
\<close>

definition encode_into :: "buf \<Rightarrow> buf \<Rightarrow> buf res" where
  "encode_into item dst = (let dst = item in Ok dst)"

lemma encode_into_appends: "encode_into item dst = Ok (dst @ item) \<longleftrightarrow> dst = []"
  by (simp add: encode_into_def)

subsection \<open>Streams that are none\<close>

lemma stalled:
  assumes "codec_ok pend g" and "p \<noteq> NoProtocol"
  shows "pend c @ b = s \<Longrightarrow> 4 \<le> length s \<Longrightarrow> be_nat (take 4 s) < 4 \<or> max_frame < be_nat (take 4 s) \<Longrightarrow>
    reads p x g c b chunks js \<longleftrightarrow> js = []"
proof (induction chunks arbitrary: c b s)
  case Nil
  obtain q c' b' where g: "g c b = (q, c', b')" by (metis surj_pair)
  have "\<exists>e. q = Inl e" using codec_call [OF assms(1) g Nil(1) refl] Nil(2,3) by (simp split: if_splits)
  then show ?case using assms(2) g by (auto simp: decode_def decode_read_msg_def reads_wait)
next
  case (Cons chunk chunks)
  obtain q c' b' where g: "g c b = (q, c', b')" by (metis surj_pair)
  have "(\<exists>e. q = Inl e) \<and> pend c' @ b' = s" using codec_call [OF assms(1) g Cons.prems(1) refl] Cons.prems(2,3) by (simp split: if_splits)
  then have d: "decode p x g c b = (Ok None, c', b')" and s: "pend c' @ b' @ chunk = s @ chunk"
    using assms(2) g by (auto simp: decode_def decode_read_msg_def)
  show ?case using Cons.IH [OF s] Cons.prems(2,3) d by (simp add: reads_more)
qed

text \<open>C37: after a wrong length field a connection reads nothing more. The decoder takes the error of the codec
  for nothing to read yet, and what stands in the buffer stays there: whatever the peer sends afterwards, no
  message is read and no error is reported.\<close>

theorem bad_length_stalls:
  assumes "codec_ok pend g" and "p \<noteq> NoProtocol" and "pend c @ b = s"
    and "4 \<le> length s" and "be_nat (take 4 s) < 4 \<or> max_frame < be_nat (take 4 s)"
  shows "reads p x g c b chunks js \<longleftrightarrow> js = []"
  by (rule stalled [OF assms])

lemma bad_length_stalls_witness:
  "reads SMGP demo_ext demo_codec () [0, 0, 0, 3] [[1, 2, 3], [0, 0, 0, 12, 0, 0, 0, 4, 0, 0, 0, 1]] []"
  by (subst bad_length_stalls [OF demo_codec_ok _ refl]) (simp_all add: be_nat_def)

text \<open>A unit too short for the type and the sequence number stops the connection with a panic: the
  decoder takes both without asking whether they are there.\<close>

theorem short_unit_panics:
  assumes "codec_ok pend g" and "p \<noteq> NoProtocol" and "pend c @ b = u @ r" and "pdu_ok u" and "length u < 12"
  shows "reads p x g c b chunks js \<longleftrightarrow> js = [None]"
proof -
  have "decode_frame p x (drop 4 u) = None"
    using assms(5) by (cases "length u < 8") (auto simp: decode_frame_def get_u32_def get_be_def)
  moreover have "length u \<le> max_frame" using assms(5) by (simp add: max_frame_def)
  ultimately obtain c' b' where "decode p x g c b = (None, c', b')"
    using decode_unit [OF assms(1-4), of x] by auto
  then show ?thesis by (rule reads_panic)
qed

lemma short_unit_panics_witness:
  "reads CMPP48 demo_ext demo_codec () [0, 0, 0, 8, 0, 0, 0, 4] [] [None]"
  using short_unit_panics [OF demo_codec_ok, where p = CMPP48 and b = "[0, 0, 0, 8, 0, 0, 0, 4]"
      and u = "[0, 0, 0, 8, 0, 0, 0, 4]" and r = "[]" and js = "[None]"]
  by (simp add: pdu_ok_def be_nat_def)

end
