(* ===== verification/Replies.thy ===== *)
theory Replies
  imports Units
begin

text \<open>
  Logins and answers read back: what one side encodes is what the other finds in the message.
\<close>

subsection \<open>Logins\<close>

definition login_read :: "string \<Rightarrow> u64 \<Rightarrow> u32 \<Rightarrow> u8 \<Rightarrow> json \<Rightarrow> bool" where
  "login_read name auth time version j \<longleftrightarrow> of_type ''Connect'' j \<and> idx j LOGIN_NAME = JStr name \<and>
     as_u64 (idx j AUTHENTICATOR) = Some auth \<and> as_u32 (idx j TIMESTAMP) = Some time \<and>
     as_u32 (idx j VERSION) = Some (ucast version)"

text \<open>Of a digest only the last eight bytes are read.\<close>

definition auth_tail :: "buf \<Rightarrow> u64" where
  "auth_tail auth = of_nat (be_nat (drop 8 auth))"

lemma get_digest:
  assumes "length a = 16"
  shows "\<exists>v. get_u64 (a @ r) = Some (v, drop 8 a @ r)" and "get_u64 (drop 8 a @ r) = Some (auth_tail a, r)"
  using assms by (simp_all add: get_u64_def get_be_def auth_tail_def)

lemma get_u32_end: "get_u32 (be_bytes 4 (unat (v :: u32))) = Some (v, [])"
  using get_u32_put [of v "[]"] by simp

lemma decode_connect_unit:
  assumes "\<exists>j. decode_connect p rest seq (get_type_id p Connect) = Ok j \<and> idx j LOGIN_NAME = JStr name \<and>
    as_u64 (idx j AUTHENTICATOR) = Some auth \<and> as_u32 (idx j TIMESTAMP) = Some time \<and>
    as_u32 (idx j VERSION) = Some (ucast version)" and "p \<noteq> NoProtocol"
  shows "\<exists>j. decode_frame p x (be_bytes 4 (unat (get_type_id p Connect)) @ be_bytes 4 (unat seq) @ rest) = Ok j \<and>
    login_read name auth time version j"
proof -
  have "has_type p Connect" using assms(2) by (cases p) auto
  then show ?thesis using assms
    by (auto simp: decode_frame_def type_back Let_def login_read_def of_type_def)
qed

lemma impl_get_auth_length: "ext_ok x \<Longrightarrow> length (impl_get_auth p x login password t) = 16"
  by (cases p) (simp_all add: ext_ok_def default_get_auth_def smgp_get_auth_def sgip_get_auth_field Let_def)

lemma default_login_unit:
  assumes "default_encode_connect p x json w = Some (Inr out, json', w')" and "ext_ok x"
    and "p \<in> {CMPP48, CMPP32, SMPP}"
    and "as_str (idx json LOGIN_NAME) = Some name" and "as_str (idx json PASSWORD) = Some password"
    and "as_u32 (idx json VERSION) = Some version" and "clean 6 name"
  shows "\<exists>j. decode_frame p x (drop 4 out) = Ok j \<and>
    login_read name (auth_tail (impl_get_auth p x name password (fst (get_time w)))) (fst (get_time w)) (ucast version) j"
proof -
  let ?auth = "impl_get_auth p x name password (fst (get_time w))"
  let ?rest = "as_bytes name @ ?auth @ [ucast version] @ be_bytes 4 (unat (fst (get_time w)))"
  obtain seq where out: "out = be_bytes 4 (unat (39 :: u32)) @ be_bytes 4 (unat (get_type_id p Connect)) @
      be_bytes 4 (unat (seq :: u32)) @ ?rest" and l: "length name = 6"
    using assms(1,4-6) by (auto simp: default_encode_connect_def require_eq_Some write_simps split: if_splits)
  have n: "as_bytes name = field name 6" using l by (simp add: field_def)
  note a = get_digest [OF impl_get_auth_length [OF assms(2)], of p name password "fst (get_time w)"]
  have "decode_connect p = default_decode_connect" using assms(3) by (auto simp: fun_eq_iff)
  then have "\<exists>j. decode_connect p ?rest seq tp = Ok j \<and> idx j LOGIN_NAME = JStr name \<and>
      as_u64 (idx j AUTHENTICATOR) = Some (auth_tail ?auth) \<and> as_u32 (idx j TIMESTAMP) = Some (fst (get_time w)) \<and>
      as_u32 (idx j VERSION) = Some (ucast (ucast version :: u8))" for tp
    using assms(7) a [of "[ucast version] @ be_bytes 4 (unat (fst (get_time w)))"]
    by (auto simp: default_decode_connect_def read_simps get_u32_end n)
  from decode_connect_unit [OF this] show ?thesis using assms(3) by (auto simp: out)
qed

lemma smgp_login_unit:
  assumes "smgp_encode_connect x json w = Some (Inr out, json', w')" and "ext_ok x"
    and "as_str (idx json LOGIN_NAME) = Some name" and "as_str (idx json PASSWORD) = Some password"
    and "as_u8 (idx json VERSION) = Some version" and "clean 8 name"
  shows "\<exists>j. decode_frame SMGP x (drop 4 out) = Ok j \<and>
    login_read name (auth_tail (impl_get_auth SMGP x name password (fst (get_time w)))) (fst (get_time w)) version j"
proof -
  let ?auth = "impl_get_auth SMGP x name password (fst (get_time w))"
  let ?rest = "field name 8 @ ?auth @ [2] @ be_bytes 4 (unat (fst (get_time w))) @ [version]"
  obtain seq where out: "out = be_bytes 4 (unat (42 :: u32)) @ be_bytes 4 (unat (get_type_id SMGP Connect)) @
      be_bytes 4 (unat (seq :: u32)) @ ?rest"
    using assms(1,3-5) by (auto simp: smgp_encode_connect_def require_eq_Some write_simps)
  note a = get_digest [OF impl_get_auth_length [OF assms(2)], of SMGP name password "fst (get_time w)"]
  have "\<exists>j. decode_connect SMGP ?rest seq tp = Ok j \<and> idx j LOGIN_NAME = JStr name \<and>
      as_u64 (idx j AUTHENTICATOR) = Some (auth_tail ?auth) \<and> as_u32 (idx j TIMESTAMP) = Some (fst (get_time w)) \<and>
      as_u32 (idx j VERSION) = Some (ucast version)" for tp
    using assms(6) a [of "[2] @ be_bytes 4 (unat (fst (get_time w))) @ [version]"]
    by (auto simp: smgp_decode_connect_def read_simps)
  from decode_connect_unit [OF this] show ?thesis by (auto simp: out)
qed

lemma as_word_eq_num: "as_word j = Some (v :: 'a::len word) \<Longrightarrow> j = num v"
  by (cases j) (auto simp: as_word.simps take_bit_int_eq_self uint_word_of_int_eq split: if_splits)

lemma as_u8_u32: "as_u8 j = Some v \<Longrightarrow> as_u32 j = Some (ucast v)"
  using as_word_eq_num [of j v] by simp

lemma byte_back: "ucast (ucast (v :: u8) :: u32) = v"
  by transfer simp

text \<open>The width of the field that holds the login name.\<close>

definition name_width :: "protocol \<Rightarrow> nat" where
  "name_width p = (if p = SMGP then 8 else 6)"

lemma login_unit:
  assumes "encode_message p x json w = Some (Inr out, json', w')" and "of_type ''Connect'' json"
    and "p \<noteq> SGIP" and "ext_ok x"
    and "as_str (idx json LOGIN_NAME) = Some name" and "as_str (idx json PASSWORD) = Some password"
    and "as_u8 (idx json VERSION) = Some version" and "clean (name_width p) name"
  shows "\<exists>j. decode_frame p x (drop 4 out) = Ok j \<and>
    login_read name (auth_tail (impl_get_auth p x name password (fst (get_time w)))) (fst (get_time w)) version j"
proof -
  have p: "p \<noteq> NoProtocol" "encode_connect p x json w = Some (Inr out, json', w')"
    using assms(1,2) by (auto simp: encode_message_def of_type_def split: if_splits)
  note d = default_login_unit [OF _ assms(4) _ assms(5,6) as_u8_u32 [OF assms(7)]]
  from p show ?thesis
    using assms(3,8) smgp_login_unit [OF _ assms(4-7)] d [of CMPP48] d [of CMPP32] d [of SMPP]
    by (cases p) (simp_all add: name_width_def byte_back)
qed

subsection \<open>Answers\<close>

definition answer_read :: "string \<Rightarrow> u32 \<Rightarrow> json \<Rightarrow> u32 \<Rightarrow> json \<Rightarrow> bool" where
  "answer_read t seq mid result j \<longleftrightarrow> of_type t j \<and> as_u32 (idx j SEQ_ID) = Some seq \<and> idx j MSG_ID = mid \<and>
     idx j RESULT = num result"

lemma decode_answer:
  assumes "decode_submit_or_deliver_resp p rest seq (get_type_id p t) = Ok j" and "p \<noteq> NoProtocol"
    and "t \<in> {SubmitResp, DeliverResp}"
  shows "decode_frame p x (be_bytes 4 (unat (get_type_id p t)) @ be_bytes 4 (unat seq) @ rest) =
    Ok (setk j MSG_TYPE_STR (JStr (msg_type_to_str t)))"
proof -
  have "has_type p t" using assms(2,3) by (cases p) auto
  then show ?thesis using assms by (auto simp: decode_frame_def type_back Let_def)
qed

lemma decode_answer_unit:
  assumes "\<exists>j. decode_submit_or_deliver_resp p rest seq (get_type_id p t) = Ok j \<and> as_u32 (idx j SEQ_ID) = Some seq' \<and>
    idx j MSG_ID = mid \<and> idx j RESULT = num result" and "p \<noteq> NoProtocol" and "t \<in> {SubmitResp, DeliverResp}"
  shows "\<exists>j. decode_frame p x (be_bytes 4 (unat (get_type_id p t)) @ be_bytes 4 (unat seq) @ rest) = Ok j \<and>
    answer_read (msg_type_to_str t) seq' mid result j"
  using assms(1) by (auto simp: decode_answer [OF _ assms(2,3)] answer_read_def of_type_def)

lemma default_answer_unit:
  assumes "p \<in> {CMPP48, SMPP}" and "t \<in> {SubmitResp, DeliverResp}"
  shows "\<exists>j. decode_frame p x (be_bytes 4 (unat (get_type_id p t)) @ be_bytes 4 (unat seq) @ be_bytes 8 (unat (mid :: u64)) @
      be_bytes 4 (unat result)) = Ok j \<and>
    answer_read (msg_type_to_str t) seq (JStr (cmpp_msg_id_u64_to_str mid)) result j"
proof (rule decode_answer_unit)
  have "decode_submit_or_deliver_resp p = default_decode_submit_or_deliver_resp p" using assms(1) by (auto simp: fun_eq_iff)
  then show "\<exists>j. decode_submit_or_deliver_resp p (be_bytes 8 (unat mid) @ be_bytes 4 (unat result)) seq (get_type_id p t) = Ok j \<and>
      as_u32 (idx j SEQ_ID) = Some seq \<and> idx j MSG_ID = JStr (cmpp_msg_id_u64_to_str mid) \<and> idx j RESULT = num result"
    by (simp add: default_decode_submit_or_deliver_resp_def Let_def read_simps get_u32_end)
qed (use assms in auto)

lemma cmpp32_status_byte: "st \<noteq> StatusUnknown \<Longrightarrow> ucast (ucast (get_status_id CMPP32 st) :: u8) = get_status_id CMPP32 st"
  by (cases st) simp_all

lemma cmpp32_answer_unit:
  assumes "t \<in> {SubmitResp, DeliverResp}" and "st \<noteq> StatusUnknown"
  shows "\<exists>j. decode_frame CMPP32 x (be_bytes 4 (unat (get_type_id CMPP32 t)) @ be_bytes 4 (unat seq) @ be_bytes 8 (unat (mid :: u64)) @
      [ucast (get_status_id CMPP32 st)]) = Ok j \<and>
    answer_read (msg_type_to_str t) seq (JStr (cmpp_msg_id_u64_to_str mid)) (get_status_id CMPP32 st) j"
  by (rule decode_answer_unit)
    (use assms cmpp32_status_byte [OF assms(2)] in \<open>auto simp: cmpp32_decode_submit_or_deliver_resp_def read_simps\<close>)

lemma smgp_answer_unit:
  assumes "length mid = 10"
  shows "\<exists>j. decode_frame SMGP x (be_bytes 4 (unat (get_type_id SMGP SubmitResp)) @ be_bytes 4 (unat seq) @ mid @
      be_bytes 4 (unat result)) = Ok j \<and> answer_read ''SubmitResp'' seq (JStr (smgp_msg_id_buf_to_str mid)) result j"
proof -
  have "\<exists>j. decode_submit_or_deliver_resp SMGP (mid @ be_bytes 4 (unat result)) seq tp = Ok j \<and>
      as_u32 (idx j SEQ_ID) = Some seq \<and> idx j MSG_ID = JStr (smgp_msg_id_buf_to_str mid) \<and> idx j RESULT = num result" for tp
    using assms by (simp add: smgp_decode_submit_or_deliver_resp_def Let_def read_simps get_u32_end)
  from decode_answer_unit [OF this, of SubmitResp] show ?thesis by simp
qed

lemma submit_answer:
  assumes "encode_receipt p st json w = Some (Some out, json', w')" and "p \<noteq> SGIP" and "p = CMPP32 \<longrightarrow> st \<noteq> StatusUnknown"
    and "as_u32 (idx json MSG_TYPE_U32) = Some (get_type_id p Submit)"
  shows "\<exists>seq j. as_u32 (idx json SEQ_ID) = Some seq \<and> decode_frame p x (drop 4 out) = Ok j \<and>
    answer_read ''SubmitResp'' seq (idx json' MSG_ID) (get_status_id p st) j"
proof -
  have p: "p \<noteq> NoProtocol" "has_type p Submit" using assms(1,2) by (cases p; simp add: encode_receipt_def no_reply_def)+
  then have e: "encode_submit_resp p st json w = Some (Some out, json', w')"
    using assms(1,4) by (simp add: encode_receipt_def type_back)
  have t: "msg_type_to_str SubmitResp = ''SubmitResp''" by simp
  show ?thesis
    using e assms(2,3) p default_answer_unit [of p SubmitResp x] cmpp32_answer_unit [of SubmitResp st x] smgp_answer_unit [of _ x]
    by (cases p) (auto simp: default_encode_submit_resp_def cmpp32_encode_submit_resp_def smgp_encode_submit_resp_def
        require_eq_Some bind_eq_Some reply_def no_reply_def split_def Let_def put_defs t split: if_splits)
qed

lemma deliver_answer:
  assumes "encode_receipt p st json w = Some (Some out, json', w')" and "p \<in> {CMPP48, CMPP32, SMPP}"
    and "p = CMPP32 \<longrightarrow> st \<noteq> StatusUnknown"
    and "as_u32 (idx json MSG_TYPE_U32) = Some (get_type_id p Deliver)" and "idx json MSG_ID = JStr (cmpp_msg_id_u64_to_str mid)"
  shows "\<exists>seq j. as_u32 (idx json SEQ_ID) = Some seq \<and> decode_frame p x (drop 4 out) = Ok j \<and>
    answer_read ''DeliverResp'' seq (idx json MSG_ID) (get_status_id p st) j"
proof -
  have "has_type p Deliver" "p \<noteq> NoProtocol" using assms(2) by auto
  then have e: "encode_deliver_resp p st json w = Some (Some out, json', w')"
    using assms(1,4) by (simp add: encode_receipt_def type_back)
  have t: "msg_type_to_str DeliverResp = ''DeliverResp''" by simp
  show ?thesis
    using e assms(2,3,5) default_answer_unit [of p DeliverResp x] cmpp32_answer_unit [of DeliverResp st x]
    by (cases p) (auto simp: default_encode_deliver_resp_def cmpp32_encode_deliver_resp_def cmpp_msg_id_roundtrip
        require_eq_Some bind_eq_Some reply_def no_reply_def split_def Let_def put_defs t split: if_splits)
qed

text \<open>SMGP has no answer to a deliver message of its own: the common one is too short for its decoder.\<close>

lemma smgp_deliver_answer:
  assumes "encode_receipt SMGP st json w = Some (Some out, json', w')"
    and "as_u32 (idx json MSG_TYPE_U32) = Some (get_type_id SMGP Deliver)"
  shows "length out = 24 \<and> decode_frame SMGP x (drop 4 out) = None"
proof -
  have "default_encode_deliver_resp SMGP st json w = Some (Some out, json', w')"
    using assms by (simp add: encode_receipt_def type_back del: get_type_id.simps get_type_enum.simps)
  then obtain seq mid where out: "out = be_bytes 4 (unat (24 :: u32)) @ be_bytes 4 (unat (get_type_id SMGP DeliverResp)) @
      be_bytes 4 (unat (seq :: u32)) @ be_bytes 8 (unat (mid :: u64)) @ be_bytes 4 (unat (get_status_id SMGP st))"
    by (auto simp: default_encode_deliver_resp_def require_eq_Some bind_eq_Some reply_def no_reply_def split_def Let_def put_defs)
  have "smgp_decode_submit_or_deliver_resp (be_bytes 8 (unat mid) @ be_bytes 4 (unat (get_status_id SMGP st))) s tp = None" for s tp
    by (simp add: smgp_decode_submit_or_deliver_resp_def split_to_def Let_def)
  then show ?thesis
    by (simp add: out decode_frame_def type_back Let_def del: get_type_id.simps get_type_enum.simps)
qed

text \<open>A SGIP answer takes its sequence number from the text of the id, which has lost half of it.\<close>

lemma sgip_submit_answer:
  assumes "encode_receipt SGIP st json w = Some (Some out, json', w')"
    and "as_u32 (idx json MSG_TYPE_U32) = Some (get_type_id SGIP Submit)" and "idx json MSG_ID = JStr (sgip_msg_id_u64_to_str node sq)"
  shows "\<exists>s j. decode_frame SGIP x (drop 4 out) = Ok j \<and> of_type ''SubmitResp'' j \<and> as_u64 (idx j SEQ_ID) = Some s \<and>
    take_bit 32 s = take_bit 16 sq"
proof -
  have e: "sgip_encode_submit_resp st json w = Some (Some out, json', w')"
    using assms(1,2) by (simp add: encode_receipt_def type_back del: get_type_id.simps get_type_enum.simps)
  obtain s where s: "sgip_msg_id_str_to_u64 (sgip_msg_id_u64_to_str node sq) = Some (node, s)" "take_bit 32 s = take_bit 16 sq"
    using sgip_msg_id_roundtrip by blast
  then have out: "out = be_bytes 4 (unat (29 :: u32)) @ be_bytes 4 (unat (get_type_id SGIP SubmitResp)) @
      be_bytes 4 (unat node) @ be_bytes 8 (unat s) @ [ucast (get_status_id SGIP st)] @ zeros 8"
    using e assms(3) by (auto simp: sgip_encode_submit_resp_def reply_def Let_def put_defs)
  have "\<exists>j. sgip_decode_submit_or_deliver_resp (be_bytes 8 (unat s) @ [ucast (get_status_id SGIP st)] @ zeros 8) node tp = Ok j \<and>
      as_u64 (idx j SEQ_ID) = Some s" for tp
    by (simp add: sgip_decode_submit_or_deliver_resp_def sgip_header_def Let_def read_simps)
  then obtain j where "decode_submit_or_deliver_resp SGIP (be_bytes 8 (unat s) @ [ucast (get_status_id SGIP st)] @ zeros 8) node
      (get_type_id SGIP SubmitResp) = Ok j" and j: "as_u64 (idx j SEQ_ID) = Some s"
    by auto
  from decode_answer [OF this(1), of x] have "decode_frame SGIP x (drop 4 out) = Ok (setk j MSG_TYPE_STR (JStr ''SubmitResp''))"
    by (simp add: out)
  with s(2) j show ?thesis by (auto simp: of_type_def)
qed

subsection \<open>Status reports\<close>

text \<open>The id of the message reported is read into another field than that of the report, except in CMPP 2.0.\<close>

definition report_read :: "json \<Rightarrow> string \<Rightarrow> json \<Rightarrow> bool" where
  "report_read json mid j \<longleftrightarrow> of_type ''Report'' j \<and> as_bool (idx j WAIT_RECEIPT) = None \<and>
     (\<forall>k \<in> {SRC_ID, DEST_ID, STATE, SUBMIT_TIME, DONE_TIME}. idx j k = idx json k) \<and>
     (idx j PASSAGE_MSG_ID = JStr mid \<or> idx j PASSAGE_MSG_ID = JNull \<and> idx j MSG_ID = JStr mid)"

text \<open>What a report needs: its texts, short enough to be read back.\<close>

definition report_clean :: "nat \<Rightarrow> json \<Rightarrow> bool" where
  "report_clean n json \<longleftrightarrow>
     (\<forall>(k, l) \<in> {(SRC_ID, n), (DEST_ID, 21), (STATE, 7), (SUBMIT_TIME, 10), (DONE_TIME, 10)}.
        clean l (str_or_empty (idx json k)))"

lemma decode_report_unit:
  assumes "\<exists>j. decode_deliver p x rest seq (get_type_id p Deliver) = Ok j \<and> idx j IS_REPORT = JBool True \<and> idx j WAIT_RECEIPT = JNull \<and>
      (\<forall>k \<in> {SRC_ID, DEST_ID, STATE, SUBMIT_TIME, DONE_TIME}. idx j k = idx json k) \<and>
      (idx j PASSAGE_MSG_ID = JStr mid \<or> idx j PASSAGE_MSG_ID = JNull \<and> idx j MSG_ID = JStr mid)"
    and "p \<noteq> NoProtocol"
  shows "\<exists>j. decode_frame p x (be_bytes 4 (unat (get_type_id p Deliver)) @ be_bytes 4 (unat seq) @ rest) = Ok j \<and>
    report_read json mid j"
proof -
  have "has_type p Deliver" using assms(2) by (cases p) auto
  then show ?thesis using assms
    by (auto simp: decode_frame_def type_back Let_def report_read_def of_type_def)
qed

lemma as_str_eq: "as_str j = Some s \<longleftrightarrow> j = JStr s"
  by (cases j) auto

lemma default_report_unit:
  assumes "default_encode_report p json w = Some (Inr out, json', w')" and "p \<in> {CMPP48, SMPP}"
    and "idx json MSG_ID = JStr (cmpp_msg_id_u64_to_str mid)" and "report_clean 32 json"
  shows "\<exists>j. decode_frame p x (drop 4 out) = Ok j \<and> report_read json (cmpp_msg_id_u64_to_str mid) j"
proof -
  obtain service_id stat submit_time done_time src_id dest_id where f: "idx json SERVICE_ID = JStr service_id"
    "idx json STATE = JStr stat" "idx json SUBMIT_TIME = JStr submit_time" "idx json DONE_TIME = JStr done_time"
    "idx json SRC_ID = JStr src_id" "idx json DEST_ID = JStr dest_id"
    using assms(1,3) by (auto simp: default_encode_report_def cmpp_msg_id_roundtrip require_eq_Some as_str_eq split: if_splits)
  let ?rest = "\<lambda>new smsc. be_bytes 8 (unat (new :: u64)) @ field dest_id 21 @ field service_id 10 @ [0, 0, 0] @ field src_id 32 @ [0, 1, 71] @
     be_bytes 8 (unat mid) @ field stat 7 @ field submit_time 10 @ field done_time 10 @ field src_id 32 @
     be_bytes 4 (unat (smsc :: u32)) @ replicate 20 0"
  obtain seq new smsc where out: "out = be_bytes 4 (unat (180 :: u32)) @ be_bytes 4 (unat (get_type_id p Deliver)) @
      be_bytes 4 (unat (seq :: u32)) @ ?rest new smsc"
    using assms(1,3) f
    by (auto simp: default_encode_report_def cmpp_msg_id_roundtrip require_eq_Some write_simps split: if_splits)
  have c: "clean 32 src_id" "clean 21 dest_id" "clean 7 stat" "clean 10 submit_time" "clean 10 done_time"
    using assms(4) f by (simp_all add: report_clean_def str_or_empty_def)
  have "decode_deliver p = default_decode_deliver p" using assms(2) by (auto simp: fun_eq_iff)
  then have "\<exists>j. decode_deliver p x (?rest new smsc) seq tp = Ok j \<and> idx j IS_REPORT = JBool True \<and> idx j WAIT_RECEIPT = JNull \<and>
      (\<forall>k \<in> {SRC_ID, DEST_ID, STATE, SUBMIT_TIME, DONE_TIME}. idx j k = idx json k) \<and>
      (idx j PASSAGE_MSG_ID = JStr (cmpp_msg_id_u64_to_str mid) \<or>
       idx j PASSAGE_MSG_ID = JNull \<and> idx j MSG_ID = JStr (cmpp_msg_id_u64_to_str mid))" for tp
    using c f by (simp add: default_decode_deliver_def read_simps)
  from decode_report_unit [OF this] show ?thesis using assms(2) by (auto simp: out)
qed

lemma cmpp32_report_unit:
  assumes "cmpp32_encode_report json w = Some (Inr out, json', w')"
    and "idx json MSG_ID = JStr (cmpp_msg_id_u64_to_str mid)" and "report_clean 21 json"
  shows "\<exists>j. decode_frame CMPP32 x (drop 4 out) = Ok j \<and> report_read json (cmpp_msg_id_u64_to_str mid) j"
proof -
  obtain service_id stat submit_time done_time src_id dest_id where f: "idx json SERVICE_ID = JStr service_id"
    "idx json STATE = JStr stat" "idx json SUBMIT_TIME = JStr submit_time" "idx json DONE_TIME = JStr done_time"
    "idx json SRC_ID = JStr src_id" "idx json DEST_ID = JStr dest_id"
    using assms(1,2) by (auto simp: cmpp32_encode_report_def cmpp_msg_id_roundtrip require_eq_Some as_str_eq split: if_splits)
  let ?rest = "\<lambda>new smsc. be_bytes 8 (unat (new :: u64)) @ field dest_id 21 @ field service_id 10 @ [0, 0, 0] @ field src_id 21 @ [1, 60] @
     be_bytes 8 (unat mid) @ field stat 7 @ field submit_time 10 @ field done_time 10 @ field src_id 21 @
     be_bytes 4 (unat (smsc :: u32)) @ replicate 8 0"
  obtain seq new smsc where out: "out = be_bytes 4 (unat (145 :: u32)) @ be_bytes 4 (unat (get_type_id CMPP32 Deliver)) @
      be_bytes 4 (unat (seq :: u32)) @ ?rest new smsc"
    using assms(1,2) f
    by (auto simp: cmpp32_encode_report_def cmpp_msg_id_roundtrip require_eq_Some write_simps split: if_splits)
  have c: "clean 21 src_id" "clean 21 dest_id" "clean 7 stat" "clean 10 submit_time" "clean 10 done_time"
    using assms(3) f by (simp_all add: report_clean_def str_or_empty_def)
  have "\<exists>j. decode_deliver CMPP32 x (?rest new smsc) seq tp = Ok j \<and> idx j IS_REPORT = JBool True \<and> idx j WAIT_RECEIPT = JNull \<and>
      (\<forall>k \<in> {SRC_ID, DEST_ID, STATE, SUBMIT_TIME, DONE_TIME}. idx j k = idx json k) \<and>
      (idx j PASSAGE_MSG_ID = JStr (cmpp_msg_id_u64_to_str mid) \<or>
       idx j PASSAGE_MSG_ID = JNull \<and> idx j MSG_ID = JStr (cmpp_msg_id_u64_to_str mid))" for tp
    using c f by (simp add: cmpp32_decode_deliver_def read_simps)
  from decode_report_unit [OF this] show ?thesis by (auto simp: out)
qed

end
