(* ===== verification/Typed.thy ===== *)
theory Typed
  imports Wire
begin

text \<open>
  What every decoded message has, whatever its bytes: the fields the connection takes for granted when it
  answers a message.
\<close>

subsection \<open>The fields\<close>

text \<open>The text of a message id, where there is one, is long enough to be read.\<close>

definition id_text :: "protocol \<Rightarrow> string \<Rightarrow> bool" where
  "id_text p s \<longleftrightarrow> (if p = SGIP then sgip_msg_id_str_to_u64 s \<noteq> None else \<forall>w. cmpp_msg_id_str_to_u64 s w \<noteq> None)"

definition has_fields :: "protocol \<Rightarrow> json \<Rightarrow> bool" where
  "has_fields p j \<longleftrightarrow>
     (if p = SGIP then (\<exists>s :: u64. idx j SEQ_ID = num s) \<and> (\<exists>n :: u32. idx j SP_ID = num n)
      else \<exists>s :: u32. idx j SEQ_ID = num s) \<and>
     (idx j MSG_ID = JNull \<or> (\<exists>s. idx j MSG_ID = JStr s \<and> id_text p s)) \<and>
     (idx j DEST_IDS = JNull \<or> (\<exists>ds. idx j DEST_IDS = strs ds))"

definition typed :: "protocol \<Rightarrow> json \<Rightarrow> bool" where
  "typed p j \<longleftrightarrow> has_fields p j \<and> (\<exists>t. idx j MSG_TYPE_STR = JStr (msg_type_to_str t)) \<and>
     (\<exists>tp :: u32. idx j MSG_TYPE_U32 = num tp \<and> (get_type_enum p tp = Connect \<longrightarrow> p = SGIP \<or> (\<exists>v :: u8. idx j VERSION = num v)))"

lemma has_fields_setk [simp]:
  "k \<notin> {SEQ_ID, MSG_ID, DEST_IDS, SP_ID} \<Longrightarrow> has_fields p (setk j k v) = has_fields p j"
  "p \<noteq> SGIP \<Longrightarrow> has_fields p (setk j SP_ID v) = has_fields p j"
  "id_text p s \<Longrightarrow> has_fields p j \<Longrightarrow> has_fields p (setk j MSG_ID (JStr s))"
  "has_fields p j \<Longrightarrow> has_fields p (setk j DEST_IDS (strs ds))"
  by (auto simp: has_fields_def)

text \<open>What a decoder gives of a message of the type \<open>tp\<close>.\<close>

definition decoded :: "protocol \<Rightarrow> u32 \<Rightarrow> json \<Rightarrow> bool" where
  "decoded p tp j \<longleftrightarrow> has_fields p j \<and> (idx j MSG_TYPE_U32 = num tp \<or> idx j MSG_TYPE_U32 = num (get_type_id p Report))"

lemma decoded_setk: "decoded p tp (setk j k v) \<longleftrightarrow> has_fields p (setk j k v) \<and>
    (idx (setk j k v) MSG_TYPE_U32 = num tp \<or> idx (setk j k v) MSG_TYPE_U32 = num (get_type_id p Report))"
  by (simp add: decoded_def)

lemma decoded_content:
  assumes "json_of (decode_msg_content x b fmt n json long) = Ok j" and "has_fields p json" and "idx json MSG_TYPE_U32 = num tp"
  shows "decoded p tp j"
proof -
  have "has_fields p j = has_fields p json \<and> idx j MSG_TYPE_U32 = idx json MSG_TYPE_U32"
    using assms(1)
    by (auto simp: decode_msg_content_def bind_eq_Some Let_def split_def json_of_def split: if_splits sum.splits)
  then show ?thesis using assms by (simp add: decoded_def)
qed

subsection \<open>Texts of ids\<close>

lemma id_text_cmpp: "p \<noteq> SGIP \<Longrightarrow> id_text p (cmpp_msg_id_u64_to_str v)"
  by (simp add: id_text_def cmpp_msg_id_roundtrip)

lemma id_text_sgip: "id_text SGIP (sgip_msg_id_u64_to_str node sq)"
  using sgip_msg_id_roundtrip [of node sq] by (auto simp: id_text_def)

lemma split_at_ascii: "ascii s \<Longrightarrow> n \<le> length s \<Longrightarrow> split_at s n = Some (take n s, drop n s)"
  using split_at_append [of "take n s" "drop n s" n] by simp

lemma ascii_drop: "ascii s \<Longrightarrow> ascii (drop n s)"
  by (auto simp: ascii_def dest: in_set_dropD)

lemma id_text_ascii: "ascii s \<Longrightarrow> 17 \<le> length s \<Longrightarrow> p \<noteq> SGIP \<Longrightarrow> id_text p s"
  by (auto simp: id_text_def cmpp_msg_id_str_to_u64_def split_at_ascii ascii_drop Let_def)

lemma smgp_id_text:
  assumes "length b = 10"
  shows "id_text SMGP (smgp_msg_id_buf_to_str b)"
proof -
  have h: "length (fmt_hex 2 (unat (x :: u8))) = 2 \<and> ascii (fmt_hex 2 (unat x))" for x :: u8
    using fmt_hex_digits [of "unat x" 2] unat_bound [of x] ascii_low_digits [of 16 2 "unat x"] by simp
  have "length (smgp_msg_id_buf_to_str b) = 2 * length b \<and> ascii (smgp_msg_id_buf_to_str b)"
    using h by (induction b) (simp_all add: smgp_msg_id_buf_to_str_def)
  then show ?thesis using assms by (intro id_text_ascii) auto
qed

subsection \<open>Every decoder\<close>

lemma header_fields [simp]: "p \<noteq> SGIP \<Longrightarrow> decoded p tp (msg_header seq tp)" "p \<noteq> SGIP \<Longrightarrow> has_fields p (msg_header seq tp)"
  "idx (msg_header seq tp) MSG_TYPE_U32 = num tp"
  by (auto simp: has_fields_def msg_header_def decoded_def)

lemma sgip_header_fields: "sgip_header b node tp = Some (json, r) \<Longrightarrow> has_fields SGIP json \<and>
    idx json MSG_TYPE_U32 = num tp \<and> decoded SGIP tp json"
  by (auto simp: sgip_header_def bind_eq_Some Let_def has_fields_def decoded_def id_text_sgip)

lemmas typed_simps = decoded_setk id_text_cmpp id_text_sgip smgp_id_text bind_eq_Some Let_def split_def split_to_def

lemma default_fields:
  assumes "p \<noteq> SGIP"
  shows "default_decode_deliver p x b seq tp = Ok j \<Longrightarrow> decoded p tp j"
    and "default_decode_submit x b seq tp = Ok j \<Longrightarrow> decoded p tp j"
    and "default_decode_submit_or_deliver_resp p b seq tp = Ok j \<Longrightarrow> decoded p tp j"
    and "default_decode_nobody b seq tp = Ok j \<Longrightarrow> decoded p tp j"
    and "default_decode_connect_resp b seq tp = Ok j \<Longrightarrow> decoded p tp j"
    and "default_decode_connect b seq tp = Ok j \<Longrightarrow> decoded p tp j"
  using assms
  by (auto simp: default_decode_deliver_def default_decode_submit_def default_decode_submit_or_deliver_resp_def
      default_decode_nobody_def default_decode_connect_resp_def default_decode_connect_def typed_simps simp del: get_type_id.simps
      split: if_splits elim!: decoded_content)

lemma cmpp32_fields:
  shows "cmpp32_decode_deliver x b seq tp = Ok j \<Longrightarrow> decoded CMPP32 tp j"
    and "cmpp32_decode_submit x b seq tp = Ok j \<Longrightarrow> decoded CMPP32 tp j"
    and "cmpp32_decode_submit_or_deliver_resp b seq tp = Ok j \<Longrightarrow> decoded CMPP32 tp j"
  by (auto simp: cmpp32_decode_deliver_def cmpp32_decode_submit_def cmpp32_decode_submit_or_deliver_resp_def
      typed_simps simp del: get_type_id.simps split: if_splits elim!: decoded_content)

lemma smgp_fields:
  shows "smgp_decode_deliver x b seq tp = Ok j \<Longrightarrow> decoded SMGP tp j"
    and "smgp_decode_submit x b seq tp = Ok j \<Longrightarrow> decoded SMGP tp j"
    and "smgp_decode_submit_or_deliver_resp b seq tp = Ok j \<Longrightarrow> decoded SMGP tp j"
    and "smgp_decode_connect b seq tp = Ok j \<Longrightarrow> decoded SMGP tp j"
  by (auto simp: smgp_decode_deliver_def smgp_decode_submit_def smgp_decode_submit_or_deliver_resp_def smgp_decode_connect_def
      typed_simps simp del: get_type_id.simps split: if_splits elim!: decoded_content)

lemma sgip_fields:
  shows "sgip_decode_deliver x b seq tp = Ok j \<Longrightarrow> decoded SGIP tp j"
    and "sgip_decode_submit x b seq tp = Ok j \<Longrightarrow> decoded SGIP tp j"
    and "sgip_decode_submit_or_deliver_resp b seq tp = Ok j \<Longrightarrow> decoded SGIP tp j"
    and "sgip_decode_nobody b seq tp = Ok j \<Longrightarrow> decoded SGIP tp j"
    and "sgip_decode_connect_resp b seq tp = Ok j \<Longrightarrow> decoded SGIP tp j"
    and "sgip_decode_connect b seq tp = Ok j \<Longrightarrow> decoded SGIP tp j"
    and "sgip_decode_report_resp b seq tp = Ok j \<Longrightarrow> decoded SGIP tp j"
  by (auto simp: sgip_decode_deliver_def sgip_decode_submit_def sgip_decode_submit_or_deliver_resp_def sgip_decode_nobody_def
      sgip_decode_connect_resp_def sgip_decode_connect_def sgip_decode_report_resp_def
      typed_simps simp del: get_type_id.simps split: if_splits dest!: sgip_header_fields elim!: decoded_content)

lemma sgip_report_fields: "sgip_decode_report b seq tp = Ok j \<Longrightarrow> decoded SGIP tp j"
  by (auto simp: sgip_decode_report_def typed_simps has_fields_def simp del: get_type_id.simps)

lemma connect_version:
  assumes "decode_connect p b seq tp = Ok j" and "p \<notin> {SGIP, NoProtocol}"
  shows "\<exists>v :: u8. idx j VERSION = num v"
proof -
  have u: "uint (ucast (v :: u8) :: u32) = uint v" for v by transfer simp
  show ?thesis using assms
    by (cases p) (auto simp: default_decode_connect_def smgp_decode_connect_def bind_eq_Some Let_def split_def u)
qed

lemma report_type: "p \<noteq> NoProtocol \<Longrightarrow> get_type_enum p (get_type_id p Report) \<noteq> Connect"
  by (simp add: type_back del: get_type_id.simps get_type_enum.simps)

lemmas all_fields = default_fields [of CMPP48, simplified] default_fields [of CMPP32, simplified]
  default_fields [of SMPP, simplified] default_fields [of SMGP, simplified]
  cmpp32_fields smgp_fields sgip_fields sgip_report_fields

lemma body_fields:
  assumes "p \<noteq> NoProtocol"
  shows "decode_submit p x b seq tp = Ok j \<Longrightarrow> decoded p tp j"
    and "decode_submit_or_deliver_resp p b seq tp = Ok j \<Longrightarrow> decoded p tp j"
    and "decode_deliver p x b seq tp = Ok j \<Longrightarrow> decoded p tp j"
    and "decode_nobody p b seq tp = Ok j \<Longrightarrow> decoded p tp j"
    and "decode_connect p b seq tp = Ok j \<Longrightarrow> decoded p tp j"
    and "decode_connect_resp p b seq tp = Ok j \<Longrightarrow> decoded p tp j"
    and "decode_report p b seq tp = Ok j \<Longrightarrow> decoded p tp j"
    and "decode_report_resp p b seq tp = Ok j \<Longrightarrow> decoded p tp j"
  using assms
  by (cases p; auto simp: default_decode_report_def default_decode_report_resp_def dest: all_fields)+

lemma decode_typed:
  assumes "decode_frame p x b = Ok j" and "p \<noteq> NoProtocol"
  shows "typed p j"
proof -
  obtain tp r seq r' where r: "get_u32 b = Some (tp, r)" "get_u32 r = Some (seq, r')"
    using assms(1) by (auto simp: decode_frame_def bind_eq_Some)
  let ?ok = "\<lambda>m. decoded p tp m \<and> (get_type_enum p tp = Connect \<longrightarrow> decode_connect p r' seq tp = Ok m)"
  have body: "decode_frame p x b = Option.bind y (\<lambda>q. case q of Inl e \<Rightarrow> Err e
      | Inr m \<Rightarrow> Ok (setk m MSG_TYPE_STR (JStr (msg_type_to_str (u m))))) \<Longrightarrow> (\<And>m. y = Ok m \<Longrightarrow> ?ok m) \<Longrightarrow>
      \<exists>m t. j = setk m MSG_TYPE_STR (JStr (msg_type_to_str t)) \<and> ?ok m" for y u
    using assms(1) by (cases y) (auto split: sum.splits)
  have "\<exists>m t. j = setk m MSG_TYPE_STR (JStr (msg_type_to_str t)) \<and> ?ok m"
    by (rule body [where u = "\<lambda>m. if get_type_enum p tp = Deliver \<and> as_bool (idx m IS_REPORT) = Some True then Report else get_type_enum p tp"],
        unfold decode_frame_def r Option.bind.simps prod.case Let_def, rule refl)
      (auto split: MsgType.splits dest: body_fields [OF assms(2)])
  then obtain m t where j: "j = setk m MSG_TYPE_STR (JStr (msg_type_to_str t))"
    and m: "decoded p tp m" and c: "get_type_enum p tp = Connect \<Longrightarrow> decode_connect p r' seq tp = Ok m"
    by auto
  have "get_type_enum p tp' = Connect \<longrightarrow> p = SGIP \<or> (\<exists>v :: u8. idx j VERSION = num v)"
    if "idx j MSG_TYPE_U32 = num tp'" for tp'
  proof -
    have "tp' = tp \<or> tp' = get_type_id p Report" using that m j by (auto simp: decoded_def simp flip: word_uint_eq_iff)
    then show ?thesis using report_type [OF assms(2)] connect_version [of p r' seq tp m] c assms(2) j by auto
  qed
  then show ?thesis using m j by (auto simp: typed_def decoded_def)
qed

text \<open>C16: whatever its bytes, a frame that decodes gives a message of known type with the fields an answer
  needs: the number of its type, its sequence number at the width of the protocol, an id - if any - that
  can be read back, numbers that are texts, and for a login a version of eight bits.\<close>

theorem decoded_message_typed:
  assumes "decode_frame p x b = Ok j" and "p \<noteq> NoProtocol"
  shows "typed p j"
  by (rule decode_typed [OF assms])

lemma decoded_message_typed_witness:
  "\<exists>j. decode_frame SGIP demo_ext ([0, 0, 0, 2, 0, 0, 0, 3] @ replicate 8 0) = Ok j \<and> typed SGIP j"
proof -
  have "case decode_frame SGIP demo_ext ([0, 0, 0, 2, 0, 0, 0, 3] @ replicate 8 0) of Some (Inr j) \<Rightarrow> True | _ \<Rightarrow> False"
    by code_simp
  then obtain j where "decode_frame SGIP demo_ext ([0, 0, 0, 2, 0, 0, 0, 3] @ replicate 8 0) = Ok j"
    by (auto split: option.splits sum.splits)
  with decoded_message_typed [OF this] show ?thesis by simp
qed

subsection \<open>Every answer\<close>

lemmas reply_simps = has_fields_def id_text_def reply_def no_reply_def require_def Let_def split_def bind_eq_None_conv

lemma default_answers:
  assumes "has_fields p j" and "p \<noteq> SGIP"
  shows "(idx j VERSION = num (v :: u8) \<Longrightarrow> default_encode_connect_rep q st j w \<noteq> None)"
    and "default_encode_submit_resp q st j w \<noteq> None"
    and "default_encode_deliver_resp q st j w \<noteq> None"
    and "default_encode_report_resp q st j w \<noteq> None"
    and "default_encode_active_test_resp q st j w \<noteq> None"
  using assms
  by (auto simp: reply_simps default_encode_connect_rep_def default_encode_submit_resp_def default_encode_deliver_resp_def
      default_encode_report_resp_def default_encode_active_test_resp_def split: option.splits dest!: spec [of _ w])

lemma cmpp32_answers:
  assumes "has_fields CMPP32 j"
  shows "(idx j VERSION = num (v :: u8) \<Longrightarrow> cmpp32_encode_connect_rep st j w \<noteq> None)"
    and "cmpp32_encode_submit_resp st j w \<noteq> None"
    and "cmpp32_encode_deliver_resp st j w \<noteq> None"
  using assms
  by (auto simp: reply_simps cmpp32_encode_connect_rep_def cmpp32_encode_submit_resp_def cmpp32_encode_deliver_resp_def
      split: option.splits dest!: spec [of _ w])

lemma smgp_answers: "has_fields SMGP j \<Longrightarrow> smgp_encode_submit_resp st j w \<noteq> None"
  by (auto simp: reply_simps smgp_encode_submit_resp_def split: option.splits)

lemma sgip_answers:
  assumes "has_fields SGIP j"
  shows "sgip_encode_connect_rep st j w \<noteq> None"
    and "sgip_encode_submit_resp st j w \<noteq> None"
    and "sgip_encode_deliver_resp st j w \<noteq> None"
    and "sgip_encode_report_resp st j w \<noteq> None"
    and "default_encode_active_test_resp SGIP st j w \<noteq> None"
  using assms
  by (auto simp: reply_simps sgip_encode_connect_rep_def sgip_encode_submit_resp_def sgip_encode_deliver_resp_def
      sgip_encode_report_resp_def default_encode_active_test_resp_def split: option.splits)

lemma typed_answered:
  assumes "typed p j" and "p \<noteq> NoProtocol"
  shows "encode_receipt p st j w \<noteq> None"
proof -
  obtain tp :: u32 where n: "idx j MSG_TYPE_U32 = num tp"
    and v: "get_type_enum p tp = Connect \<Longrightarrow> p = SGIP \<or> (\<exists>v :: u8. idx j VERSION = num v)"
    and f: "has_fields p j" using assms(1) unfolding typed_def by blast
  have tp: "as_u32 (idx j MSG_TYPE_U32) = Some tp" unfolding n by (rule as_word_num)
  have "(case get_type_enum p tp of Connect \<Rightarrow> encode_connect_rep p st j w | Submit \<Rightarrow> encode_submit_resp p st j w
      | Deliver \<Rightarrow> encode_deliver_resp p st j w | Report \<Rightarrow> encode_report_resp p st j w
      | ActiveTest \<Rightarrow> default_encode_active_test_resp p st j w | _ \<Rightarrow> no_reply j w) \<noteq> None"
    using f v assms(2) default_answers [OF f] cmpp32_answers smgp_answers sgip_answers
    by (cases p) (auto simp: no_reply_def split: MsgType.splits)
  then show ?thesis using assms(2) tp by (simp add: encode_receipt_def)
qed

end
