(* ===== verification/Cycle.thy ===== *)
theory Cycle
  imports Pipeline Submitted Framing Replies Typed
begin

text \<open>
  A submit message and its receipts: the units one gateway has written are read by a peer that is the same
  program, each is answered, and the answers bring the account task of the sender back to the customer's
  ids.
\<close>

subsection \<open>The header of a unit\<close>

lemma pdu_sequence:
  assumes "get_u32 (drop 4 u) = Some (tp, r)" and "get_u32 r = Some (seq, r')"
  shows "seq = pdu_u32 8 u"
  using assms by (auto simp: get_u32_def get_be_def pdu_u32_def split: if_splits)

lemma content_keeps:
  assumes "json_of (decode_msg_content x b fmt n json long) = Ok j" and "k \<notin> {LONG_SMS_TOTAL, LONG_SMS_NOW_NUMBER, TP_UDHI, MSG_CONTENT}"
  shows "idx j k = idx json k"
  using assms
  by (auto simp: decode_msg_content_def bind_eq_Some Let_def split_def json_of_def split: if_splits sum.splits)

lemma submit_body_header:
  assumes "p \<in> {CMPP48, CMPP32, SMPP}" and "decode_submit p x b seq tp = Ok j"
  shows "idx j SEQ_ID = num seq" and "idx j MSG_TYPE_U32 = num tp"
  using assms content_keeps [of x _ _ _ _ _ j SEQ_ID] content_keeps [of x _ _ _ _ _ j MSG_TYPE_U32]
  by (auto simp: default_decode_submit_def cmpp32_decode_submit_def bind_eq_Some Let_def split_def msg_header_def)

text \<open>The body a decoded frame has, and the name of its type.\<close>

definition body_of :: "protocol \<Rightarrow> ext \<Rightarrow> u32 \<Rightarrow> buf \<Rightarrow> u32 \<Rightarrow> json res" where
  "body_of p x tp r seq =
     (case get_type_enum p tp of
         Submit \<Rightarrow> decode_submit p x r seq tp
       | DeliverResp \<Rightarrow> decode_submit_or_deliver_resp p r seq tp
       | SubmitResp \<Rightarrow> decode_submit_or_deliver_resp p r seq tp
       | Deliver \<Rightarrow> decode_deliver p x r seq tp
       | ActiveTest \<Rightarrow> decode_nobody p r seq tp
       | ActiveTestResp \<Rightarrow> decode_nobody p r seq tp
       | Connect \<Rightarrow> decode_connect p r seq tp
       | ConnectResp \<Rightarrow> decode_connect_resp p r seq tp
       | Terminate \<Rightarrow> decode_nobody p r seq tp
       | TerminateResp \<Rightarrow> decode_nobody p r seq tp
       | Report \<Rightarrow> decode_report p r seq tp
       | ReportResp \<Rightarrow> decode_report_resp p r seq tp
       | _ \<Rightarrow> Err Other)"

lemma decode_frame_body:
  assumes "decode_frame p x b = Ok j"
  obtains tp r seq r' m t where "get_u32 b = Some (tp, r)" "get_u32 r = Some (seq, r')" "body_of p x tp r' seq = Ok m"
    "j = setk m MSG_TYPE_STR (JStr (msg_type_to_str t))" "t = get_type_enum p tp \<or> t = Report"
proof -
  let ?t = "\<lambda>tp m. if get_type_enum p tp = Deliver \<and> as_bool (idx m IS_REPORT) = Some True then Report else get_type_enum p tp"
  have "decode_frame p x b = do {
      (tp, r) \<leftarrow> get_u32 b; (seq, r') \<leftarrow> get_u32 r; q \<leftarrow> body_of p x tp r' seq;
      case q of Inl e \<Rightarrow> Err e | Inr m \<Rightarrow> Ok (setk m MSG_TYPE_STR (JStr (msg_type_to_str (?t tp m)))) }"
    by (simp only: decode_frame_def body_of_def Let_def)
  with assms obtain tp r seq r' q where "get_u32 b = Some (tp, r)" "get_u32 r = Some (seq, r')" "body_of p x tp r' seq = Some q"
    and q: "(case q of Inl e \<Rightarrow> Err e | Inr m \<Rightarrow> Ok (setk m MSG_TYPE_STR (JStr (msg_type_to_str (?t tp m))))) = Ok j"
    by (auto simp: bind_eq_Some)
  moreover obtain m where "q = Inr m" "j = setk m MSG_TYPE_STR (JStr (msg_type_to_str (?t tp m)))" using q by (cases q) auto
  ultimately have "get_u32 b = Some (tp, r)" "get_u32 r = Some (seq, r')" "body_of p x tp r' seq = Ok m"
    "j = setk m MSG_TYPE_STR (JStr (msg_type_to_str (?t tp m)))" by simp_all
  then show ?thesis by (rule that) simp
qed

lemma decode_frame_of_type:
  assumes "decode_frame p x b = Ok j" and "of_type (msg_type_to_str t) j" and "t \<noteq> Report"
  obtains tp r seq r' m where "get_u32 b = Some (tp, r)" "get_u32 r = Some (seq, r')" "get_type_enum p tp = t"
    "body_of p x tp r' seq = Ok m" "j = setk m MSG_TYPE_STR (JStr (msg_type_to_str t))"
proof -
  obtain tp r seq r' m t' where h: "get_u32 b = Some (tp, r)" "get_u32 r = Some (seq, r')" "body_of p x tp r' seq = Ok m"
    "j = setk m MSG_TYPE_STR (JStr (msg_type_to_str t'))" "t' = get_type_enum p tp \<or> t' = Report"
    using decode_frame_body [OF assms(1)] by blast
  have "msg_type_to_str t' = msg_type_to_str t" using assms(2) h(4) by (simp add: of_type_def)
  then have "t' = t" by (metis msg_type_name_back)
  with h assms(3) that show ?thesis by blast
qed

lemma default_submit_type: "default_type_enum v = Submit \<Longrightarrow> v = 4"
  by (simp add: default_type_enum_def lookup_or_def split: if_splits)

lemma submit_header:
  assumes "p \<in> {CMPP48, CMPP32, SMPP}" and "decode_frame p x (drop 4 u) = Ok j" and "of_type ''Submit'' j"
  shows "idx j SEQ_ID = num (pdu_u32 8 u)" and "idx j MSG_TYPE_U32 = num (get_type_id p Submit)"
proof -
  obtain tp r seq r' m where h: "get_u32 (drop 4 u) = Some (tp, r)" "get_u32 r = Some (seq, r')"
    and t: "get_type_enum p tp = Submit" and m: "body_of p x tp r' seq = Ok m" "j = setk m MSG_TYPE_STR (JStr (msg_type_to_str Submit))"
    by (rule decode_frame_of_type [OF assms(2), of Submit]) (use assms(3) in simp_all)
  have "decode_submit p x r' seq tp = Ok m" using m(1) t by (simp add: body_of_def)
  moreover have "tp = get_type_id p Submit"
    using t assms(1) by (auto dest: default_submit_type)
  ultimately show "idx j SEQ_ID = num (pdu_u32 8 u)" "idx j MSG_TYPE_U32 = num (get_type_id p Submit)"
    using submit_body_header [OF assms(1)] pdu_sequence [OF h] m(2) by simp_all
qed

subsection \<open>The answer\<close>

text \<open>What the connection of a peer does with a unit it accepts: the message, the answer it writes, and the id
  it goes on with.\<close>

definition answered :: "protocol \<Rightarrow> ext \<Rightarrow> world \<Rightarrow> buf \<Rightarrow> (json \<times> buf \<times> json) option" where
  "answered p x w u =
     (case decode_frame p x (drop 4 u) of
        Some (Inr j) \<Rightarrow>
          (case encode_receipt p Success j w of
             Some (Some out, j', _) \<Rightarrow> Some (j, out, idx j' MSG_ID)
           | _ \<Rightarrow> None)
      | _ \<Rightarrow> None)"

lemma no_speed_limit:
  assumes "p \<in> {CMPP48, CMPP32, SMPP}" and "decode_frame p x b = Ok r" and "answer_read ''SubmitResp'' seq mid (get_status_id p Success) r"
  shows "submit_receipt seq r"
proof -
  obtain tp r1 sq r2 m where t: "get_type_enum p tp = SubmitResp" and m: "body_of p x tp r2 sq = Ok m"
    "r = setk m MSG_TYPE_STR (JStr (msg_type_to_str SubmitResp))"
    by (rule decode_frame_of_type [OF assms(2), of SubmitResp]) (use assms(3) in \<open>simp_all add: answer_read_def\<close>)
  have d: "decode_submit_or_deliver_resp p r2 sq tp = Ok m" using m(1) t by (simp add: body_of_def)
  have res: "idx m RESULT = num (get_status_id p Success)" using assms(3) m(2) by (simp add: answer_read_def)
  have "idx m SPEED_LIMIT = JNull \<and> idx m SEQ_ID = num sq"
    using d res assms(1)
    by (auto simp: default_decode_submit_or_deliver_resp_def cmpp32_decode_submit_or_deliver_resp_def bind_eq_Some Let_def
        msg_header_def split: if_splits simp flip: word_uint_eq_iff)
  moreover have "sq = seq" using calculation assms(3) m(2) by (simp add: answer_read_def as_word_num)
  ultimately show ?thesis using assms(3) m(2) by (simp add: submit_receipt_def answer_read_def of_type_def)
qed

lemma unit_answered:
  assumes "p \<in> {CMPP48, CMPP32, SMPP}" and "decode_frame p x (drop 4 u) = Ok j" and "submit_read n i t src (ids_read p ds) fmt j"
  shows "\<exists>a mid r. answered p x w u = Some (j, a, mid) \<and> decode_frame p x (drop 4 a) = Ok r \<and>
    submit_receipt (pdu_u32 8 u) r \<and> idx r MSG_ID = mid"
proof -
  have ty: "of_type ''Submit'' j" "idx j DEST_IDS = strs ds"
    using assms(1,3) by (auto simp: submit_read_def ids_read_def)
  note h = submit_header [OF assms(1,2) ty(1)]
  have n: "as_u32 (idx j SEQ_ID) = Some (pdu_u32 8 u)" "as_u32 (idx j MSG_TYPE_U32) = Some (get_type_id p Submit)"
    unfolding h by (rule as_word_num)+
  have "\<exists>a j' w'. encode_receipt p Success j w = Some (Some a, j', w')"
    using assms(1) n ty(2)
    by (auto simp: encode_receipt_def type_back default_encode_submit_resp_def cmpp32_encode_submit_resp_def reply_def Let_def split_def
        simp del: get_type_id.simps get_type_enum.simps)
  then obtain a j' w' where e: "encode_receipt p Success j w = Some (Some a, j', w')" by blast
  obtain r where r: "decode_frame p x (drop 4 a) = Ok r" "answer_read ''SubmitResp'' (pdu_u32 8 u) (idx j' MSG_ID) (get_status_id p Success) r"
    using submit_answer [OF e _ _ n(2), of x] assms(1) n(1) by auto
  have "answered p x w u = Some (j, a, idx j' MSG_ID)" using assms(2) e by (simp add: answered_def)
  then show ?thesis using r no_speed_limit [OF assms(1) r] by (auto simp: answer_read_def)
qed

subsection \<open>The whole way\<close>

lemma receipts_answered:
  assumes "sent_submit (map (pdu_u32 8) us) msg_ids v"
    and "\<forall>i < length us. submit_receipt (pdu_u32 8 (us ! i)) (rs i) \<and> idx (rs i) MSG_ID = mids i"
    and "distinct order" and "set order = {..<length us}"
  shows "\<exists>ctx'. receive_all m ((t0, v) # map (\<lambda>i. (t i, rs i)) order) save ctx = Some (save, ctx') \<and>
    receipts (to_queue ctx') = receipts (to_queue ctx) @ map (\<lambda>i. (JStr (msg_ids ! i), mids i)) order \<and>
    (\<forall>u \<in> set us. map_of (wait_receipt_map ctx') (ucast (pdu_u32 8 u)) = None)"
proof -
  have l: "list_all (\<lambda>i. submit_receipt (map (pdu_u32 8) us ! i) (rs i)) order"
    using assms(2,4) by (auto simp: list_all_iff)
  obtain ctx' where c': "receive_all m ((t0, v) # map (\<lambda>i. (t i, rs i)) order) save ctx = Some (save, ctx')"
    "receipts (to_queue ctx') = receipts (to_queue ctx) @ map (\<lambda>i. (JStr (msg_ids ! i), idx (rs i) MSG_ID)) order"
    "\<forall>i < length us. map_of (wait_receipt_map ctx') (ucast (map (pdu_u32 8) us ! i)) = None \<longleftrightarrow> i \<in> set order"
    using receipts_matched [OF assms(1) l assms(3), of m t0 t save ctx] assms(4) by auto
  have "map (\<lambda>i. (JStr (msg_ids ! i), idx (rs i) MSG_ID)) order = map (\<lambda>i. (JStr (msg_ids ! i), mids i)) order"
    using assms(2,4) by auto
  moreover have "\<forall>u \<in> set us. map_of (wait_receipt_map ctx') (ucast (pdu_u32 8 u)) = None"
    using c'(3) assms(4) by (auto simp: in_set_conv_nth)
  ultimately show ?thesis using c'(1,2) by auto
qed

lemma choice_list:
  assumes "\<forall>i < n. \<exists>a b c d. P i a b c d"
  shows "\<exists>as bs cs ds. \<forall>i < n. P i (as i) (bs i) (cs i) (ds i)"
  using assms by metis

text \<open>
  The units \<open>us\<close> of a message, filed by its account as \<open>v\<close>, come back as receipts: whatever the state of the
  peer that reads each of them, it reads part \<open>i\<close> of the text from unit \<open>i\<close> and answers it under an id of its
  own; the account, given the message and then the answers in any order, publishes for each the
  customer's id of the part with the id of the peer.
\<close>

definition comes_back ::
    "'q mpsc \<Rightarrow> protocol \<Rightarrow> ext \<Rightarrow> string list \<Rightarrow> string \<Rightarrow> string list \<Rightarrow> u8 \<Rightarrow> string list \<Rightarrow> json \<Rightarrow> buf list \<Rightarrow> bool" where
  "comes_back m p x ts src ds fmt msg_ids v us \<longleftrightarrow> (\<forall>ws. \<exists>js as mids rs.
     (\<forall>i < length us. answered p x (ws i) (us ! i) = Some (js i, as i, mids i) \<and>
        submit_read (length us) i (ts ! i) src (strs ds) fmt (js i) \<and> decode_frame p x (drop 4 (as i)) = Ok (rs i)) \<and>
     (\<forall>order t0 t save (ctx :: 'q run_context). distinct order \<and> set order = {..<length us} \<longrightarrow>
        (\<exists>ctx'. receive_all m ((t0, v) # map (\<lambda>i. (t i, rs i)) order) save ctx = Some (save, ctx') \<and>
          receipts (to_queue ctx') = receipts (to_queue ctx) @ map (\<lambda>i. (JStr (msg_ids ! i), mids i)) order \<and>
          (\<forall>u \<in> set us. map_of (wait_receipt_map ctx') (ucast (pdu_u32 8 u)) = None))))"

text \<open>The hypotheses on a message \<open>v\<close> beside \<open>sendable\<close>: its text is cut between characters, its numbers fit.\<close>

definition readable :: "protocol \<Rightarrow> ext \<Rightarrow> buf \<Rightarrow> string list \<Rightarrow> string list \<Rightarrow> json \<Rightarrow> bool" where
  "readable p x code ts ds v \<longleftrightarrow>
     pieces x (msg_fmt_of v) code ts \<and> unwrap_strs (members (idx v DEST_IDS)) = Some ds \<and> length ds < 256 \<and>
     clean 21 (str_or_empty (idx v SRC_ID)) \<and> list_all (clean (dest_width p)) ds"

lemma written_comes_back:
  assumes "encode_message p x v w = Some (Inr out, json, w')" and "split_frames out = Some us" and "length us = seg_count (length code)"
    and "sent_submit (map (pdu_u32 8) us) msg_ids (setk json WAIT_RECEIPT (JBool True))"
    and "sendable p x left code msg_ids v" and "p \<in> {CMPP48, CMPP32, SMPP}" and "readable p x code ts ds v"
  shows "comes_back m p x ts (str_or_empty (idx v SRC_ID)) ds (msg_fmt_of v) msg_ids (setk json WAIT_RECEIPT (JBool True)) us"
proof -
  have v: "of_type ''Submit'' v" "content_code x v = Some code" "length code < 2 ^ 24"
    using assms(5) by (simp_all add: sendable_def submit_ready_def)
  have r: "pieces x (msg_fmt_of v) code ts" "unwrap_strs (members (idx v DEST_IDS)) = Some ds" "length ds < 256"
    "clean 21 (str_or_empty (idx v SRC_ID))" "list_all (clean (dest_width p)) ds"
    using assms(7) by (simp_all add: readable_def)
  have ids: "ids_read p ds = strs ds" using assms(6) by (auto simp: ids_read_def)
  let ?v = "setk json WAIT_RECEIPT (JBool True)" and ?n = "length us" and ?src = "str_or_empty (idx v SRC_ID)"
  from row_split [OF encode_submit_row [OF assms(1) v r, unfolded submit_row_def]] assms(2,3)
  have rd: "\<exists>j. decode_frame p x (drop 4 (us ! i)) = Ok j \<and> submit_read ?n i (ts ! i) ?src (ids_read p ds) (msg_fmt_of v) j"
    if "i < ?n" for i using that by auto
  show ?thesis
    unfolding comes_back_def
  proof (rule allI)
    fix ws
    let ?P = "\<lambda>i j a mid r. answered p x (ws i) (us ! i) = Some (j, a, mid) \<and>
        submit_read ?n i (ts ! i) ?src (strs ds) (msg_fmt_of v) j \<and> decode_frame p x (drop 4 a) = Ok r \<and>
        submit_receipt (pdu_u32 8 (us ! i)) r \<and> idx r MSG_ID = mid"
    have "\<exists>j a mid r. ?P i j a mid r" if "i < ?n" for i
      using rd [OF that] unit_answered [OF assms(6), of x "us ! i"] ids by metis
    then have "\<forall>i < ?n. \<exists>j a mid r. ?P i j a mid r" by blast
    from choice_list [where P = ?P and n = ?n, OF this] obtain js as mids rs
      where a: "\<forall>i < ?n. ?P i (js i) (as i) (mids i) (rs i)" by (elim exE) (rule that)
    then have "\<forall>i < ?n. submit_receipt (pdu_u32 8 (us ! i)) (rs i) \<and> idx (rs i) MSG_ID = mids i" by simp
    note matched = receipts_answered [OF assms(4) this]
    show "\<exists>js as mids rs.
      (\<forall>i < ?n. answered p x (ws i) (us ! i) = Some (js i, as i, mids i) \<and>
        submit_read ?n i (ts ! i) ?src (strs ds) (msg_fmt_of v) (js i) \<and> decode_frame p x (drop 4 (as i)) = Ok (rs i)) \<and>
      (\<forall>order t0 t save ctx. distinct order \<and> set order = {..<?n} \<longrightarrow>
        (\<exists>ctx'. receive_all m ((t0, ?v) # map (\<lambda>i. (t i, rs i)) order) save ctx = Some (save, ctx') \<and>
          receipts (to_queue ctx') = receipts (to_queue ctx) @ map (\<lambda>i. (JStr (msg_ids ! i), mids i)) order \<and>
          (\<forall>u \<in> set us. map_of (wait_receipt_map ctx') (ucast (pdu_u32 8 u)) = None)))"
      by (intro exI [of _ js] exI [of _ as] exI [of _ mids] exI [of _ rs] conjI) (use a in simp, use matched in blast)
  qed
qed

lemma submit_comes_back:
  assumes "mpsc_ok m" and "socket_ok s" and "\<And>b. fst (sock_send s b (framed c))"
    and "has_queues c" and "account_open m c" and "idle_count k \<le> 30"
    and "picked m (open_window t k) c = Some (pr, v)"
    and "sendable (ch_protocol (chan c)) x (tx_limit (chan c) - curr_tx (open_window t k)) code msg_ids v"
    and "work_turn m s x t wake k c = Some (True, k', c')"
    and "ch_protocol (chan c) = p" and "p \<in> {CMPP48, CMPP32, SMPP}" and "readable p x code ts ds v"
  shows "\<exists>out us v'. sock_sent s (framed c') = sock_sent s (framed c) @ [out] \<and> split_frames out = Some us \<and>
    length us = seg_count (length code) \<and> account_queue m c' = account_queue m c @ [v'] \<and>
    comes_back m p x ts (str_or_empty (idx v SRC_ID)) ds (msg_fmt_of v) msg_ids v' us"
proof -
  obtain out us json w w' where u: "encode_message p x v w = Some (Inr out, json, w')"
    "split_frames out = Some us" "length us = seg_count (length code)"
    "sent_submit (map (pdu_u32 8) us) msg_ids (setk json WAIT_RECEIPT (JBool True))"
    "sock_sent s (framed c') = sock_sent s (framed c) @ [out]"
    "account_queue m c' = account_queue m c @ [setk json WAIT_RECEIPT (JBool True)]"
    using submit_turn [OF assms(1-9)] assms(10) by blast
  from written_comes_back [OF u(1-4) assms(8) [unfolded assms(10)] assms(11,12)]
  show ?thesis by (intro exI [of _ out] exI [of _ us] exI [of _ "setk json WAIT_RECEIPT (JBool True)"] conjI) (rule u | assumption)+
qed

text \<open>C2: a submit message comes back as its receipts. A message the connection takes from a queue within
  the window is written as one unit per segment. A peer of the same protocol - CMPP or SMPP - reads from
  unit \<open>i\<close> part \<open>i\<close> of the text, with the sender and the destinations, and answers it under an id of its
  own. The account task, which has filed the message, publishes for every answer, in whatever order they
  come, the customer's id of the part with the peer's id of it, and nothing waits any more.\<close>

theorem submit_cycle:
  assumes "mpsc_ok m" and "socket_ok s" and "\<And>b. fst (sock_send s b (framed c))"
    and "has_queues c" and "account_open m c" and "idle_count k \<le> 30"
    and "picked m (open_window t k) c = Some (pr, v)"
    and "sendable (ch_protocol (chan c)) x (tx_limit (chan c) - curr_tx (open_window t k)) code msg_ids v"
    and "work_turn m s x t wake k c = Some (True, k', c')"
    and "ch_protocol (chan c) = p" and "p \<in> {CMPP48, CMPP32, SMPP}" and "readable p x code ts ds v"
  shows "\<exists>out us v'. sock_sent s (framed c') = sock_sent s (framed c) @ [out] \<and> split_frames out = Some us \<and>
    length us = seg_count (length code) \<and> account_queue m c' = account_queue m c @ [v'] \<and>
    comes_back m p x ts (str_or_empty (idx v SRC_ID)) ds (msg_fmt_of v) msg_ids v' us"
  by (rule submit_comes_back [OF assms])

lemma demo_src: "str_or_empty (idx (demo_json t) SRC_ID) = ''10690001''" "msg_fmt_of (demo_json t) = 0"
  by (simp_all add: str_or_empty_def msg_fmt_of_def as_word.simps)

lemma demo_readable: "readable CMPP48 demo_ext (as_bytes ''hello'') [''hello''] [''13800000000''] (demo_json ''Submit'')"
  using demo_pieces [of "''Submit''"]
  by (simp add: readable_def str_or_empty_def clean_def dest_width_def no_trailing_nul_def del: as_bytes_simps)

lemma submit_cycle_witness:
  "\<exists>k' c' u v' j a mid r ctx'. work_turn demo_mpsc demo_socket demo_ext 100 OneSecond demo_work demo_loaded = Some (True, k', c') \<and>
     sock_sent demo_socket (framed c') = [u] \<and> account_queue demo_mpsc c' = [v'] \<and>
     answered CMPP48 demo_ext demo_world u = Some (j, a, mid) \<and> idx j MSG_CONTENT = JStr ''hello'' \<and>
     decode_frame CMPP48 demo_ext (drop 4 a) = Ok r \<and>
     receive_all demo_mpsc [(0, v'), (1, r)] [] (demo_context Server 0 []) = Some ([], ctx') \<and>
     receipts (to_queue ctx') = [(JStr ''1'', mid)]"
proof -
  obtain k' c' where w: "work_turn demo_mpsc demo_socket demo_ext 100 OneSecond demo_work demo_loaded = Some (True, k', c')"
    using demo_loaded_turn by blast
  have f: "CMPP48 \<in> {CMPP48, CMPP32, SMPP}" by simp
  have n: "seg_count (length (as_bytes ''hello'')) = 1" by (simp add: seg_count_def)
  from submit_cycle [OF demo_mpsc_ok demo_socket_ok demo_loaded_ready(1-6) w demo_loaded_ready(7) f demo_readable]
  obtain out us v' where u: "sock_sent demo_socket (framed c') = [out]" "split_frames out = Some us" "length us = 1"
    "account_queue demo_mpsc c' = [v']"
    and cyc: "comes_back demo_mpsc CMPP48 demo_ext [''hello''] ''10690001'' [''13800000000''] 0 [''1''] v' us"
    using n demo_loaded_ready(8,9) demo_src [of "''Submit''"] by (auto simp: demo_socket_def)
  have us: "us = [out]" using split_frames_units [OF u(2)] u(3) by (cases us) auto
  obtain js as mids rs where a: "answered CMPP48 demo_ext demo_world out = Some (js 0, as 0, mids 0)" "idx (js 0) MSG_CONTENT = JStr ''hello''"
    "decode_frame CMPP48 demo_ext (drop 4 (as 0)) = Ok (rs (0 :: nat))"
    and r: "\<forall>order t0 t save ctx. distinct order \<and> set order = {..<length us} \<longrightarrow>
        (\<exists>ctx'. receive_all demo_mpsc ((t0, v') # map (\<lambda>i. (t i, rs i)) order) save ctx = Some (save, ctx') \<and>
          receipts (to_queue ctx') = receipts (to_queue ctx) @ map (\<lambda>i. (JStr ([''1''] ! i), mids i)) order \<and>
          (\<forall>u \<in> set us. map_of (wait_receipt_map ctx') (ucast (pdu_u32 8 u)) = None))"
    using cyc [unfolded comes_back_def, THEN spec, of "\<lambda>_. demo_world"] us by (elim exE conjE) (rule that, auto simp: submit_read_def text_part_def)
  have "distinct [0 :: nat] \<and> set [0] = {..<length us}" using us by auto
  from r [THEN spec, THEN spec, THEN spec, THEN spec, THEN spec, THEN mp, OF this, of 0 "\<lambda>_. 1" "[]" "demo_context Server 0 []"]
  show ?thesis using w u a us by (auto simp: receipts_def)
qed

end
