(* ===== verification/Journey.thy ===== *)
theory Journey
  imports Managing Cycle
begin

text \<open>
  The whole way of a submit message of the business side: from its topic through the manager, the task of its
  account, the queue of one connection, the socket and a peer, and back as receipts of the account.
\<close>

subsection \<open>From the account to its connection\<close>

text \<open>The account has handed over all it had: nothing waits in the queues of its connections.\<close>

definition idle_account :: "'q mpsc \<Rightarrow> 'q run_context \<Rightarrow> bool" where
  "idle_account m ctx \<longleftrightarrow> list_all (\<lambda>ch. \<forall>pr. mpsc_contents m (sender pr ch) = []) (send_channels ctx)"

text \<open>The connection task \<open>c\<close> receives what the account sends into the entry \<open>ch\<close>, and can work: the account
  takes messages from it and has not given up its ends of the queues.\<close>

definition serves :: "'q mpsc \<Rightarrow> 'q channel_states \<Rightarrow> ('q, 'n) conn \<Rightarrow> bool" where
  "serves m ch c \<longleftrightarrow> has_queues c \<and> account_open m c \<and> (\<forall>pr. waiting m pr c = mpsc_contents m (sender pr ch)) \<and>
     (\<forall>q. entity_to_channel_priority_rx (chan c) = Some q \<longrightarrow> fst (mpsc_recv m q) \<noteq> Some None)"

lemma sender_set_other: "pr \<noteq> p \<Longrightarrow> sender pr (set_sender p q ch) = sender pr ch"
  by (cases pr; cases p) (simp_all add: sender_def set_sender_def)

text \<open>One connection, and only one, has got one message more.\<close>

definition one_more :: "'q mpsc \<Rightarrow> bool \<Rightarrow> json \<Rightarrow> 'q channel_states list \<Rightarrow> 'q channel_states \<Rightarrow> 'q channel_states list \<Rightarrow> bool" where
  "one_more m p v chans ch chans' \<longleftrightarrow>
     (\<exists>n < length chans. \<exists>q. can_write (chans ! n) \<and> ch = set_sender p q (chans ! n) \<and> chans' = chans[n := ch] \<and>
        mpsc_contents m q = mpsc_contents m (sender p (chans ! n)) @ [v])"

lemma handed_one_more:
  assumes "handed m p v chans chans'"
  shows "\<exists>ch. one_more m p v chans ch chans'"
proof -
  obtain xs s ys q where h: "chans = xs @ s # ys" "can_write s" "chans' = xs @ set_sender p q s # ys"
    "mpsc_contents m q = mpsc_contents m (sender p s) @ [v]"
    using assms by (auto simp: handed_def)
  then show ?thesis unfolding one_more_def
    by (intro exI [of _ "set_sender p q s"] exI [of _ "length xs"] exI [of _ q] conjI) simp_all
qed

lemma one_more_idle:
  assumes "one_more m p v (send_channels ctx) ch chans'" and "idle_account m ctx"
  shows "\<forall>pr. mpsc_contents m (sender pr ch) = (if pr = p then [v] else [])"
proof -
  obtain n q where h: "n < length (send_channels ctx)" "ch = set_sender p q (send_channels ctx ! n)"
    "mpsc_contents m q = mpsc_contents m (sender p (send_channels ctx ! n)) @ [v]"
    using assms(1) by (auto simp: one_more_def)
  then have "\<forall>pr. mpsc_contents m (sender pr (send_channels ctx ! n)) = []"
    using assms(2) by (simp add: idle_account_def list_all_length)
  with h show ?thesis by (simp add: sender_set_other)
qed

lemma serves_picked:
  assumes "serves m ch c" and "\<forall>pr. mpsc_contents m (sender pr ch) = (if pr = p then [v] else [])"
    and "curr_tx k < tx_limit (chan c)"
  shows "picked m k c = Some (p, v)"
  using assms by (cases p) (simp_all add: serves_def picked_def)

lemma picked_select:
  assumes "mpsc_ok m" and "has_queues c" and "picked m k c = Some (pr, v)"
    and "\<And>q. entity_to_channel_priority_rx (chan c) = Some q \<Longrightarrow> fst (mpsc_recv m q) \<noteq> Some None"
  shows "\<exists>c1. same_but_queues c c1 \<and> select_turn m s x wake k c = send_turn m s x pr v (k\<lparr>idle_count := 0\<rparr>) c1"
proof -
  obtain p q where pq: "entity_to_channel_priority_rx (chan c) = Some p" "entity_to_channel_common_rx (chan c) = Some q"
    using assms(2) by (auto simp: has_queues_def)
  have g: "curr_tx k < tx_limit (chan c)" using assms(3) by (auto simp: picked_def split: if_splits)
  obtain rp p' rq q' where r: "guarded_recv m (curr_tx k < tx_limit (chan c)) p = (rp, p')"
    "guarded_recv m (curr_tx k < tx_limit (chan c)) q = (rq, q')" by fastforce
  note u = select_turn_unfold [OF pq r, of s x wake]
  have n: "rp \<noteq> Some None" using r(1) g assms(4) [OF pq(1)] by (auto simp: guarded_recv_def)
  consider "rp = Some (Some v)" "pr" | "rp = None" "rq = Some (Some v)" "\<not> pr"
    using assms(3) g n guarded_recv_law [OF assms(1) r(1)] guarded_recv_law [OF assms(1) r(2)] mpsc_recv_law [OF assms(1), of q] r(2)
    by (auto simp: picked_def waiting_def pq guarded_recv_def split: list.splits option.splits)
  then show ?thesis
  proof cases
    case 1
    then show ?thesis using u assms(2) by (intro exI [of _ "take_from True p' c"]) (simp add: queue_turn_def)
  next
    case 2
    then show ?thesis
      using u assms(2) by (intro exI [of _ "take_from False q' (take_from True p' c)"]) (simp add: queue_turn_def)
  qed
qed

text \<open>The message as the task of the account stamps it.\<close>

definition stamped :: "'q run_context \<Rightarrow> json \<Rightarrow> json" where
  "stamped ctx json = stamp_msg ctx (setk json MANAGER_TYPE (JStr ''send''))"

text \<open>What the manager does with the message: the queue of one account is the only thing that changes.\<close>

definition put_behind :: "'q mpsc \<Rightarrow> u32 \<Rightarrow> 'q \<Rightarrow> json \<Rightarrow> 'q manage \<Rightarrow> 'q manage \<Rightarrow> bool" where
  "put_behind m i q v st st' \<longleftrightarrow>
     (\<exists>q'. mpsc_contents m q' = mpsc_contents m q @ [v] \<and>
        map_of (senders st') = (map_of (senders st))(i \<mapsto> q') \<and> st'\<lparr>senders := senders st\<rparr> = st)"

lemma business_handed:
  assumes "mpsc_ok m" and "topic \<in> {''send.submit'', ''send.deliver'', ''send.report''}"
    and "as_u32 (idx json ID) = Some i" and "map_of (senders st) i = Some q" and "\<not> mpsc_is_closed m q"
    and "all_open m ctx" and "send_channels ctx \<noteq> []"
  shows "\<exists>st' v0 ctx' ch. handle_queue_msg m mq tx topic json st = Some st' \<and> put_behind m i q v0 st st' \<and>
    handle_from_manager_rx m (Some v0) ctx = Some (True, ctx') \<and>
    settings ctx' = settings ctx \<and> stores ctx' = stores ctx \<and> failures (to_queue ctx') = failures (to_queue ctx) \<and>
    one_more m (is_priority json) (stamped ctx json) (send_channels ctx) ch (send_channels ctx')"
proof -
  let ?v = "setk json MANAGER_TYPE (JStr ''send'')"
  let ?st = "st\<lparr>senders := AList.update i (snd (mpsc_send m ?v q)) (senders st)\<rparr>"
  obtain ctx' where c: "send_to_channels m ?v ctx = Some ctx'" "failures (to_queue ctx') = failures (to_queue ctx)"
    "settings ctx' = settings ctx"
    "handed m (is_priority ?v) (stamp_msg ctx ?v) (send_channels ctx) (send_channels ctx')"
    using send_open_at [OF assms(1,6,7), of ?v] by blast
  obtain ch where ch: "one_more m (is_priority json) (stamped ctx json) (send_channels ctx) ch (send_channels ctx')"
    using handed_one_more [OF c(4)] by (auto simp: is_priority_setk stamped_def)
  have "handle_from_manager_rx m (Some ?v) ctx = Some (True, ctx')" by (simp add: handle_from_manager_rx_def c(1))
  moreover have "handle_queue_msg m mq tx topic json st = Some ?st"
    using assms(2-4) by (auto simp: handle_queue_msg_def num_or_def queue_to_def)
  moreover have "put_behind m i q ?v st ?st"
    unfolding put_behind_def using assms(5)
    by (intro exI [of _ "snd (mpsc_send m ?v q)"]) (simp add: mpsc_contents_send [OF assms(1)] update_conv')
  ultimately show ?thesis using c(2,3) send_to_channels_stores [OF c(1)] ch by blast
qed

subsection \<open>The whole way\<close>

text \<open>The turn of a connection that serves the account: it goes on, and what it has written comes back.\<close>

definition turn_comes_back where
  "turn_comes_back m s x p code ts ds msg_ids v c r \<longleftrightarrow>
     (\<exists>k' c' out us v'. r = Some (True, k', c') \<and>
        sock_sent s (framed c') = sock_sent s (framed c) @ [out] \<and> split_frames out = Some us \<and>
        length us = seg_count (length code) \<and> account_queue m c' = account_queue m c @ [v'] \<and>
        comes_back m p x ts (str_or_empty (idx v SRC_ID)) ds (msg_fmt_of v) msg_ids v' us)"

lemma served_turn:
  assumes "mpsc_ok m" and "socket_ok s" and "p \<in> {CMPP48, CMPP32, SMPP}" and "readable p x code ts ds v"
    and "serves m ch c" and "\<And>b. fst (sock_send s b (framed c))" and "idle_count k \<le> 30" and "ch_protocol (chan c) = p"
    and "picked m (open_window t k) c = Some (pr, v)"
    and "sendable p x (tx_limit (chan c) - curr_tx (open_window t k)) code msg_ids v"
  shows "turn_comes_back m s x p code ts ds msg_ids v c (work_turn m s x t wake k c)"
proof -
  let ?k = "open_window t k"
  have q: "has_queues c" "account_open m c" using assms(5) by (simp_all add: serves_def)
  obtain c1 where c1: "same_but_queues c c1" "select_turn m s x wake ?k c = send_turn m s x pr v (?k\<lparr>idle_count := 0\<rparr>) c1"
    using picked_select [OF assms(1) q(1) assms(9)] assms(5) unfolding serves_def by metis
  have same: "ch_protocol (chan c1) = p" "tx_limit (chan c1) = tx_limit (chan c)" "framed c1 = framed c"
    "account_queue m c1 = account_queue m c" "account_open m c1"
    using c1(1) same_but_queues_account [OF c1(1), of m] q(2) assms(8) by (simp_all add: same_but_queues_def fixed_def)
  have l: "curr_tx (?k\<lparr>idle_count := 0\<rparr>) < tx_limit (chan c1)" using assms(9) same(2) by (auto simp: picked_def split: if_splits)
  have sd: "sendable (ch_protocol (chan c1)) x (tx_limit (chan c1) - curr_tx (?k\<lparr>idle_count := 0\<rparr>)) code msg_ids v"
    using assms(10) same by simp
  obtain out us json w w' k' c' where u: "encode_message p x v w = Some (Inr out, json, w')"
    "split_frames out = Some us" "length us = seg_count (length code)"
    "sent_submit (map (pdu_u32 8) us) msg_ids (setk json WAIT_RECEIPT (JBool True))"
    "send_turn m s x pr v (?k\<lparr>idle_count := 0\<rparr>) c1 = Some (True, k', c')"
    "sock_sent s (framed c') = sock_sent s (framed c) @ [out]"
    "account_queue m c' = account_queue m c @ [setk json WAIT_RECEIPT (JBool True)]"
    using sendable_turn [OF assms(1,2) _ same(5) l sd, of pr] assms(6) unfolding same by blast
  have "work_turn m s x t wake k c = Some (True, k', c')" using c1(2) u(5) by (simp add: work_turn_quiet [OF assms(7)])
  with u(2,3,6,7) written_comes_back [OF u(1-4) assms(10,3,4)] show ?thesis unfolding turn_comes_back_def by blast
qed

text \<open>C1: a submit message of the business side for an idle account goes all the way and comes back. The
  manager puts it behind what waits for the task of its account, and changes nothing else; the task stamps
  it and puts it alone into the queue of one of its connections, the priority queue if it is marked so,
  and leaves its other connections and all it keeps as they were, without a failure. The next turn of any
  task that serves that connection, in CMPP or
  SMPP, whatever else arrives, takes it, writes it as one unit per segment, hands it to the account and
  goes on; a peer reads the parts of the text and answers, and the answers, in any order, become the
  receipts of the customer's ids.\<close>

theorem business_submit_comes_back:
  assumes "mpsc_ok m" and "socket_ok s"
    and "as_u32 (idx json ID) = Some i" and "map_of (senders st) i = Some q" and "\<not> mpsc_is_closed m q"
    and "all_open m ctx" and "send_channels ctx \<noteq> []" and "idle_account m ctx"
    and "p \<in> {CMPP48, CMPP32, SMPP}" and "readable p x code ts ds (stamped ctx json)"
  shows "\<exists>st' v0 ctx' ch. handle_queue_msg m mq tx TOPIC_FROM_B_SUBMIT json st = Some st' \<and> put_behind m i q v0 st st' \<and>
    handle_from_manager_rx m (Some v0) ctx = Some (True, ctx') \<and>
    settings ctx' = settings ctx \<and> stores ctx' = stores ctx \<and> failures (to_queue ctx') = failures (to_queue ctx) \<and>
    one_more m (is_priority json) (stamped ctx json) (send_channels ctx) ch (send_channels ctx') \<and>
    (\<forall>pr. mpsc_contents m (sender pr ch) = (if pr = is_priority json then [stamped ctx json] else [])) \<and>
    (\<forall>c k t wake. serves m ch c \<and> (\<forall>b. fst (sock_send s b (framed c))) \<and> idle_count k \<le> 30 \<and>
      ch_protocol (chan c) = p \<and> curr_tx (open_window t k) < tx_limit (chan c) \<and>
      sendable p x (tx_limit (chan c) - curr_tx (open_window t k)) code msg_ids (stamped ctx json) \<longrightarrow>
      turn_comes_back m s x p code ts ds msg_ids (stamped ctx json) c (work_turn m s x t wake k c))"
proof -
  obtain st' v0 ctx' ch where h: "handle_queue_msg m mq tx TOPIC_FROM_B_SUBMIT json st = Some st'" "put_behind m i q v0 st st'"
    "handle_from_manager_rx m (Some v0) ctx = Some (True, ctx')"
    "settings ctx' = settings ctx" "stores ctx' = stores ctx" "failures (to_queue ctx') = failures (to_queue ctx)"
    and o: "one_more m (is_priority json) (stamped ctx json) (send_channels ctx) ch (send_channels ctx')"
    using business_handed [OF assms(1) _ assms(3-7), of TOPIC_FROM_B_SUBMIT mq tx] by auto
  note alone = one_more_idle [OF o assms(8)]
  have way: "turn_comes_back m s x p code ts ds msg_ids (stamped ctx json) c (work_turn m s x t wake k c)"
    if t: "serves m ch c \<and> (\<forall>b. fst (sock_send s b (framed c))) \<and> idle_count k \<le> 30 \<and>
      ch_protocol (chan c) = p \<and> curr_tx (open_window t k) < tx_limit (chan c) \<and>
      sendable p x (tx_limit (chan c) - curr_tx (open_window t k)) code msg_ids (stamped ctx json)" for c k t wake
  proof -
    have "picked m (open_window t k) c = Some (is_priority json, stamped ctx json)"
      using t alone by (intro serves_picked) auto
    with t show ?thesis by (intro served_turn [OF assms(1,2,9,10), of ch]) auto
  qed
  show ?thesis
    by (intro exI [of _ st'] exI [of _ v0] exI [of _ ctx'] exI [of _ ch] conjI allI impI)
      (rule h o alone [THEN spec] way | assumption)+
qed

text \<open>An account with one connection, and the connection after the message was put into its queue.\<close>

definition demo_business :: json where
  "demo_business = setk (demo_json ''Submit'') ID (JNum 7)"

definition demo_account :: "(bool \<times> json list) run_context" where
  "demo_account = demo_context Server 0 [demo_channel 1 True True]"

definition demo_served :: "(bool \<times> json list, bool \<times> buf list) conn" where
  "demo_served = demo_conn CMPP48 10 [] [stamped demo_account demo_business]"

lemma demo_stamped:
  "stamped demo_account demo_business = setk (setk (setk (setk (setk (setk (demo_json ''Submit'') ID (JNum 7))
     MANAGER_TYPE (JStr ''send'')) ENTITY_ID (num (9 :: u32))) SP_ID (JStr ''901234'')) NODE_ID (num (3 :: u32))) SERVICE_ID (JStr ''svc'')"
  by (simp add: stamped_def stamp_msg_def demo_business_def demo_account_def demo_context_def start_context_def Let_def)

lemma demo_stamped_sendable: "sendable CMPP48 demo_ext 10 (as_bytes ''hello'') [''1''] (stamped demo_account demo_business)"
proof -
  have "submit_ready CMPP48 (stamped demo_account demo_business)"
    using demo_submit_ready [of CMPP48] unfolding demo_stamped submit_ready_def of_type_def by simp
  moreover have "content_code demo_ext (stamped demo_account demo_business) = Some (as_bytes ''hello'')"
    using demo_content unfolding demo_stamped content_code_def msg_fmt_of_def by simp
  ultimately show ?thesis by (simp add: sendable_def seg_count_def) (simp add: demo_stamped)
qed

lemma demo_stamped_readable:
  "readable CMPP48 demo_ext (as_bytes ''hello'') [''hello''] [''13800000000''] (stamped demo_account demo_business)"
  using demo_readable unfolding demo_stamped readable_def msg_fmt_of_def by simp

lemma demo_served_ready:
  "fst (sock_send demo_socket b (framed demo_served))" "framed demo_served = (True, [])" "idle_count demo_work \<le> 30"
  "ch_protocol (chan demo_served) = CMPP48" "account_queue demo_mpsc demo_served = []"
  "curr_tx (open_window 100 demo_work) < tx_limit (chan demo_served)"
  "tx_limit (chan demo_served) - curr_tx (open_window 100 demo_work) = 10"
  "(\<forall>pr. mpsc_contents demo_mpsc (sender pr ch) = (if pr = False then [stamped demo_account demo_business] else [])) \<Longrightarrow>
   serves demo_mpsc ch demo_served"
proof -
  show "curr_tx (open_window 100 demo_work) < tx_limit (chan demo_served)"
    "tx_limit (chan demo_served) - curr_tx (open_window 100 demo_work) = 10"
    by (simp_all add: demo_served_def, simp_all add: demo_work_def)
qed (simp_all add: serves_def demo_served_def, simp_all add: demo_socket_def demo_conn_def demo_work_def account_queue_def account_open_def)

lemma business_submit_comes_back_witness:
  "\<exists>st' v0 ctx' ch k' c' out us v'.
     handle_queue_msg demo_mpsc (True, []) (True, []) TOPIC_FROM_B_SUBMIT demo_business demo_manage = Some st' \<and>
     put_behind demo_mpsc 7 (True, []) v0 demo_manage st' \<and>
     handle_from_manager_rx demo_mpsc (Some v0) demo_account = Some (True, ctx') \<and>
     one_more demo_mpsc False (stamped demo_account demo_business) (send_channels demo_account) ch (send_channels ctx') \<and>
     serves demo_mpsc ch demo_served \<and>
     work_turn demo_mpsc demo_socket demo_ext 100 OneSecond demo_work demo_served = Some (True, k', c') \<and>
     sock_sent demo_socket (framed c') = [out] \<and> split_frames out = Some us \<and> account_queue demo_mpsc c' = [v'] \<and>
     comes_back demo_mpsc CMPP48 demo_ext [''hello''] ''10690001'' [''13800000000''] 0 [''1''] v' us"
proof -
  have i: "as_u32 (idx demo_business ID) = Some 7" "\<not> mpsc_is_closed demo_mpsc (True, [])" "is_priority demo_business = False"
    by (simp_all add: demo_business_def is_priority_def as_word.simps) (simp add: demo_json_def)
  have src: "str_or_empty (idx (stamped demo_account demo_business) SRC_ID) = ''10690001''"
    "msg_fmt_of (stamped demo_account demo_business) = 0"
    by (simp_all add: demo_stamped str_or_empty_def msg_fmt_of_def as_word.simps)
  have a: "all_open demo_mpsc demo_account" "send_channels demo_account \<noteq> []" "idle_account demo_mpsc demo_account"
    by (simp_all add: demo_account_def all_open_def idle_account_def demo_channel_def sender_def)
  have p: "CMPP48 \<in> {CMPP48, CMPP32, SMPP}" by simp
  from business_submit_comes_back [OF demo_mpsc_ok demo_socket_ok i(1) demo_manage_sender i(2) a p demo_stamped_readable,
      of "(True, [])" "(True, [])" "[''1'']", unfolded i(3)]
  obtain st' v0 ctx' ch where h:
    "handle_queue_msg demo_mpsc (True, []) (True, []) TOPIC_FROM_B_SUBMIT demo_business demo_manage = Some st'"
    "put_behind demo_mpsc 7 (True, []) v0 demo_manage st'"
    "handle_from_manager_rx demo_mpsc (Some v0) demo_account = Some (True, ctx')"
    "one_more demo_mpsc False (stamped demo_account demo_business) (send_channels demo_account) ch (send_channels ctx')"
    "\<forall>pr. mpsc_contents demo_mpsc (sender pr ch) = (if pr = False then [stamped demo_account demo_business] else [])"
    and way: "\<And>c k t wake. serves demo_mpsc ch c \<and> (\<forall>b. fst (sock_send demo_socket b (framed c))) \<and> idle_count k \<le> 30 \<and>
      ch_protocol (chan c) = CMPP48 \<and> curr_tx (open_window t k) < tx_limit (chan c) \<and>
      sendable CMPP48 demo_ext (tx_limit (chan c) - curr_tx (open_window t k)) (as_bytes ''hello'') [''1''] (stamped demo_account demo_business) \<Longrightarrow>
      turn_comes_back demo_mpsc demo_socket demo_ext CMPP48 (as_bytes ''hello'') [''hello''] [''13800000000''] [''1'']
        (stamped demo_account demo_business) c (work_turn demo_mpsc demo_socket demo_ext t wake k c)"
    by (elim exE conjE) (rule that, assumption+, blast)
  have s: "serves demo_mpsc ch demo_served" by (rule demo_served_ready(8) [OF h(5)])
  from way [of demo_served demo_work 100 OneSecond] s demo_served_ready demo_stamped_sendable
  have "turn_comes_back demo_mpsc demo_socket demo_ext CMPP48 (as_bytes ''hello'') [''hello''] [''13800000000''] [''1'']
      (stamped demo_account demo_business) demo_served (work_turn demo_mpsc demo_socket demo_ext 100 OneSecond demo_work demo_served)"
    by simp
  then obtain k' c' out us v' where "work_turn demo_mpsc demo_socket demo_ext 100 OneSecond demo_work demo_served = Some (True, k', c')"
    "sock_sent demo_socket (framed c') = [out]" "split_frames out = Some us" "account_queue demo_mpsc c' = [v']"
    "comes_back demo_mpsc CMPP48 demo_ext [''hello''] ''10690001'' [''13800000000''] 0 [''1''] v' us"
    using demo_served_ready(2,5) by (auto simp: turn_comes_back_def src demo_socket_def)
  with h(1-4) s show ?thesis by (intro exI conjI) (assumption | simp)+
qed

end
