(* ===== verification/Delivered.thy ===== *)
theory Delivered
  imports Units
begin

text \<open>
  A deliver message read back: in every protocol the units \<open>encode_message\<close> writes decode to deliver
  messages with the numbers, the format and the piece of the text of their place in the message.
\<close>

subsection \<open>One unit\<close>

definition deliver_read :: "nat \<Rightarrow> nat \<Rightarrow> string \<Rightarrow> string \<Rightarrow> string \<Rightarrow> u8 \<Rightarrow> json \<Rightarrow> bool" where
  "deliver_read n i t src_id dest_id fmt j \<longleftrightarrow> of_type ''Deliver'' j \<and> text_part n i t j \<and>
     idx j SRC_ID = JStr src_id \<and> idx j DEST_ID = JStr dest_id \<and> idx j MSG_FMT = num fmt \<and> idx j WAIT_RECEIPT = JNull"

lemma decode_deliver_unit:
  assumes "decode_deliver p x rest seq (get_type_id p Deliver) = Ok j" and "p \<noteq> NoProtocol"
    and "idx j IS_REPORT = JNull" and "text_part n i t j"
    and "idx j SRC_ID = JStr src_id" and "idx j DEST_ID = JStr dest_id" and "idx j MSG_FMT = num fmt"
    and "idx j WAIT_RECEIPT = JNull"
  shows "\<exists>j. decode_frame p x (be_bytes 4 (unat (get_type_id p Deliver)) @ be_bytes 4 (unat seq) @ rest) = Ok j \<and>
    deliver_read n i t src_id dest_id fmt j"
proof -
  have "has_type p Deliver" using assms(2) by (cases p) auto
  then show ?thesis using assms
    by (simp add: decode_frame_def type_back Let_def deliver_read_def of_type_def text_part_setk)
qed

lemma default_deliver_unit:
  assumes "default_deliver_part p service_id src_id dest_id fmt code (h, one, s, n) i st = Some st'"
    and "segment code one n i = Some seg" and "seg_ok x fmt h n seg t"
    and "p \<in> {CMPP48, SMPP}" and "clean 32 src_id" and "clean 21 dest_id"
  shows "\<exists>u. fst st' = fst st @ u \<and> pdu_ok u \<and>
    (\<exists>j. decode_frame p x (drop 4 u) = Ok j \<and> deliver_read n i t src_id dest_id fmt j)"
proof -
  let ?rest = "\<lambda>mid. be_bytes 8 (unat (mid :: u64)) @ field dest_id 21 @ field service_id 10 @
     [0, if n = Suc 0 then 0 else 1, fmt] @ field src_id 32 @ [0, 0, of_nat (length seg) + of_nat h] @
     put_head [] h s n i @ seg @ replicate 20 0"
  obtain seq mid where u: "fst st' = fst st @ be_bytes 4 (unat (of_nat (109 + h + length seg) :: u32)) @
      be_bytes 4 (unat (get_type_id p Deliver)) @ be_bytes 4 (unat (seq :: u32)) @ ?rest mid"
    using assms(1,2) by (auto simp: default_deliver_part_def write_simps)
  have "\<exists>j. default_decode_deliver p x (?rest mid) seq tp = Ok j \<and> idx j IS_REPORT = JNull \<and> text_part n i t j \<and>
    idx j SRC_ID = JStr src_id \<and> idx j DEST_ID = JStr dest_id \<and> idx j MSG_FMT = num fmt \<and> idx j WAIT_RECEIPT = JNull" for tp
    using assms(5,6)
    by (simp add: default_decode_deliver_def read_simps decode_content_part [OF assms(3)] del: put_head_eq split del: if_split)
  then obtain j where "decode_deliver p x (?rest mid) seq (get_type_id p Deliver) = Ok j" "idx j IS_REPORT = JNull"
    "text_part n i t j" "idx j SRC_ID = JStr src_id" "idx j DEST_ID = JStr dest_id" "idx j MSG_FMT = num fmt"
    "idx j WAIT_RECEIPT = JNull"
    using assms(4) by auto blast+
  then have "\<exists>j. decode_frame p x (be_bytes 4 (unat (get_type_id p Deliver)) @ be_bytes 4 (unat seq) @ ?rest mid) = Ok j \<and>
    deliver_read n i t src_id dest_id fmt j"
    using assms(4) by (intro decode_deliver_unit) auto
  then show ?thesis
    using u length_put_head [OF assms(3), of s i] seg_ok_length [OF assms(3)]
    by (intro unit_written) (assumption | simp del: put_head_eq)+
qed

lemma cmpp32_deliver_unit:
  assumes "cmpp32_deliver_part service_id src_id dest_id fmt code (h, one, s, n) i st = Some st'"
    and "segment code one n i = Some seg" and "seg_ok x fmt h n seg t"
    and "clean 21 src_id" and "clean 21 dest_id"
  shows "\<exists>u. fst st' = fst st @ u \<and> pdu_ok u \<and>
    (\<exists>j. decode_frame CMPP32 x (drop 4 u) = Ok j \<and> deliver_read n i t src_id dest_id fmt j)"
proof -
  let ?rest = "\<lambda>mid. be_bytes 8 (unat (mid :: u64)) @ field dest_id 21 @ field service_id 10 @
     [0, if n = Suc 0 then 0 else 1, fmt] @ field src_id 21 @ [0, of_nat (length seg) + of_nat h] @
     put_head [] h s n i @ seg @ replicate 8 0"
  obtain seq mid where u: "fst st' = fst st @ be_bytes 4 (unat (of_nat (85 + h + length seg) :: u32)) @
      be_bytes 4 (unat (get_type_id CMPP32 Deliver)) @ be_bytes 4 (unat (seq :: u32)) @ ?rest mid"
    using assms(1,2) by (auto simp: cmpp32_deliver_part_def write_simps)
  have "\<exists>j. decode_frame CMPP32 x (be_bytes 4 (unat (get_type_id CMPP32 Deliver)) @ be_bytes 4 (unat seq) @ ?rest mid) = Ok j \<and>
    deliver_read n i t src_id dest_id fmt j"
  proof (rule decode_deliver_unit)
    show "decode_deliver CMPP32 x (?rest mid) seq (get_type_id CMPP32 Deliver) = Ok (content_json n i t
      (setk (setk (setk (setk (setk (msg_header seq (get_type_id CMPP32 Deliver)) MSG_ID (JStr (cmpp_msg_id_u64_to_str mid)))
        DEST_ID (JStr dest_id)) SERVICE_ID (JStr (trim_nul (from_bytes (field service_id 10))))) SRC_ID (JStr src_id))
        MSG_FMT (num fmt)))"
      using assms(4,5)
      by (simp add: cmpp32_decode_deliver_def read_simps decode_content_part [OF assms(3)] del: put_head_eq split del: if_split)
  qed (simp_all add: read_simps)
  then show ?thesis
    using u length_put_head [OF assms(3), of s i] seg_ok_length [OF assms(3)]
    by (intro unit_written) (assumption | simp del: put_head_eq)+
qed

lemma sgip_deliver_unit:
  assumes "sgip_deliver_part node_id src_id dest_id fmt code (h, one, s, n) i st = Some st'"
    and "segment code one n i = Some seg" and "seg_ok x fmt h n seg t"
    and "clean 21 src_id" and "clean 21 dest_id"
  shows "\<exists>u. fst st' = fst st @ u \<and> pdu_ok u \<and>
    (\<exists>j. decode_frame SGIP x (drop 4 u) = Ok j \<and> deliver_read n i t src_id dest_id fmt j)"
proof -
  let ?rest = "\<lambda>sq. be_bytes 8 (unat (sq :: u64)) @ field src_id 21 @ field dest_id 21 @
     [0, if n = Suc 0 then 0 else 1, fmt] @ be_bytes 4 (unat (of_nat (length seg + h) :: u32)) @
     put_head [] h s n i @ seg @ replicate 8 0"
  obtain sq where u: "fst st' = fst st @ be_bytes 4 (unat (of_nat (77 + h + length seg) :: u32)) @
      be_bytes 4 (unat (get_type_id SGIP Deliver)) @ be_bytes 4 (unat node_id) @ ?rest sq"
    using assms(1,2) by (auto simp: sgip_deliver_part_def write_simps)
  have "\<exists>j. decode_deliver SGIP x (?rest sq) node_id tp = Ok j \<and> idx j IS_REPORT = JNull \<and> text_part n i t j \<and>
    idx j SRC_ID = JStr src_id \<and> idx j DEST_ID = JStr dest_id \<and> idx j MSG_FMT = num fmt \<and> idx j WAIT_RECEIPT = JNull" for tp
    using assms(4,5)
    by (simp add: sgip_decode_deliver_def sgip_header_def read_simps decode_content_part [OF assms(3)] ucast_length
        del: put_head_eq of_nat_add split del: if_split)
  then have "\<exists>j. decode_frame SGIP x (be_bytes 4 (unat (get_type_id SGIP Deliver)) @ be_bytes 4 (unat node_id) @ ?rest sq) = Ok j \<and>
    deliver_read n i t src_id dest_id fmt j"
    by (meson decode_deliver_unit protocol.distinct)
  then show ?thesis
    using u length_put_head [OF assms(3), of s i] seg_ok_length [OF assms(3)]
    by (intro unit_written) (assumption | simp del: put_head_eq)+
qed

lemma tlvs_decoded:
  "decode_tlvs (tlv_bytes (deliver_tlvs h) k) [TPUdhi 0] = Some [TPUdhi (if h = 0 then 0 else 1)]"
  by (simp add: decode_tlvs.simps tlv_bytes_def deliver_tlvs_def put_defs get_u16_be tlv_from_u8_def)

lemma smgp_deliver_unit:
  assumes "smgp_deliver_part receive_time src_id dest_id fmt code (h, one, s, n) (tlv_tail h 5) (deliver_tlvs h) i st = Some st'"
    and "segment code one n i = Some seg" and "seg_ok x fmt h n seg t"
    and "clean 21 src_id" and "clean 21 dest_id"
  shows "\<exists>u. fst st' = fst st @ u \<and> pdu_ok u \<and>
    (\<exists>j. decode_frame SMGP x (drop 4 u) = Ok j \<and> deliver_read n i t src_id dest_id fmt j)"
proof -
  let ?rest = "\<lambda>mid. mid @ [0, fmt] @ field receive_time 14 @ field src_id 21 @ field dest_id 21 @
     [of_nat (length seg) + of_nat h] @ put_head [] h s n i @ seg @ replicate 8 0 @ tlv_bytes (deliver_tlvs h) (i + 1)"
  obtain seq mid where u: "fst st' = fst st @ be_bytes 4 (unat (of_nat (89 + h + length seg + tlv_tail h 5) :: u32)) @
      be_bytes 4 (unat (get_type_id SMGP Deliver)) @ be_bytes 4 (unat (seq :: u32)) @ ?rest mid" and mid: "length mid = 10"
    using assms(1,2) unfolding smgp_deliver_part_def coder_tlv_bytes by (auto simp: write_simps)
  have long: "(h = 0) = (n = Suc 0)" using assms(3) by (simp add: seg_ok_def)
  have "\<exists>j. decode_deliver SMGP x (?rest mid) seq tp = Ok j \<and> idx j IS_REPORT = JNull \<and> text_part n i t j \<and>
    idx j SRC_ID = JStr src_id \<and> idx j DEST_ID = JStr dest_id \<and> idx j MSG_FMT = num fmt \<and> idx j WAIT_RECEIPT = JNull" for tp
    using assms(4,5) mid
    by (simp add: smgp_decode_deliver_def read_simps split_content [OF assms(3) refl] tlvs_decoded tlv_is_long_def
        decode_content_end [OF assms(3)] long del: put_head_eq split del: if_split)
  then have "\<exists>j. decode_frame SMGP x (be_bytes 4 (unat (get_type_id SMGP Deliver)) @ be_bytes 4 (unat seq) @ ?rest mid) = Ok j \<and>
    deliver_read n i t src_id dest_id fmt j"
    by (meson decode_deliver_unit protocol.distinct)
  moreover have "length (tlv_bytes (deliver_tlvs h) k) = tlv_tail h 5" for k
    by (simp add: tlv_bytes_def deliver_tlvs_def tlv_tail_def put_defs)
  ultimately show ?thesis
    using u mid length_put_head [OF assms(3), of s i] seg_ok_length [OF assms(3)]
    by (intro unit_written) (assumption | simp add: tlv_tail_def del: put_head_eq)+
qed

subsection \<open>All units\<close>

definition deliver_row :: "protocol \<Rightarrow> ext \<Rightarrow> json \<Rightarrow> string list \<Rightarrow> nat \<Rightarrow> buf \<Rightarrow> bool" where
  "deliver_row p x json ts n = row (\<lambda>i u. \<exists>j. decode_frame p x (drop 4 u) = Ok j \<and>
     deliver_read n i (ts ! i) (str_or_empty (idx json SRC_ID)) (str_or_empty (idx json DEST_ID)) (msg_fmt_of json) j) n"

lemma deliver_row_loop:
  assumes "sms_head (length code) w = ((h, one, s, n), w')" and "length code < 2 ^ 24"
    and "pieces x (msg_fmt_of json) code ts"
    and "as_str (idx json SRC_ID) = Some src_id" and "as_str (idx json DEST_ID) = Some dest_id"
    and "for_each [0..<n] body st = Some st'" and "fst st = []"
    and "\<And>i st st' seg t. body i st = Some st' \<Longrightarrow> segment code one n i = Some seg \<Longrightarrow>
      seg_ok x (msg_fmt_of json) h n seg t \<Longrightarrow> \<exists>u. fst st' = fst st @ u \<and> pdu_ok u \<and>
      (\<exists>j. decode_frame p x (drop 4 u) = Ok j \<and> deliver_read n i t src_id dest_id (msg_fmt_of json) j)"
  shows "deliver_row p x json ts (seg_count (length code)) (fst st')"
  using text_row [OF assms(1-3,6-8)] assms(4,5) sms_head_count [OF assms(1,2)]
  by (simp add: deliver_row_def str_or_empty_def)

lemma default_encode_deliver_row:
  assumes "default_encode_deliver p x json w = Some (Inr out, json', w')" and "p \<in> {CMPP48, SMPP}"
    and "content_code x json = Some code" and "length code < 2 ^ 24" and "pieces x (msg_fmt_of json) code ts"
    and "clean 32 (str_or_empty (idx json SRC_ID))" and "clean 21 (str_or_empty (idx json DEST_ID))"
  shows "deliver_row p x json ts (seg_count (length code)) out"
proof -
  obtain h one s n w1 where head: "sms_head (length code) w = ((h, one, s, n), w1)" by (metis surj_pair)
  obtain st service_id src_id dest_id where l: "for_each [0..<n] (default_deliver_part p service_id src_id dest_id
      (msg_fmt_of json) code (h, one, s, n)) ([], [], [], w1) = Some st" "out = fst st"
    and s: "as_str (idx json SRC_ID) = Some src_id" and d: "as_str (idx json DEST_ID) = Some dest_id"
    using assms(1) content_codeD [OF assms(3)] head
    by (auto simp: default_encode_deliver_def require_eq_Some bind_eq_Some Let_def split: if_splits)
  have c: "clean 32 src_id" "clean 21 dest_id" using assms(6,7) s d by (simp_all add: str_or_empty_def)
  show ?thesis
    using deliver_row_loop [OF head assms(4,5) s d l(1) _ default_deliver_unit [OF _ _ _ assms(2) c]] l(2) by simp
qed

lemma cmpp32_encode_deliver_row:
  assumes "cmpp32_encode_deliver x json w = Some (Inr out, json', w')"
    and "content_code x json = Some code" and "length code < 2 ^ 24" and "pieces x (msg_fmt_of json) code ts"
    and "clean 21 (str_or_empty (idx json SRC_ID))" and "clean 21 (str_or_empty (idx json DEST_ID))"
  shows "deliver_row CMPP32 x json ts (seg_count (length code)) out"
proof -
  obtain h one s n w1 where head: "sms_head (length code) w = ((h, one, s, n), w1)" by (metis surj_pair)
  obtain st service_id src_id dest_id where l: "for_each [0..<n] (cmpp32_deliver_part service_id src_id dest_id
      (msg_fmt_of json) code (h, one, s, n)) ([], [], [], w1) = Some st" "out = fst st"
    and s: "as_str (idx json SRC_ID) = Some src_id" and d: "as_str (idx json DEST_ID) = Some dest_id"
    using assms(1) content_codeD [OF assms(2)] head
    by (auto simp: cmpp32_encode_deliver_def require_eq_Some bind_eq_Some Let_def)
  have c: "clean 21 src_id" "clean 21 dest_id" using assms(5,6) s d by (simp_all add: str_or_empty_def)
  show ?thesis
    using deliver_row_loop [OF head assms(3,4) s d l(1) _ cmpp32_deliver_unit [OF _ _ _ c]] l(2) by simp
qed

lemma sgip_encode_deliver_row:
  assumes "sgip_encode_deliver x json w = Some (Inr out, json', w')"
    and "content_code x json = Some code" and "length code < 2 ^ 24" and "pieces x (msg_fmt_of json) code ts"
    and "clean 21 (str_or_empty (idx json SRC_ID))" and "clean 21 (str_or_empty (idx json DEST_ID))"
  shows "deliver_row SGIP x json ts (seg_count (length code)) out"
proof -
  obtain h one s n w1 where head: "sms_head (length code) w = ((h, one, s, n), w1)" by (metis surj_pair)
  obtain st node_id src_id dest_id where l: "for_each [0..<n] (sgip_deliver_part node_id src_id dest_id
      (msg_fmt_of json) code (h, one, s, n)) ([], [], w1) = Some st" "out = fst st"
    and s: "as_str (idx json SRC_ID) = Some src_id" and d: "as_str (idx json DEST_ID) = Some dest_id"
    using assms(1) content_codeD [OF assms(2)] head
    by (auto simp: sgip_encode_deliver_def require_eq_Some bind_eq_Some Let_def)
  have c: "clean 21 src_id" "clean 21 dest_id" using assms(5,6) s d by (simp_all add: str_or_empty_def)
  show ?thesis
    using deliver_row_loop [OF head assms(3,4) s d l(1) _ sgip_deliver_unit [OF _ _ _ c]] l(2) by simp
qed

lemma smgp_encode_deliver_row:
  assumes "smgp_encode_deliver x json w = Some (Inr out, json', w')"
    and "content_code x json = Some code" and "length code < 2 ^ 24" and "pieces x (msg_fmt_of json) code ts"
    and "clean 21 (str_or_empty (idx json SRC_ID))" and "clean 21 (str_or_empty (idx json DEST_ID))"
  shows "deliver_row SMGP x json ts (seg_count (length code)) out"
proof -
  obtain h one s n w1 where head: "sms_head (length code) w = ((h, one, s, n), w1)" by (metis surj_pair)
  have tlv: "(if length code \<le> 140 then (0, []) else (5, [TPUdhi 1])) = (tlv_tail h 5, deliver_tlvs h)"
    using sms_head_head_len [OF head] by (simp add: head_len_def tlv_tail_def deliver_tlvs_def)
  obtain st time src_id dest_id where l: "for_each [0..<n] (smgp_deliver_part time src_id dest_id
      (msg_fmt_of json) code (h, one, s, n) (tlv_tail h 5) (deliver_tlvs h)) ([], [], w1) = Some st" "out = fst st"
    and s: "as_str (idx json SRC_ID) = Some src_id" and d: "as_str (idx json DEST_ID) = Some dest_id"
    using assms(1) content_codeD [OF assms(2)] head
    by (auto simp: smgp_encode_deliver_def require_eq_Some bind_eq_Some Let_def tlv)
  have c: "clean 21 src_id" "clean 21 dest_id" using assms(5,6) s d by (simp_all add: str_or_empty_def)
  show ?thesis
    using deliver_row_loop [OF head assms(3,4) s d l(1) _ smgp_deliver_unit [OF _ _ _ c]] l(2) by simp
qed

text \<open>The width of the field that holds the number a deliver message comes from.\<close>

definition src_width :: "protocol \<Rightarrow> nat" where
  "src_width p = (if p = CMPP48 \<or> p = SMPP then 32 else 21)"

lemma encode_deliver_row:
  assumes "encode_message p x json w = Some (Inr out, json', w')" and "of_type ''Deliver'' json"
    and "content_code x json = Some code" and "length code < 2 ^ 24" and "pieces x (msg_fmt_of json) code ts"
    and "clean (src_width p) (str_or_empty (idx json SRC_ID))" and "clean 21 (str_or_empty (idx json DEST_ID))"
  shows "deliver_row p x json ts (seg_count (length code)) out"
proof -
  have "p \<noteq> NoProtocol" "encode_deliver p x json w = Some (Inr out, json', w')"
    using assms(1,2) by (auto simp: encode_message_def of_type_def split: if_splits)
  then show ?thesis
    using assms(6) default_encode_deliver_row [OF _ _ assms(3-5) _ assms(7)] cmpp32_encode_deliver_row [OF _ assms(3-5) _ assms(7)]
      sgip_encode_deliver_row [OF _ assms(3-5) _ assms(7)] smgp_encode_deliver_row [OF _ assms(3-5) _ assms(7)]
    by (cases p) (simp_all add: src_width_def)
qed

text \<open>C4: what a gateway reads of a deliver message is what the other has put in. In every protocol
  the bytes of an accepted deliver message are split by their length fields into one unit per
  segment, and each unit decodes to a deliver message with the number it comes from, the number it
  goes to, the format, and the part of the text at its place with its part numbers, provided the
  numbers fit their fields and every segment is text of its own in the character set.\<close>

theorem deliver_read_back:
  assumes "encode_message p x json w = Some (Inr out, json', w')" and "of_type ''Deliver'' json"
    and "content_code x json = Some code" and "length code < 2 ^ 24" and "pieces x (msg_fmt_of json) code ts"
    and "clean (src_width p) (str_or_empty (idx json SRC_ID))" and "clean 21 (str_or_empty (idx json DEST_ID))"
  shows "\<exists>ps. split_frames out = Some ps \<and> length ps = seg_count (length code) \<and>
    (\<forall>i < length ps. \<exists>j. decode_frame p x (drop 4 (ps ! i)) = Ok j \<and>
      deliver_read (length ps) i (ts ! i) (str_or_empty (idx json SRC_ID)) (str_or_empty (idx json DEST_ID)) (msg_fmt_of json) j)"
  using row_split [OF encode_deliver_row [OF assms, unfolded deliver_row_def]] by fastforce

lemma deliver_read_back_witness:
  "\<exists>out json' w' u j. encode_message SMGP demo_ext (demo_json ''Deliver'') demo_world = Some (Inr out, json', w') \<and>
     split_frames out = Some [u] \<and> decode_frame SMGP demo_ext (drop 4 u) = Ok j \<and>
     idx j SRC_ID = JStr ''10690001'' \<and> idx j MSG_CONTENT = JStr ''hello''"
proof -
  obtain out json' w' where
    e: "encode_message SMGP demo_ext (demo_json ''Deliver'') demo_world = Some (Inr out, json', w')"
    using deliver_ready_encodes [OF demo_deliver_ready demo_content, of SMGP demo_world] by auto
  obtain ps where ps: "split_frames out = Some ps" "length ps = 1" "\<forall>i < length ps. \<exists>j.
      decode_frame SMGP demo_ext (drop 4 (ps ! i)) = Ok j \<and> deliver_read (length ps) i ([''hello''] ! i)
        ''10690001'' ''13800000000'' (msg_fmt_of (demo_json ''Deliver'')) j"
    using deliver_read_back [OF e demo_of_type demo_content _ demo_pieces]
    by (fastforce simp: seg_count_def str_or_empty_def clean_def src_width_def no_trailing_nul_def)
  then obtain u where "ps = [u]" by (metis One_nat_def length_0_conv length_Suc_conv)
  with e ps show ?thesis by (auto simp: deliver_read_def text_part_def)
qed

end
