(* ===== verification/Travels.thy ===== *)
theory Travels
  imports Delivered LongSms
begin

text \<open>
  A long text message on its way: written as units by one gateway, read from the stream by another,
  put together by the task of an account and published.
\<close>

lemma deliver_read_part:
  assumes "deliver_read n i t src_id dest_id fmt j" and "n \<noteq> 1"
  shows "deliver_part (of_nat n) j" and "long_sms_key j = src_id @ dest_id"
    and "idx j LONG_SMS_NOW_NUMBER = num (of_nat (i + 1) :: u8)" and "str_or_empty (idx j MSG_CONTENT) = t"
  using assms by (simp_all add: deliver_read_def deliver_part_def of_type_def text_part_def long_sms_key_def str_or_empty_def)

lemma ascii_content_code:
  "idx json MSG_FMT = JNum 0 \<Longrightarrow> idx json MSG_CONTENT = JStr text \<Longrightarrow>
   content_code x json = Some (as_bytes text) \<and> msg_fmt_of json = 0"
  by (simp add: content_code_def msg_fmt_of_def encode_msg_content_def as_word.simps)

lemma seg_count_bounds: "140 < k \<Longrightarrow> k \<le> 34170 \<Longrightarrow> 2 \<le> seg_count k \<and> seg_count k \<le> 255"
  using div_le_mono [of 268 "k + 133" 134] div_le_mono [of "k + 133" 34303 134] by (simp add: seg_count_def)

text \<open>The units of a long ASCII text decode to its parts.\<close>

lemma deliver_parts:
  assumes "encode_message p x json w = Some (Inr out, json', w')" and "of_type ''Deliver'' json"
    and "idx json MSG_FMT = JNum 0" and "idx json MSG_CONTENT = JStr text" and "ascii text"
    and "140 < length text" and "length text \<le> 34170"
    and "clean (src_width p) (str_or_empty (idx json SRC_ID))" and "clean 21 (str_or_empty (idx json DEST_ID))"
  shows "\<exists>us msgs. split_frames out = Some us \<and> map (\<lambda>u. decode_frame p x (drop 4 u)) us = map Ok msgs \<and>
    length msgs = seg_count (length text) \<and>
    parts_of (str_or_empty (idx json SRC_ID) @ str_or_empty (idx json DEST_ID)) (of_nat (length msgs)) msgs \<and>
    list_all (deliver_part (of_nat (length msgs))) msgs \<and>
    concat (map (\<lambda>j. str_or_empty (idx j MSG_CONTENT)) msgs) = text"
proof -
  let ?src = "str_or_empty (idx json SRC_ID)" and ?dst = "str_or_empty (idx json DEST_ID)"
  let ?ts = "map from_bytes (segments (as_bytes text))"
  note c = ascii_content_code [OF assms(3,4), of x]
  have n: "2 \<le> seg_count (length text)" "seg_count (length text) \<le> 255" using seg_count_bounds assms(6,7) by auto
  have pieces: "pieces x (msg_fmt_of json) (as_bytes text) ?ts" using ascii_pieces [OF assms(5)] c by simp
  have "deliver_row p x json ?ts (seg_count (length text)) out"
    using encode_deliver_row [OF assms(1,2) _ _ pieces assms(8,9)] c assms(7) by simp
  from row_split [OF this [unfolded deliver_row_def]] obtain us where us: "split_frames out = Some us"
    "length us = seg_count (length text)"
    and d: "\<forall>i < length us. \<exists>j. decode_frame p x (drop 4 (us ! i)) = Ok j \<and>
      deliver_read (length us) i (?ts ! i) ?src ?dst (msg_fmt_of json) j"
    by auto
  obtain f where f: "\<And>i. i < length us \<Longrightarrow> decode_frame p x (drop 4 (us ! i)) = Ok (f i)"
    "\<And>i. i < length us \<Longrightarrow> deliver_read (length us) i (?ts ! i) ?src ?dst (msg_fmt_of json) (f i)"
    using d by metis
  let ?msgs = "map f [0..<length us]"
  have l: "length us = seg_count (length text)" "length us \<noteq> 1" "length us < 256" using us n by auto
  note part = deliver_read_part [OF f(2) l(2)]
  have "length ?ts = length us" using us by (simp add: segments_def)
  then have "map (\<lambda>j. str_or_empty (idx j MSG_CONTENT)) ?msgs = ?ts"
    using part(4) by (intro nth_equalityI) auto
  then have "concat (map (\<lambda>j. str_or_empty (idx j MSG_CONTENT)) ?msgs) = text" by (simp only: concat_ascii_pieces)
  moreover have "map (\<lambda>u. decode_frame p x (drop 4 u)) us = map Ok ?msgs"
    using f(1) by (intro nth_equalityI) auto
  moreover have "parts_of (?src @ ?dst) (of_nat (length ?msgs)) ?msgs"
    using part(2,3) l n us by (auto simp: parts_of_def unat_of_nat)
  moreover have "list_all (deliver_part (of_nat (length ?msgs))) ?msgs"
    using part(1) by (simp add: list_all_iff)
  ultimately show ?thesis using us by (intro exI [of _ us] exI [of _ ?msgs]) simp
qed

text \<open>C6: a long text arrives. A deliver message with an ASCII text of up to 34170 bytes is written as
  units; another gateway that reads the stream decodes each unit to a part; and when its account task
  has taken the parts, in any order and whatever else it has cached, it has published exactly one
  message, with the original text.\<close>

theorem long_text_arrives:
  assumes "encode_message p x json w = Some (Inr out, json', w')" and "of_type ''Deliver'' json"
    and "idx json MSG_FMT = JNum 0" and "idx json MSG_CONTENT = JStr text" and "ascii text"
    and "140 < length text" and "length text \<le> 34170"
    and "clean (src_width p) (str_or_empty (idx json SRC_ID))" and "clean 21 (str_or_empty (idx json DEST_ID))"
    and "map_of (long_sms_cache c) (str_or_empty (idx json SRC_ID) @ str_or_empty (idx json DEST_ID)) = None"
    and "set order = {..<seg_count (length text)}" and "distinct order"
  shows "\<exists>us msgs c' sent. split_frames out = Some us \<and> map (\<lambda>u. decode_frame p x (drop 4 u)) us = map Ok msgs \<and>
    receive_all m (map (\<lambda>i. (t i, msgs ! i)) order) save c = Some (save, c') \<and>
    to_queue c' = to_queue c @ [(TOPIC_TO_B_DELIVER, [], sent)] \<and> idx sent MSG_CONTENT = JStr text"
proof -
  obtain us msgs where us: "split_frames out = Some us" "map (\<lambda>u. decode_frame p x (drop 4 u)) us = map Ok msgs"
    "concat (map (\<lambda>j. str_or_empty (idx j MSG_CONTENT)) msgs) = text"
    and o: "set order = {..<length msgs}"
    and parts: "parts_of (str_or_empty (idx json SRC_ID) @ str_or_empty (idx json DEST_ID)) (of_nat (length msgs)) msgs"
      "list_all (deliver_part (of_nat (length msgs))) msgs"
    using deliver_parts [OF assms(1-9)] assms(11) by auto
  from long_deliver_published [OF parts o assms(12,10), of m t save] us show ?thesis by auto
qed

definition demo_long_text :: json where
  "demo_long_text = setk (demo_json ''Deliver'') MSG_CONTENT (JStr (replicate 150 CHR ''a''))"

lemma long_text_arrives_witness:
  "\<exists>out json' w' msgs c' sent. encode_message CMPP32 demo_ext demo_long_text demo_world = Some (Inr out, json', w') \<and>
     receive_all demo_mpsc [(0, msgs ! 1), (0, msgs ! 0)] [] (demo_context Custom 0 []) = Some ([], c') \<and>
     to_queue c' = [(TOPIC_TO_B_DELIVER, [], sent)] \<and> idx sent MSG_CONTENT = JStr (replicate 150 CHR ''a'')"
proof -
  let ?t = "replicate 150 CHR ''a''"
  have f: "of_type ''Deliver'' demo_long_text" "idx demo_long_text MSG_FMT = JNum 0" "idx demo_long_text MSG_CONTENT = JStr ?t"
    "idx demo_long_text SRC_ID = JStr ''10690001''" "idx demo_long_text DEST_ID = JStr ''13800000000''"
    by (simp_all add: demo_long_text_def of_type_def)
  have "deliver_ready CMPP32 demo_long_text"
    using demo_deliver_ready [of CMPP32] by (simp add: deliver_ready_def demo_long_text_def of_type_def)
  then obtain out json' w' where e: "encode_message CMPP32 demo_ext demo_long_text demo_world = Some (Inr out, json', w')"
    using deliver_ready_encodes [of CMPP32 demo_long_text demo_ext "as_bytes ?t" demo_world]
      ascii_content_code [OF f(2,3), of demo_ext] by auto
  have a: "ascii ?t" by (simp add: ascii_def)
  have "set [1, 0] = {..<seg_count (length ?t)}" by (auto simp: seg_count_def less_Suc_eq numeral_2_eq_2)
  from long_text_arrives [OF e f(1-3) a _ _ _ _ _ this, of "demo_context Custom 0 []" demo_mpsc "\<lambda>_. 0" "[]"] e f(4,5)
  show ?thesis by (auto simp: str_or_empty_def clean_def src_width_def no_trailing_nul_def)
qed

end
