(* ===== verification/Inbound.thy ===== *)
theory Inbound
  imports Travels Cycle
begin

text \<open>
  Messages from an operator through the whole of a gateway: the task of the connection reads the frames,
  answers them and hands the messages to its account; the task of the account puts them together.
\<close>

subsection \<open>The connection\<close>

text \<open>One turn of reading for each thing that arrives, while the task goes on.\<close>

fun read_turns ::
    "'q mpsc \<Rightarrow> 'n socket \<Rightarrow> ext \<Rightarrow> net_event list \<Rightarrow> work \<Rightarrow> ('q, 'n) conn \<Rightarrow> ('q, 'n) turn" where
  "read_turns m s x [] k c = Some (True, k, c)"
| "read_turns m s x (ev # evs) k c = do {
     (go, k, c) \<leftarrow> read_turn m s x ev k c;
     if go then read_turns m s x evs k c else Some (False, k, c)
   }"

text \<open>A connection in use: its account takes messages, its codec has the protocol it has agreed on.\<close>

definition in_use :: "'q mpsc \<Rightarrow> protocol \<Rightarrow> ('q, 'n) conn \<Rightarrow> bool" where
  "in_use m p c \<longleftrightarrow> account_open m c \<and> codec_protocol c = p \<and> ch_protocol (chan c) = p \<and> p \<noteq> NoProtocol"

lemma in_use_simps [simp]:
  "in_use m p (c\<lparr>globals := w\<rparr>) = in_use m p c" "in_use m p (snd (framed_send s b c)) = in_use m p c"
  by (simp_all add: in_use_def framed_send_def split_def Let_def account_open_def)

lemma in_use_to_entity:
  assumes "mpsc_ok m" and "in_use m p c"
  shows "in_use m p (snd (to_entity m j c))" and "account_queue m (snd (to_entity m j c)) = account_queue m c @ [j]"
  using assms to_entity_open [OF assms(1), of c j]
  by (auto simp: in_use_def to_entity_def split_def Let_def split: option.split)

text \<open>Only the answers to a submit message put anything into the message.\<close>

lemma receipt_keeps:
  assumes "encode_receipt p st j w = Some (r, j', w')" and "as_u32 (idx j MSG_TYPE_U32) = Some tp" and "get_type_enum p tp = Deliver \<or> get_type_enum p tp = Report"
  shows "j' = j"
proof -
  have "encode_deliver_resp p st j w = Some (r, j', w') \<or> encode_report_resp p st j w = Some (r, j', w') \<or> j' = j"
    using assms by (auto simp: encode_receipt_def no_reply_def split: if_splits simp del: get_type_enum.simps)
  then show ?thesis
    by (cases p) (auto simp: default_encode_deliver_resp_def cmpp32_encode_deliver_resp_def sgip_encode_deliver_resp_def
      default_encode_report_resp_def sgip_encode_report_resp_def require_def reply_def no_reply_def bind_eq_Some Let_def split_def
      split: option.splits)
qed

lemma deliver_type:
  assumes "decode_frame p x b = Ok j" and "of_type ''Deliver'' j" and "p \<noteq> NoProtocol"
  shows "\<exists>tp. as_u32 (idx j MSG_TYPE_U32) = Some tp \<and> (get_type_enum p tp = Deliver \<or> get_type_enum p tp = Report)"
proof -
  obtain tp r seq r' m where t: "get_type_enum p tp = Deliver" and m: "body_of p x tp r' seq = Ok m"
    "j = setk m MSG_TYPE_STR (JStr (msg_type_to_str Deliver))"
    by (rule decode_frame_of_type [OF assms(1), of Deliver]) (use assms(2) in simp_all)
  have "decode_deliver p x r' seq tp = Ok m" using m(1) t by (simp add: body_of_def)
  then have "decoded p tp m" by (rule body_fields(3) [OF assms(3)])
  moreover have "get_type_enum p (get_type_id p Report) = Report \<or> get_type_enum p (get_type_id p Report) = Deliver"
    using assms(3) by (cases p) (simp_all add: type_back del: get_type_id.simps get_type_enum.simps)
  ultimately show ?thesis using t m(2) unfolding decoded_def
    by (elim conjE disjE) (simp_all del: get_type_id.simps get_type_enum.simps)
qed

lemma deliver_turn:
  assumes "mpsc_ok m" and "in_use m p c" and "\<And>b n. fst (sock_send s b n)"
    and "decode_frame p x b = Ok j" and "of_type ''Deliver'' j"
  shows "\<exists>c'. read_turn m s x (Frame b) k c = Some (True, k\<lparr>wait_active_resp := False\<rparr>, c') \<and> in_use m p c' \<and>
    account_queue m c' = account_queue m c @ [j]"
proof -
  have p: "codec_protocol c = p" "ch_protocol (chan c) = p" "p \<noteq> NoProtocol" using assms(2) by (simp_all add: in_use_def)
  have ty: "msg_type_of j = Deliver"
    using assms(5) msg_type_name_back [of Deliver] by (simp add: msg_type_of_def of_type_def str_or_empty_def)
  obtain r j' w' where e: "encode_receipt p Success j (globals c) = Some (r, j', w')"
    using typed_answered [OF decode_typed [OF assms(4) p(3)] p(3)] by (metis not_Some_eq prod_cases3)
  have "j' = j" using receipt_keeps [OF e] deliver_type [OF assms(4,5) p(3)] by blast
  let ?c = "case r of None \<Rightarrow> c\<lparr>globals := w'\<rparr> | Some resp \<Rightarrow> snd (framed_send s resp (c\<lparr>globals := w'\<rparr>))"
  have send: "fst (framed_send s resp d)" for resp and d :: "('a, 'b) conn"
    using assms(3) by (simp add: framed_send_def split_def Let_def)
  have "read_turn m s x (Frame b) k c = Some (True, k\<lparr>wait_active_resp := False\<rparr>, snd (to_entity m j ?c))"
    using e \<open>j' = j\<close> send
    by (simp add: read_turn_def p assms(4) net_turn_def ty Let_def split_def split: option.split)
  moreover have "in_use m p ?c" "account_queue m ?c = account_queue m c"
    using assms(2) by (simp_all split: option.split)
  ultimately show ?thesis using in_use_to_entity [OF assms(1), of p ?c j] by auto
qed

lemma as_str_Some: "as_str j = Some s \<longleftrightarrow> j = JStr s"
  by (cases j) auto

lemma deliver_turns:
  assumes "mpsc_ok m" and "\<And>b n. fst (sock_send s b n)"
  shows "in_use m p c \<Longrightarrow> map (decode_frame p x) bs = map Ok js \<Longrightarrow> list_all (of_type ''Deliver'') js \<Longrightarrow>
    \<exists>k' c'. read_turns m s x (map Frame bs) k c = Some (True, k', c') \<and> account_queue m c' = account_queue m c @ js"
proof (induction bs arbitrary: js k c)
  case (Cons b bs)
  then obtain j rest where j: "js = j # rest" "decode_frame p x b = Ok j" "map (decode_frame p x) bs = map Ok rest"
    by (cases js) auto
  obtain c1 where c1: "read_turn m s x (Frame b) k c = Some (True, k\<lparr>wait_active_resp := False\<rparr>, c1)" "in_use m p c1"
    "account_queue m c1 = account_queue m c @ [j]"
    using deliver_turn [OF assms(1) Cons.prems(1) assms(2) j(2), of k] Cons.prems(3) j(1) by auto
  from Cons.IH [OF c1(2) j(3), of "k\<lparr>wait_active_resp := False\<rparr>"] Cons.prems(3) j(1) c1 show ?case by auto
qed simp

subsection \<open>The whole way in\<close>

text \<open>C5: a long text arrives through a connection. The units another gateway has written for a deliver
  message with an ASCII text of up to 34170 bytes are read by the task of a connection in use, which hands
  their messages to its account in order and goes on; the task of the account takes them and publishes
  exactly one message, with the original text.\<close>

theorem long_text_delivered:
  assumes "encode_message p x json w = Some (Inr out, json', w')" and "of_type ''Deliver'' json"
    and "idx json MSG_FMT = JNum 0" and "idx json MSG_CONTENT = JStr text" and "ascii text"
    and "140 < length text" and "length text \<le> 34170"
    and "clean (src_width p) (str_or_empty (idx json SRC_ID))" and "clean 21 (str_or_empty (idx json DEST_ID))"
    and "mpsc_ok m" and "\<And>b n. fst (sock_send s b n)" and "in_use m p c"
    and "map_of (long_sms_cache ctx) (str_or_empty (idx json SRC_ID) @ str_or_empty (idx json DEST_ID)) = None"
  shows "\<exists>us msgs k' c' ctx' sent. split_frames out = Some us \<and>
    read_turns m s x (map (\<lambda>u. Frame (drop 4 u)) us) k c = Some (True, k', c') \<and>
    account_queue m c' = account_queue m c @ msgs \<and>
    receive_all m (map (\<lambda>i. (t i, msgs ! i)) [0..<length msgs]) save ctx = Some (save, ctx') \<and>
    to_queue ctx' = to_queue ctx @ [(TOPIC_TO_B_DELIVER, [], sent)] \<and> idx sent MSG_CONTENT = JStr text"
proof -
  obtain us msgs where us: "split_frames out = Some us" "map (\<lambda>u. decode_frame p x (drop 4 u)) us = map Ok msgs"
    "concat (map (\<lambda>j. str_or_empty (idx j MSG_CONTENT)) msgs) = text"
    and parts: "parts_of (str_or_empty (idx json SRC_ID) @ str_or_empty (idx json DEST_ID)) (of_nat (length msgs)) msgs"
      "list_all (deliver_part (of_nat (length msgs))) msgs"
    using deliver_parts [OF assms(1-9)] by auto
  have ty: "list_all (of_type ''Deliver'') msgs" using parts(2) by (auto simp: list_all_iff deliver_part_def of_type_def as_str_Some)
  have "map (decode_frame p x) (map (drop 4) us) = map Ok msgs" using us(2) by (simp add: comp_def)
  from deliver_turns [OF assms(10,11,12) this ty, of k] obtain k' c' where
    "read_turns m s x (map (\<lambda>u. Frame (drop 4 u)) us) k c = Some (True, k', c')"
    "account_queue m c' = account_queue m c @ msgs"
    by (auto simp: comp_def)
  moreover have "set [0..<length msgs] = {..<length msgs}" by auto
  from long_deliver_published [OF parts this distinct_upt assms(13), of m t save] us(3)
  have "\<exists>ctx' sent. receive_all m (map (\<lambda>i. (t i, msgs ! i)) [0..<length msgs]) save ctx = Some (save, ctx') \<and>
    to_queue ctx' = to_queue ctx @ [(TOPIC_TO_B_DELIVER, [], sent)] \<and> idx sent MSG_CONTENT = JStr text" by auto
  ultimately show ?thesis using us(1) by blast
qed

definition demo_inbound :: "(bool \<times> json list, bool \<times> buf list) conn" where
  "demo_inbound = demo_conn CMPP32 10 [] []"

text \<open>A socket that takes everything.\<close>

definition demo_sink :: "buf list socket" where
  "demo_sink = \<lparr>sock_send = (\<lambda>b n. (True, n @ [b])), sock_sent = id\<rparr>"

definition demo_sunk :: "(bool \<times> json list, buf list) conn" where
  "demo_sunk = \<lparr>chan = chan demo_inbound, framed = [], codec_protocol = CMPP32, globals = demo_world, published = []\<rparr>"

lemma demo_sunk_in_use: "in_use demo_mpsc CMPP32 demo_sunk" "account_queue demo_mpsc demo_sunk = []"
  by (simp_all add: in_use_def demo_sunk_def demo_inbound_def demo_conn_def account_open_def account_queue_def)

lemma long_text_delivered_witness:
  "\<exists>out json' w' us msgs k' c' ctx' sent. encode_message CMPP32 demo_ext demo_long_text demo_world = Some (Inr out, json', w') \<and>
     split_frames out = Some us \<and>
     read_turns demo_mpsc demo_sink demo_ext (map (\<lambda>u. Frame (drop 4 u)) us) demo_work demo_sunk = Some (True, k', c') \<and>
     account_queue demo_mpsc c' = msgs \<and>
     receive_all demo_mpsc (map (\<lambda>i. (0, msgs ! i)) [0..<length msgs]) [] (demo_context Custom 0 []) = Some ([], ctx') \<and>
     to_queue ctx' = [(TOPIC_TO_B_DELIVER, [], sent)] \<and> idx sent MSG_CONTENT = JStr (replicate 150 CHR ''a'')"
proof -
  let ?t = "replicate 150 CHR ''a''"
  have f: "of_type ''Deliver'' demo_long_text" "idx demo_long_text MSG_FMT = JNum 0" "idx demo_long_text MSG_CONTENT = JStr ?t"
    "idx demo_long_text SRC_ID = JStr ''10690001''" "idx demo_long_text DEST_ID = JStr ''13800000000''"
    by (simp_all add: demo_long_text_def of_type_def)
  have "deliver_ready CMPP32 demo_long_text"
    using demo_deliver_ready [of CMPP32] by (simp add: deliver_ready_def demo_long_text_def of_type_def)
  then obtain out json' w' where e: "encode_message CMPP32 demo_ext demo_long_text demo_world = Some (Inr out, json', w')"
    using deliver_ready_encodes [of CMPP32 demo_long_text demo_ext "as_bytes ?t" demo_world]
      ascii_content_code [OF f(2,3), of demo_ext] by auto
  have a: "ascii ?t" by (simp add: ascii_def)
  have s: "fst (sock_send demo_sink b n)" for b n by (simp add: demo_sink_def)
  have cl: "clean (src_width CMPP32) (str_or_empty (idx demo_long_text SRC_ID))" "clean 21 (str_or_empty (idx demo_long_text DEST_ID))"
    using f(4,5) by (simp_all add: str_or_empty_def clean_def src_width_def no_trailing_nul_def)
  have "map_of (long_sms_cache (demo_context Custom 0 [])) (str_or_empty (idx demo_long_text SRC_ID) @ str_or_empty (idx demo_long_text DEST_ID)) = None"
    by simp
  from long_text_delivered [OF e f(1-3) a _ _ cl demo_mpsc_ok s demo_sunk_in_use(1) this, of demo_work "\<lambda>_. 0" "[]"] e demo_sunk_in_use(2)
  show ?thesis by simp
qed

end
