(* ===== verification/Handshake.thy ===== *)
theory Handshake
  imports Replies Typed Sessions
begin

text \<open>
  Two gateways that talk to each other: the login one sends and the other checks, and the answers that
  come back.
\<close>

subsection \<open>Logging in\<close>

lemma auth_tail_number: "auth_tail a = auth_number a"
  by (simp add: auth_tail_def auth_number_def)

text \<open>What the login of an account says to the login message of a peer.\<close>

definition login_reply :: "ext \<Rightarrow> protocol \<Rightarrow> string \<Rightarrow> string \<Rightarrow> string \<Rightarrow> u32 \<Rightarrow> u32 \<Rightarrow> json \<Rightarrow> (SmsStatus \<times> json) option \<times> protocol" where
  "login_reply x p name given known time version j =
     (if auth_number (get_auth p x name known time) \<noteq> auth_number (get_auth p x name given time) then (Some (AuthError, j), p)
      else if \<not> has p version then (Some (VersionError, j), p)
      else (None, match_version p version))"

lemma get_auth_impl: "p \<noteq> NoProtocol \<Longrightarrow> get_auth p x = impl_get_auth p x"
  by (cases p) (simp_all add: fun_eq_iff)

text \<open>C18: what a link sends to log in is what the other side reads. In every protocol but SGIP the login
  message is one unit, it decodes to a login with the name it was given, and the account of that name
  admits it from an allowed address exactly when the digest of its own password agrees in the last
  eight bytes with that of the password sent, and the protocol has the version.\<close>

theorem login_read_back:
  assumes "encode_message p x json w = Some (Inr out, json', w')" and "of_type ''Connect'' json"
    and "p \<noteq> SGIP" and "ext_ok x"
    and "as_str (idx json LOGIN_NAME) = Some name" and "as_str (idx json PASSWORD) = Some password"
    and "as_u8 (idx json VERSION) = Some version" and "clean (name_width p) name"
    and "get_login_name en = name" and "check_addr_range (get_allow_ips en) ip"
  shows "\<exists>j. split_frames out = Some [out] \<and> decode_frame p x (drop 4 out) = Ok j \<and>
    of_type ''Connect'' j \<and> idx j LOGIN_NAME = JStr name \<and>
    login x en j p ip = login_reply x p name password (get_password en) (fst (get_time w)) (ucast version) j"
proof -
  have p: "p \<noteq> NoProtocol" using assms(1) by (auto simp: encode_message_def)
  obtain j where j: "decode_frame p x (drop 4 out) = Ok j"
    "login_read name (auth_tail (impl_get_auth p x name password (fst (get_time w)))) (fst (get_time w)) version j"
    using login_unit [OF assms(1-8)] by blast
  have "split_frames out = Some [out]"
    using fixed_message_frame [OF assms(1,4,2)] split_frames_single by simp
  moreover have "login x en j p ip = login_reply x p name password (get_password en) (fst (get_time w)) (ucast version) j"
    using j(2) assms(9,10) by (simp add: login_def login_reply_def login_read_def auth_tail_number get_auth_impl [OF p] Let_def)
  ultimately show ?thesis using j by (auto simp: login_read_def)
qed

lemma login_read_back_witness:
  "\<exists>out json' w' j. encode_message CMPP48 demo_ext (demo_json ''Connect'') demo_world = Some (Inr out, json', w') \<and>
     decode_frame CMPP48 demo_ext (drop 4 out) = Ok j \<and>
     login demo_ext (CustomEntity (demo_custom ''secret'')) j CMPP48 (V4 1 2 3 4) = (None, CMPP48)"
proof -
  have "fits 6 ''901234''" by (auto intro!: ascii_fits ascii_example)
  then obtain out json' w' where
    e: "encode_message CMPP48 demo_ext (demo_json ''Connect'') demo_world = Some (Inr out, json', w')"
    by (simp add: encode_message_def default_encode_connect_def succeed_def Let_def split_def as_word.simps)
  have v: "as_u8 (idx (demo_json ''Connect'') VERSION) = Some 48" by (simp add: as_word.simps)
  have m: "match_version CMPP48 48 = CMPP48" by (simp add: match_version_simps)
  show ?thesis
    using login_read_back [OF e demo_of_type _ demo_ext_ok _ _ v, of "''901234''" "''secret''"
        "CustomEntity (demo_custom ''secret'')" "V4 1 2 3 4"] any_address e m
    by (fastforce simp: demo_custom_def new_custom_def clean_def name_width_def no_trailing_nul_def login_reply_def)
qed

subsection \<open>Answers\<close>

text \<open>C20: an answer says what it answers. Except in SGIP, and for CMPP 2.0 with a known status, the answer to
  a submit message decodes to one with the sequence number of the message, the code of the status, and the
  id that the answering side goes on with. The answer to a deliver message does too in CMPP and SMPP, with the id the message had.\<close>

theorem answer_read_back:
  assumes "encode_receipt p st json w = Some (Some out, json', w')" and "p \<noteq> SGIP"
    and "p = CMPP32 \<longrightarrow> st \<noteq> StatusUnknown" and "as_u32 (idx json MSG_TYPE_U32) = Some (get_type_id p t)"
    and "t = Submit \<or> t = Deliver \<and> p \<noteq> SMGP \<and> idx json MSG_ID = JStr (cmpp_msg_id_u64_to_str mid)"
  shows "\<exists>j. split_frames out = Some [out] \<and> decode_frame p x (drop 4 out) = Ok j \<and>
    of_type (if t = Submit then ''SubmitResp'' else ''DeliverResp'') j \<and>
    as_u32 (idx j SEQ_ID) = as_u32 (idx json SEQ_ID) \<and> idx j RESULT = num (get_status_id p st) \<and>
    idx j MSG_ID = (if t = Submit then idx json' MSG_ID else idx json MSG_ID)"
proof -
  have p: "p \<noteq> NoProtocol" using assms(1) by (auto simp: encode_receipt_def no_reply_def)
  have "split_frames out = Some [out]"
    using receipt_frame [OF assms(1)] assms(2) split_frames_single by simp
  moreover from assms(5) show ?thesis
  proof
    assume "t = Submit"
    with submit_answer [OF assms(1-3), of x] assms(4) calculation show ?thesis by (auto simp: answer_read_def)
  next
    assume d: "t = Deliver \<and> p \<noteq> SMGP \<and> idx json MSG_ID = JStr (cmpp_msg_id_u64_to_str mid)"
    have "p \<in> {CMPP48, CMPP32, SMPP}" using assms(2) d p by (cases p) auto
    with deliver_answer [OF assms(1) _ assms(3), of mid x] assms(4) d calculation show ?thesis
      by (auto simp: answer_read_def)
  qed
qed

definition demo_received :: "protocol \<Rightarrow> MsgType \<Rightarrow> string \<Rightarrow> json" where
  "demo_received p t mid = JObj [(MSG_TYPE_U32, num (get_type_id p t)), (SEQ_ID, JNum 7), (MSG_ID, JStr mid),
     (DEST_IDS, JArr [JStr ''13800000000''])]"

lemma demo_received_fields [simp]:
  "idx (demo_received p t mid) MSG_TYPE_U32 = num (get_type_id p t)" "idx (demo_received p t mid) SEQ_ID = JNum 7"
  "idx (demo_received p t mid) MSG_ID = JStr mid" "idx (demo_received p t mid) DEST_IDS = JArr [JStr ''13800000000'']"
  by (simp_all add: demo_received_def)

lemma demo_received_type: "as_u32 (idx (demo_received p t mid) MSG_TYPE_U32) = Some (get_type_id p t)"
  unfolding demo_received_fields by (rule as_word_num)

lemma answer_read_back_witness:
  "\<exists>out json' w' j. encode_receipt CMPP48 Success (demo_received CMPP48 Submit []) demo_world = Some (Some out, json', w') \<and>
     decode_frame CMPP48 demo_ext (drop 4 out) = Ok j \<and> of_type ''SubmitResp'' j \<and>
     as_u32 (idx j SEQ_ID) = Some 7 \<and> idx j RESULT = JNum 0 \<and> idx j MSG_ID = idx json' MSG_ID"
proof -
  have q: "as_u32 (JNum 7) = Some 7" by (simp add: as_word.simps)
  obtain out json' w' where
    e: "encode_receipt CMPP48 Success (demo_received CMPP48 Submit []) demo_world = Some (Some out, json', w')"
    by (simp add: encode_receipt_def type_back default_encode_submit_resp_def reply_def Let_def split_def q
        del: get_type_id.simps get_type_enum.simps)
  then show ?thesis
    using answer_read_back [OF e _ _ demo_received_type, of 0 demo_ext] by (auto simp: q)
qed

text \<open>C38: an SMGP gateway that answers a deliver message stops the connection of the other. The answer has an
  id of eight bytes where SMGP has ten, and a peer that is this program panics when it reads it: the task
  of its connection ends without a word to the account.\<close>

theorem smgp_deliver_answer_panics:
  assumes "encode_receipt SMGP st json w = Some (Some out, json', w')"
    and "as_u32 (idx json MSG_TYPE_U32) = Some (get_type_id SMGP Deliver)" and "codec_protocol c = SMGP"
  shows "split_frames out = Some [out] \<and> read_turn m s x (Frame (drop 4 out)) k c = None"
proof
  show "split_frames out = Some [out]"
    using receipt_frame [OF assms(1)] split_frames_single by simp
  show "read_turn m s x (Frame (drop 4 out)) k c = None"
    using smgp_deliver_answer [OF assms(1,2), of x] assms(3) by (simp add: read_turn_def)
qed

text \<open>A SGIP gateway answers submit messages with a sequence number of its own making: once the counter of
  the peer has passed 65535, the number in the answer is never that of the message, so the peer cannot tell
  what is answered.\<close>

theorem sgip_answer_unmatched:
  assumes "encode_receipt SGIP st json w = Some (Some out, json', w')"
    and "as_u32 (idx json MSG_TYPE_U32) = Some (get_type_id SGIP Submit)"
    and "idx json MSG_ID = JStr (sgip_msg_id_u64_to_str node sq)" and "65536 \<le> take_bit 32 sq"
  shows "\<exists>j s. decode_frame SGIP x (drop 4 out) = Ok j \<and> of_type ''SubmitResp'' j \<and> as_u64 (idx j SEQ_ID) = Some s \<and>
    s \<noteq> sq"
proof -
  have "take_bit 16 sq < 65536"
    using take_bit_nat_less_exp [of 16 "unat sq"] by (simp add: word_less_nat_alt unsigned_take_bit_eq)
  then have "take_bit 32 sq \<noteq> take_bit 16 sq" using assms(4) by force
  then show ?thesis using sgip_submit_answer [OF assms(1-3), of x] by metis
qed

lemma smgp_deliver_answer_panics_witness:
  "\<exists>out json' w'. encode_receipt SMGP Success (demo_received SMGP Deliver []) demo_world = Some (Some out, json', w') \<and>
     split_frames out = Some [out] \<and>
     read_turn demo_mpsc demo_socket demo_ext (Frame (drop 4 out)) demo_work
       (demo_new_conn\<lparr>codec_protocol := SMGP\<rparr>) = None"
proof -
  have q: "as_u32 (JNum 7) = Some 7" by (simp add: as_word.simps)
  obtain out json' w' where
    e: "encode_receipt SMGP Success (demo_received SMGP Deliver []) demo_world = Some (Some out, json', w')"
    by (simp add: encode_receipt_def type_back default_encode_deliver_resp_def cmpp_msg_id_str_to_u64_def reply_def Let_def split_def q
        del: get_type_id.simps get_type_enum.simps)
  then show ?thesis using smgp_deliver_answer_panics [OF e demo_received_type, of "demo_new_conn\<lparr>codec_protocol := SMGP\<rparr>"] by simp
qed

lemma sgip_answer_unmatched_witness:
  "\<exists>out json' w' j s. encode_receipt SGIP Success (demo_received SGIP Submit (sgip_msg_id_u64_to_str 3 70000)) demo_world =
       Some (Some out, json', w') \<and>
     decode_frame SGIP demo_ext (drop 4 out) = Ok j \<and> as_u64 (idx j SEQ_ID) = Some s \<and> s \<noteq> 70000"
proof -
  let ?r = "demo_received SGIP Submit (sgip_msg_id_u64_to_str 3 70000)"
  have "65536 \<le> take_bit 32 (70000 :: u64)" by code_simp
  moreover obtain out json' w' where e: "encode_receipt SGIP Success ?r demo_world = Some (Some out, json', w')"
    using sgip_msg_id_roundtrip [of 3 70000]
    by (auto simp: encode_receipt_def type_back sgip_encode_submit_resp_def reply_def Let_def
        simp del: get_type_id.simps get_type_enum.simps)
  ultimately show ?thesis using sgip_answer_unmatched [OF e demo_received_type, of 3 70000 demo_ext] by auto
qed

subsection \<open>Status reports\<close>

lemma report_unit:
  assumes "encode_message p x json w = Some (Inr out, json', w')" and "of_type ''Report'' json" and "p \<in> {CMPP48, CMPP32, SMPP}"
    and "idx json MSG_ID = JStr (cmpp_msg_id_u64_to_str mid)" and "report_clean (if p = CMPP32 then 21 else 32) json"
  shows "\<exists>j. decode_frame p x (drop 4 out) = Ok j \<and> report_read json (cmpp_msg_id_u64_to_str mid) j"
proof -
  have "encode_report p json w = Some (Inr out, json', w')"
    using assms(1-3) by (auto simp: encode_message_def of_type_def split: if_splits)
  then show ?thesis
    using assms(3,5) default_report_unit [OF _ _ assms(4)] cmpp32_report_unit [OF _ assms(4)] by (cases p) simp_all
qed

lemma id_text_not_empty: "cmpp_msg_id_u64_to_str mid \<noteq> []"
  using cmpp_msg_id_u64_to_str_shape(1) [of mid] by auto

lemma report_published:
  assumes "report_read json mid j" and "mid \<noteq> []"
  shows "\<exists>c' sent. handle_from_channel_rx m now (Some j) save c = Some (True, save, c') \<and>
    to_queue c' = to_queue c @ [(TOPIC_TO_B_REPORT, [], sent)] \<and> idx sent MSG_ID = JStr mid \<and>
    idx sent STATE = idx json STATE"
  using assms
  by (auto simp: report_read_def handle_from_channel_rx_def on_channel_msg_def on_report_def of_type_def Let_def
      msg_type_from_str_def lookup_or_def strip_internal_def)

text \<open>C21: a status report gets through. In CMPP and SMPP a report one gateway writes is one unit, decodes to a
  report with the same numbers, state and times, and the account task that takes it publishes it with the id
  of the message it is about.\<close>

theorem report_read_back:
  assumes "encode_message p x json w = Some (Inr out, json', w')" and "of_type ''Report'' json" and "p \<in> {CMPP48, CMPP32, SMPP}"
    and "ext_ok x" and "idx json MSG_ID = JStr (cmpp_msg_id_u64_to_str mid)"
    and "report_clean (if p = CMPP32 then 21 else 32) json"
  shows "\<exists>j c' sent. split_frames out = Some [out] \<and> decode_frame p x (drop 4 out) = Ok j \<and> of_type ''Report'' j \<and>
    (\<forall>k \<in> {SRC_ID, DEST_ID, STATE, SUBMIT_TIME, DONE_TIME}. idx j k = idx json k) \<and>
    handle_from_channel_rx m now (Some j) save c = Some (True, save, c') \<and>
    to_queue c' = to_queue c @ [(TOPIC_TO_B_REPORT, [], sent)] \<and> idx sent MSG_ID = idx json MSG_ID"
proof -
  obtain j where j: "decode_frame p x (drop 4 out) = Ok j" "report_read json (cmpp_msg_id_u64_to_str mid) j"
    using report_unit [OF assms(1-3,5,6)] by blast
  have "split_frames out = Some [out]"
    using fixed_message_frame [OF assms(1,4,2)] assms(3) split_frames_single by auto
  then show ?thesis
    using report_published [OF j(2) id_text_not_empty, of m now save c] j assms(5) unfolding report_read_def by metis
qed

lemma report_read_back_witness:
  "\<exists>out json' w' j c' sent.
     encode_message CMPP48 demo_ext (setk (demo_json ''Report'') MSG_ID (JStr (cmpp_msg_id_u64_to_str 7))) demo_world = Some (Inr out, json', w') \<and>
     decode_frame CMPP48 demo_ext (drop 4 out) = Ok j \<and> idx j STATE = JStr ''DELIVRD'' \<and>
     handle_from_channel_rx demo_mpsc 0 (Some j) [] (demo_context Server 0 []) = Some (True, [], c') \<and>
     to_queue c' = [(TOPIC_TO_B_REPORT, [], sent)] \<and> idx sent MSG_ID = JStr (cmpp_msg_id_u64_to_str 7)"
proof -
  let ?j = "setk (demo_json ''Report'') MSG_ID (JStr (cmpp_msg_id_u64_to_str 7))"
  have t: "of_type ''Report'' ?j" by (simp add: of_type_def)
  obtain out json' w' where e: "encode_message CMPP48 demo_ext ?j demo_world = Some (Inr out, json', w')"
    by (simp add: encode_message_def default_encode_report_def cmpp_msg_id_roundtrip succeed_def Let_def split_def)
  have c: "report_clean (if CMPP48 = CMPP32 then 21 else 32) ?j"
    by (simp add: report_clean_def str_or_empty_def clean_def no_trailing_nul_def)
  show ?thesis
    using report_read_back [OF e t _ demo_ext_ok _ c, of 7 demo_mpsc 0 "[]" "demo_context Server 0 []"] e by auto
qed

subsection \<open>Nothing a peer sends stops the answer\<close>

lemma typed_setk: "k \<notin> {MSG_TYPE_U32, MSG_TYPE_STR, SEQ_ID, MSG_ID, DEST_IDS, SP_ID, VERSION} \<Longrightarrow> typed p (setk j k v) = typed p j"
  by (simp add: typed_def)

lemma answered_case:
  "r \<noteq> None \<Longrightarrow> (case r of None \<Rightarrow> None | Some (a, b, c) \<Rightarrow> Some (f a b c)) \<noteq> None"
  by (auto split: option.split prod.split)

lemma net_turn_total:
  assumes "typed (ch_protocol (chan c)) j" and "ch_protocol (chan c) \<noteq> NoProtocol"
  shows "net_turn m s x j k c \<noteq> None"
proof -
  have "typed (ch_protocol (chan c)) (setk j ID v)" for v using assms(1) by (simp add: typed_setk)
  then have "encode_receipt (ch_protocol (chan c)) st (if b then setk j ID v else j) w \<noteq> None" for st b v w
    using assms typed_answered by simp
  then show ?thesis unfolding net_turn_def Let_def by (intro answered_case)
qed

text \<open>C17: a connection that has read a message does not panic over it, whatever the peer has put in: of all
  that can come from the socket, only a frame the decoder itself panics on stops a turn.\<close>

theorem read_turn_panics_exactly:
  assumes "codec_protocol c = ch_protocol (chan c)" and "ch_protocol (chan c) \<noteq> NoProtocol"
  shows "read_turn m s x ev k c = None \<longleftrightarrow> (\<exists>b. ev = Frame b \<and> decode_frame (codec_protocol c) x b = None)"
proof (cases ev)
  case (Frame b)
  show ?thesis
  proof (cases "decode_frame (codec_protocol c) x b")
    case (Some r)
    then show ?thesis
      using Frame assms net_turn_total [OF decode_typed]
      by (cases r) (simp_all add: read_turn_def)
  qed (simp add: Frame read_turn_def)
qed (simp_all add: read_turn_def)

lemma read_turn_panics_exactly_witness:
  "read_turn demo_mpsc demo_socket demo_ext (Frame [0, 0, 0, 4]) demo_work demo_new_conn = None \<and>
   read_turn demo_mpsc demo_socket demo_ext ReadError demo_work demo_new_conn \<noteq> None"
proof -
  have c: "codec_protocol demo_new_conn = ch_protocol (chan demo_new_conn)" "ch_protocol (chan demo_new_conn) \<noteq> NoProtocol"
    by (simp_all add: demo_new_conn_def new_channel_def)
  have "decode_frame (codec_protocol demo_new_conn) demo_ext [0, 0, 0, 4] = None"
    by (simp add: decode_frame_def get_u32_def get_be_def)
  then show ?thesis by (simp add: read_turn_panics_exactly [OF c])
qed

end
