(* ===== verification/Consumer.thy ===== *)
theory Consumer
  imports Manager Sending
begin

text \<open>
  \<open>message_queue/kafka\<close>: the settings of the two clients, and the consumer, which hands what it
  receives to a queue and stores the offset of a message once it is there.

  The client of crate \<open>rdkafka\<close> is a parameter: it can be created with settings and subscribed to
  topics, either of which may fail.  What it receives afterwards is an argument of each turn, and
  \<open>offsets\<close> are the messages whose offset the code has asked it to store.  The parser of crate
  \<open>json\<close> is a parameter too.
\<close>

record ('e, 'k) kafka =
  kafka_create :: "(string \<times> string) list \<Rightarrow> 'e + 'k"
  kafka_subscribe :: "string list \<Rightarrow> 'k \<Rightarrow> 'e + 'k"

subsection \<open>The producer\<close>

definition producer_settings :: "string \<Rightarrow> (string \<times> string) list" where
  "producer_settings brokers =
     [(''bootstrap.servers'', brokers),
      (''linger.ms'', ''100''),
      (''metadata.request.timeout.ms'', ''10000''),
      (''socket.keepalive.enable'', ''true''),
      (''queue.buffering.max.ms'', ''3''),
      (''message.send.max.retries'', ''10'')]"

definition new_producer :: "('e, 'k) kafka \<Rightarrow> string \<Rightarrow> 'k option" where
  "new_producer k brokers =
     (case kafka_create k (producer_settings brokers) of Inr producer \<Rightarrow> Some producer | Inl _ \<Rightarrow> Panic)"

subsection \<open>Messages of Kafka\<close>

text \<open>\<open>payload_view::<str>()\<close>: no payload, one that is no UTF-8, or a text.\<close>

datatype payload = Absent | Broken | Body string

record kafka_msg =
  km_topic :: string
  km_payload :: payload
  km_offset :: nat

definition body_json :: "(string \<Rightarrow> json option) \<Rightarrow> kafka_msg \<Rightarrow> json option" where
  "body_json parse msg =
     (case km_payload msg of Body body \<Rightarrow> parse body | Broken \<Rightarrow> None | Absent \<Rightarrow> None)"

text \<open>The manager's own loop reads a message of its client in the same way.\<close>

definition business_of :: "(string \<Rightarrow> json option) \<Rightarrow> 'e + kafka_msg \<Rightarrow> business" where
  "business_of parse r =
     (case r of Inr msg \<Rightarrow> Record (km_topic msg) (body_json parse msg) | Inl _ \<Rightarrow> ReceiveError)"

subsection \<open>The consumer\<close>

record 'q kafka_consumer =
  brokers :: string
  group_id :: string
  group_instance_id :: string
  is_connection :: bool
  close_tx :: "'q option"

definition new_consumer :: "string \<Rightarrow> string \<Rightarrow> string \<Rightarrow> 'q kafka_consumer" where
  "new_consumer brokers' group_id' group_instance_id' =
     \<lparr>brokers = brokers', group_id = group_id', group_instance_id = group_instance_id',
      is_connection = False, close_tx = None\<rparr>"

text \<open>The queue of close messages carries numbers of one byte; the code sends a zero.\<close>

definition close_consumer :: "'q mpsc \<Rightarrow> 'q kafka_consumer \<Rightarrow> 'q kafka_consumer" where
  "close_consumer m c =
     (case close_tx c of
        Some tx \<Rightarrow> c\<lparr>close_tx := Some (snd (mpsc_send m (JNum 0) tx))\<rparr>
      | None \<Rightarrow> c)"

definition consumer_settings :: "'q kafka_consumer \<Rightarrow> (string \<times> string) list" where
  "consumer_settings c =
     [(''group.id'', group_id c),
      (''group.instance.id'', group_instance_id c),
      (''bootstrap.servers'', brokers c),
      (''session.timeout.ms'', ''6000''),
      (''auto.offset.reset'', ''earliest''),
      (''enable.auto.commit'', ''true''),
      (''auto.commit.interval.ms'', ''5000''),
      (''enable.auto.offset.store'', ''false'')]"

text \<open>\<open>start\<close> up to its loop; \<open>q\<close> is the new queue of close messages.\<close>

definition start_consumer ::
    "('e, 'k) kafka \<Rightarrow> string list \<Rightarrow> 'q \<Rightarrow> 'q kafka_consumer \<Rightarrow> ('e + 'k) \<times> 'q kafka_consumer" where
  "start_consumer k topics q c =
     (case kafka_create k (consumer_settings c) of
        Inl e \<Rightarrow> (Inl e, c)
      | Inr client \<Rightarrow>
          (case kafka_subscribe k topics client of
             Inl e \<Rightarrow> (Inl e, c)
           | Inr client \<Rightarrow> (Inr client, c\<lparr>is_connection := True, close_tx := Some q\<rparr>)))"

text \<open>
  The loop: the branch of \<open>select!\<close> that is taken.  The result says whether the loop goes on; where
  it does not, \<open>start\<close> returns \<open>Ok\<close>.
\<close>

datatype consumer_wake = Arrived kafka_msg | ReceiveFailed | CloseAsked

record 'q consume =
  this_consumer :: "'q kafka_consumer"
  business_tx :: 'q
  offsets :: "kafka_msg list"
  rested :: nat

definition arrived_turn ::
    "'q mpsc \<Rightarrow> (string \<Rightarrow> json option) \<Rightarrow> kafka_msg \<Rightarrow> 'q consume \<Rightarrow> bool \<times> 'q consume" where
  "arrived_turn m parse msg s =
     (case body_json parse msg of
        None \<Rightarrow> (True, s)
      | Some json_msg \<Rightarrow>
          (let json_msg = setk json_msg ''topic'' (JStr (km_topic msg));
               (ok, q) = mpsc_send m json_msg (business_tx s);
               s = s\<lparr>business_tx := q\<rparr>
           in if \<not> ok then (False, s) else (True, s\<lparr>offsets := offsets s @ [msg]\<rparr>)))"

definition close_turn :: "'q mpsc \<Rightarrow> 'q consume \<Rightarrow> bool \<times> 'q consume" where
  "close_turn m s =
     (case close_tx (this_consumer s) of
        None \<Rightarrow> (True, s)
      | Some q \<Rightarrow>
          (let (msg, q) = mpsc_recv m q;
               s = s\<lparr>this_consumer := (this_consumer s)\<lparr>close_tx := Some q\<rparr>\<rparr>
           in (case msg of Some (Some _) \<Rightarrow> (False, s) | _ \<Rightarrow> (True, s))))"

definition consume_turn ::
    "'q mpsc \<Rightarrow> (string \<Rightarrow> json option) \<Rightarrow> consumer_wake \<Rightarrow> 'q consume \<Rightarrow> bool \<times> 'q consume" where
  "consume_turn m parse w s =
     (case w of
        Arrived msg \<Rightarrow> arrived_turn m parse msg s
      | ReceiveFailed \<Rightarrow> (True, s\<lparr>rested := rested s + 2\<rparr>)
      | CloseAsked \<Rightarrow> close_turn m s)"

fun consume_loop ::
    "'q mpsc \<Rightarrow> (string \<Rightarrow> json option) \<Rightarrow> consumer_wake list \<Rightarrow> 'q consume \<Rightarrow> bool \<times> 'q consume" where
  "consume_loop m parse [] s = (True, s)"
| "consume_loop m parse (w # ws) s =
     (let (go, s) = consume_turn m parse w s in if go then consume_loop m parse ws s else (False, s))"

subsection \<open>What is handed on and stored\<close>

definition handed_on :: "(string \<Rightarrow> json option) \<Rightarrow> kafka_msg \<Rightarrow> json" where
  "handed_on parse msg = setk (the (body_json parse msg)) ''topic'' (JStr (km_topic msg))"

fun readable :: "(string \<Rightarrow> json option) \<Rightarrow> consumer_wake \<Rightarrow> kafka_msg list" where
  "readable parse (Arrived msg) = (if body_json parse msg = None then [] else [msg])"
| "readable parse _ = []"

text \<open>How a turn may end the loop.\<close>

fun ends_loop :: "'q mpsc \<Rightarrow> (string \<Rightarrow> json option) \<Rightarrow> 'q consume \<Rightarrow> consumer_wake \<Rightarrow> bool" where
  "ends_loop m parse s (Arrived msg) = (body_json parse msg \<noteq> None \<and> mpsc_is_closed m (business_tx s))"
| "ends_loop m parse s ReceiveFailed = False"
| "ends_loop m parse s CloseAsked = (close_tx (this_consumer s) \<noteq> None)"

text \<open>What a list of turns has done to the queue and the offsets.\<close>

definition progressed ::
    "'q mpsc \<Rightarrow> (string \<Rightarrow> json option) \<Rightarrow> kafka_msg list \<Rightarrow> 'q consume \<Rightarrow> 'q consume \<Rightarrow> bool" where
  "progressed m parse msgs s s' \<longleftrightarrow>
     offsets s' = offsets s @ msgs \<and>
     mpsc_contents m (business_tx s') = mpsc_contents m (business_tx s) @ map (handed_on parse) msgs \<and>
     mpsc_is_closed m (business_tx s') = mpsc_is_closed m (business_tx s) \<and>
     (close_tx (this_consumer s') = None) = (close_tx (this_consumer s) = None)"

lemma progressed_append:
  "progressed m parse ms s s' \<Longrightarrow> progressed m parse ns s' t \<Longrightarrow> progressed m parse (ms @ ns) s t"
  by (simp add: progressed_def)

lemma consume_turn_progress:
  assumes "mpsc_ok m" and "consume_turn m parse w s = (go, s')"
  shows "if go then progressed m parse (readable parse w) s s' else progressed m parse [] s s' \<and> ends_loop m parse s w"
proof (cases w)
  case (Arrived msg)
  obtain ok q where "mpsc_send m (handed_on parse msg) (business_tx s) = (ok, q)" by fastforce
  with mpsc_send_law [OF assms(1) this] assms(2) Arrived show ?thesis
    by (cases "body_json parse msg")
      (auto simp: consume_turn_def arrived_turn_def Let_def handed_on_def progressed_def split: if_splits)
qed (use assms(2) in \<open>auto simp: consume_turn_def close_turn_def progressed_def split_def Let_def split: option.splits\<close>)

lemma ends_loop_progressed:
  "progressed m parse ms s s' \<Longrightarrow> ends_loop m parse s' w \<Longrightarrow> ends_loop m parse s w"
  by (cases w) (auto simp: progressed_def)

text \<open>C29: the consumer loses nothing it can read and stores no offset early.  Whatever arrives, the
  messages whose offsets it has stored are the readable ones among those it has dealt with, in their
  order, and exactly these are in the queue, each with its topic.  It deals with everything
  unless it is closed or a readable message meets a queue nobody reads; that message is not stored.\<close>

theorem consumer_at_least_once:
  assumes "mpsc_ok m" and "consume_loop m parse ws s = (go, s')"
  shows "\<exists>n. progressed m parse (concat (map (readable parse) (take n ws))) s s' \<and>
    (if go then n = length ws else n < length ws \<and> ends_loop m parse s (ws ! n))"
  using assms(2)
proof (induction ws arbitrary: s)
  case Nil
  then show ?case by (simp add: progressed_def)
next
  case (Cons w ws)
  obtain g t where t: "consume_turn m parse w s = (g, t)" by fastforce
  note p = consume_turn_progress [OF assms(1) t]
  show ?case
  proof (cases g)
    case False
    then show ?thesis using p Cons.prems t by (intro exI [of _ 0]) simp
  next
    case True
    then obtain n where n: "progressed m parse (concat (map (readable parse) (take n ws))) t s'"
      "if go then n = length ws else n < length ws \<and> ends_loop m parse t (ws ! n)"
      using Cons t by auto
    have "progressed m parse (concat (map (readable parse) (take (Suc n) (w # ws)))) s s'"
      using progressed_append [OF _ n(1)] p True by simp
    moreover have "if go then Suc n = length (w # ws) else Suc n < length (w # ws) \<and> ends_loop m parse s ((w # ws) ! Suc n)"
      using n(2) ends_loop_progressed p True by (auto split: if_splits)
    ultimately show ?thesis by blast
  qed
qed

definition demo_parse :: "string \<Rightarrow> json option" where
  "demo_parse body = (if body = ''{}'' then Some new_object else None)"

definition demo_kafka_msg :: "payload \<Rightarrow> nat \<Rightarrow> kafka_msg" where
  "demo_kafka_msg p n = \<lparr>km_topic = TOPIC_FROM_B_SUBMIT, km_payload = p, km_offset = n\<rparr>"

definition demo_consume :: "bool \<Rightarrow> (bool \<times> json list) consume" where
  "demo_consume open =
     \<lparr>this_consumer = new_consumer [] [] [], business_tx = (open, []), offsets = [], rested = 0\<rparr>"

lemma consumer_at_least_once_witness:
  "\<exists>s n. consume_loop demo_mpsc demo_parse
      [Arrived (demo_kafka_msg Absent 1), Arrived (demo_kafka_msg (Body ''{}'') 2), ReceiveFailed,
       Arrived (demo_kafka_msg (Body ''x'') 3)] (demo_consume True) = (True, s) \<and>
     progressed demo_mpsc demo_parse (concat (map (readable demo_parse) (take n
      [Arrived (demo_kafka_msg Absent 1), Arrived (demo_kafka_msg (Body ''{}'') 2), ReceiveFailed,
       Arrived (demo_kafka_msg (Body ''x'') 3)]))) (demo_consume True) s \<and> n = 4 \<and>
     offsets s = [demo_kafka_msg (Body ''{}'') 2] \<and> rested s = 2"
proof -
  let ?ws = "[Arrived (demo_kafka_msg Absent 1), Arrived (demo_kafka_msg (Body ''{}'') 2), ReceiveFailed,
       Arrived (demo_kafka_msg (Body ''x'') 3)]"
  obtain go s where s: "consume_loop demo_mpsc demo_parse ?ws (demo_consume True) = (go, s)" by fastforce
  have f: "go \<and> offsets s = [demo_kafka_msg (Body ''{}'') 2] \<and> rested s = 2"
    using s by (auto simp: consume_turn_def arrived_turn_def body_json_def demo_kafka_msg_def demo_parse_def demo_consume_def Let_def)
  show ?thesis
    using consumer_at_least_once [OF demo_mpsc_ok s] s f by auto
qed

end
