(* ===== verification/Starting.thy ===== *)
theory Starting
  imports Consumer
begin

text \<open>
  The start of the gateway: \<open>main.rs\<close>, \<open>EntityManager::get_entity_manager\<close> and its \<open>start\<close>,
  \<open>start_service\<close> of \<open>entity/services.rs\<close>, and the configuration and the values made at the first use of \<open>global.rs\<close>.

  The files are an argument, a map from names to texts; the Kafka client and the JSON parser are the
  parameters of theory Consumer; printing of JSON, parsing of a setting and the builder of the Tokio
  runtime are parameters here.  The set-up of the log is not modelled.
\<close>

subsection \<open>Configuration\<close>

definition load_config_file ::
    "(string \<Rightarrow> string option) \<Rightarrow> (string \<Rightarrow> json option) \<Rightarrow> string \<Rightarrow> json option" where
  "load_config_file files parse file_name =
     (case files file_name of None \<Rightarrow> Panic | Some file_text \<Rightarrow> parse file_text)"

definition message_sender ::
    "('e, 'k) kafka \<Rightarrow> (string \<Rightarrow> string option) \<Rightarrow> (string \<Rightarrow> json option) \<Rightarrow> 'k option \<Rightarrow> 'k option" where
  "message_sender k files parse kept =
     (case kept of
        Some p \<Rightarrow> Some p
      | None \<Rightarrow>
          (case load_config_file files parse ''config/message_receiver.json'' of
             None \<Rightarrow> Panic
           | Some config \<Rightarrow>
               (case as_str (idx (idx config ''bootstrap'') ''servers'') of
                  None \<Rightarrow> Panic
                | Some servers \<Rightarrow> new_producer k servers)))"

text \<open>
  A setting with a default.  \<open>config\<close> is \<open>CONFIG\<close>, read at its first use from \<open>config/setting.json\<close>; \<open>dump\<close>
  prints a value, \<open>from_str\<close> is \<open>T::from_str\<close>.
\<close>

definition CONFIG :: "(string \<Rightarrow> string option) \<Rightarrow> (string \<Rightarrow> json option) \<Rightarrow> json option" where
  "CONFIG files parse = load_config_file files parse ''config/setting.json''"

definition get_config_or :: "(json \<Rightarrow> string) \<Rightarrow> (string \<Rightarrow> 'a option) \<Rightarrow> json option \<Rightarrow> string \<Rightarrow> 'a \<Rightarrow> 'a option" where
  "get_config_or dump from_str config name fallback =
     (case config of
        None \<Rightarrow> Panic
      | Some config \<Rightarrow> Some (case from_str (dump (idx config name)) of Some result \<Rightarrow> result | None \<Rightarrow> fallback))"

text \<open>A setting that is missing is printed as null: the default counts unless null can be parsed.\<close>

lemma get_config_or_missing:
  assumes "idx config name = JNull" and "from_str (dump JNull) = None"
  shows "get_config_or dump from_str (Some config) name fallback = Some fallback"
  using assms by (simp add: get_config_or_def)

subsection \<open>Values made at the first use\<close>

text \<open>
  \<open>kept\<close> is the static variable; a result that is kept is the one every later call gets.  \<open>build\<close> is the
  builder of the runtime, \<open>cpus\<close> what \<open>num_cpus\<close> counts.  A thread that starts draws the next number.
\<close>

record runtime_builder =
  worker_threads :: nat
  thread_stack_size :: nat
  all_enabled :: bool

definition thread_name :: "u64 \<Rightarrow> string \<times> u64" where
  "thread_name atomic_id = (let i = atomic_id; atomic_id = atomic_id + 1 in (''w_'' @ fmt_dec 1 (unat i), atomic_id))"

definition get_runtime :: "(runtime_builder \<Rightarrow> 'r option) \<Rightarrow> nat \<Rightarrow> 'r option \<Rightarrow> 'r option" where
  "get_runtime build cpus kept =
     (case kept of
        Some r \<Rightarrow> Some r
      | None \<Rightarrow>
          (let thread_num = cpus
           in build \<lparr>worker_threads = thread_num + 2, thread_stack_size = 5 * 1024 * 1024, all_enabled = True\<rparr>))"

definition get_producers :: "(string \<times> 'k) list option \<Rightarrow> (string \<times> 'k) list" where
  "get_producers kept = (case kept of Some producers \<Rightarrow> producers | None \<Rightarrow> [])"

definition get_wait_res :: "(u32 \<times> json) list option \<Rightarrow> (u32 \<times> json) list" where
  "get_wait_res kept = (case kept of Some waiting \<Rightarrow> waiting | None \<Rightarrow> [])"

text \<open>The names of the first threads are those of the numbers from zero on, and no two are equal.\<close>

fun thread_names :: "nat \<Rightarrow> u64 \<Rightarrow> string list" where
  "thread_names 0 atomic_id = []"
| "thread_names (Suc n) atomic_id = (let (name, atomic_id) = thread_name atomic_id in name # thread_names n atomic_id)"

lemma thread_names_eq:
  "unat i + n < 2 ^ 64 \<Longrightarrow> thread_names n i = map (\<lambda>k. ''w_'' @ fmt_dec 1 (unat i + k)) [0..<n]"
proof (induction n arbitrary: i)
  case (Suc n)
  then have u: "unat (i + 1) = Suc (unat i)" by (simp add: unat_word_ariths)
  show ?case using Suc by (simp add: thread_name_def Let_def u map_upt_Suc del: upt_Suc)
qed simp

lemma radix_digits_inverse: "digits_value 10 (radix_digits 10 n) = n"
proof (induction n rule: less_induct)
  case (less n)
  show ?case
  proof (cases "n < 10")
    case False
    then have "digits_value 10 (radix_digits 10 (n div 10)) = n div 10" by (intro less) simp
    with False show ?thesis by (subst radix_digits.simps) (simp add: digits_value_append digits_value_def)
  qed (subst radix_digits.simps, simp add: digits_value_def)
qed

lemma fmt_dec_inj: "fmt_dec 1 m = fmt_dec 1 n \<longleftrightarrow> m = n"
proof
  have "radix_digits 10 k \<noteq> []" for k by (subst radix_digits.simps) simp
  then have f: "fmt_dec 1 k = map digit_char (radix_digits 10 k)" for k
    by (simp add: fmt_dec_def pad_zero_def Suc_le_eq)
  have "inj_on digit_char (set (radix_digits 10 m) \<union> set (radix_digits 10 n))"
    by (rule inj_onI) (auto simp: digit_char_def dest!: radix_digits_less [rotated])
  moreover assume "fmt_dec 1 m = fmt_dec 1 n"
  ultimately have "radix_digits 10 m = radix_digits 10 n"
    unfolding f by (simp add: inj_on_map_eq_map)
  then show "m = n" by (metis radix_digits_inverse)
qed simp

lemma thread_names_distinct: "n < 2 ^ 64 \<Longrightarrow> distinct (thread_names n 0)"
  by (simp add: thread_names_eq distinct_map inj_on_def fmt_dec_inj [unfolded One_nat_def])

subsection \<open>The manager\<close>

record 'k entity_manager =
  is_active :: bool
  from_servers :: "'k option"

definition subscribed_topics :: "string list" where
  "subscribed_topics =
     [''account.modify'', ''account.add'', ''account.remove'', ''passage.modify'', ''passage.add'',
      ''passage.remove'', ''passage.init'', ''account.init'', TOPIC_PASSAGE_REQUEST_STATE,
      TOPIC_FROM_B_SUBMIT, TOPIC_FROM_B_DELIVER, TOPIC_FROM_B_REPORT]"

definition manager_settings :: "json \<Rightarrow> (string \<times> string) list option" where
  "manager_settings config =
     (case as_str (idx (idx (idx config ''group'') ''instance'') ''id'') of
        None \<Rightarrow> Panic
      | Some instance_id \<Rightarrow>
          (case as_str (idx (idx config ''group'') ''id'') of
             None \<Rightarrow> Panic
           | Some gid \<Rightarrow>
               (case as_str (idx (idx config ''bootstrap'') ''servers'') of
                  None \<Rightarrow> Panic
                | Some servers \<Rightarrow>
                    Some [(''group.instance.id'', instance_id),
                      (''group.id'', gid),
                      (''bootstrap.servers'', servers),
                      (''session.timeout.ms'', ''6000''),
                      (''auto.offset.reset'', ''earliest''),
                      (''enable.auto.commit'', ''true''),
                      (''auto.commit.interval.ms'', ''2000'')])))"

text \<open>\<open>from_servers\<close> is the client given to the task that runs the manager's loop.\<close>

definition start_manager ::
    "('e, 'k) kafka \<Rightarrow> json option \<Rightarrow> 'k entity_manager \<Rightarrow> ((io_error + unit) \<times> 'k entity_manager) option" where
  "start_manager k config em =
     (if is_active em then Some (Inl AlreadyExists, em)
      else
        case config of
          None \<Rightarrow> Panic
        | Some config \<Rightarrow>
            (case manager_settings config of
               None \<Rightarrow> Panic
             | Some options \<Rightarrow>
                 (case kafka_create k options of
                    Inl _ \<Rightarrow> Some (Inl NotConnected, em)
                  | Inr client \<Rightarrow>
                      (case kafka_subscribe k subscribed_topics client of
                         Inl _ \<Rightarrow> Some (Inl Other, em)
                       | Inr client \<Rightarrow> Some (Inr (), em\<lparr>is_active := True, from_servers := Some client\<rparr>)))))"

text \<open>The second component is the \<open>ENTITY_MANAGER\<close> afterwards.\<close>

definition get_entity_manager ::
    "('e, 'k) kafka \<Rightarrow> json option \<Rightarrow> 'k entity_manager option \<Rightarrow> 'k entity_manager option" where
  "get_entity_manager k config kept =
     (case kept of
        Some em \<Rightarrow> Some em
      | None \<Rightarrow> map_option snd (start_manager k config \<lparr>is_active = False, from_servers = None\<rparr>))"

subsection \<open>A service\<close>

text \<open>
  \<open>start_service\<close> of \<open>entity/services.rs\<close>: \<open>bound\<close> says whether the address could be bound, \<open>accepts\<close> what
  accepting gives, one after the other; the result is the connections it starts a task for.  The first
  failure ends the service.
\<close>

fun accept_all :: "(io_error + 'n) list \<Rightarrow> 'n list" where
  "accept_all [] = []"
| "accept_all (Inr socket # rest) = socket # accept_all rest"
| "accept_all (Inl _ # rest) = []"

definition start_service ::
    "protocol \<Rightarrow> world \<Rightarrow> io_error + unit \<Rightarrow> (io_error + 'n) list \<Rightarrow> ('q, 'n) conn list" where
  "start_service server_type w bound accepts =
     (case bound of
        Inr _ \<Rightarrow> map (\<lambda>socket. accept_conn server_type socket w) (accept_all accepts)
      | Inl _ \<Rightarrow> [])"

subsection \<open>The main program\<close>

record 'k gate =
  gate_manager :: "'k entity_manager option"
  gate_services :: "(string \<times> protocol) list"
  gate_published :: "event list"

text \<open>
  The panic of the task that makes the announcement leaves the rest of the program running, one
  of the main thread ends it.  The bool says whether the main thread stays.
\<close>

definition gate_main ::
    "('e, 'k) kafka \<Rightarrow> (string \<Rightarrow> string option) \<Rightarrow> (string \<Rightarrow> json option) \<Rightarrow> (bool \<times> 'k gate) option" where
  "gate_main k files parse =
     (case get_entity_manager k (load_config_file files parse ''config/message_receiver.json'') None of
        None \<Rightarrow> Panic
      | Some em \<Rightarrow>
          (case load_config_file files parse ''config/smsServer.json'' of
             None \<Rightarrow> Panic
           | Some config \<Rightarrow>
               (let (spawned, r) = services_of config;
                    g = \<lparr>gate_manager = Some em, gate_services = spawned, gate_published = []\<rparr>
                in case r of
                     None \<Rightarrow> Panic
                   | Some (Inl _) \<Rightarrow> Some (False, g)
                   | Some (Inr _) \<Rightarrow>
                       Some (True, case message_sender k files parse None of
                         None \<Rightarrow> g
                       | Some _ \<Rightarrow> g\<lparr>gate_published := [(TOPIC_TO_B_LOWER_COMPUTER_INIT, [], new_object)]\<rparr>))))"

subsection \<open>What the start promises\<close>

text \<open>An entry of the list of services that can be served.\<close>

definition service_entry :: "json \<Rightarrow> (string \<times> protocol) option" where
  "service_entry item =
     (case (as_str (idx item ''host''), as_str (idx item ''server_type'')) of
        (Some host, Some h) \<Rightarrow> map_option (Pair host) (protocol_from_str h)
      | _ \<Rightarrow> None)"

lemma start_services_all:
  "map service_entry items = map Some entries \<Longrightarrow> start_services items = (entries, Ok ())"
proof (induction items arbitrary: entries)
  case Nil
  then show ?case by simp
next
  case (Cons item items)
  then obtain h p es where "entries = (h, p) # es" and e: "service_entry item = Some (h, p)" "map service_entry items = map Some es"
    by (cases entries) auto
  moreover have "start_services items = (es, Ok ())" using Cons.IH e(2) by blast
  ultimately show ?case by (auto simp: service_entry_def split: option.splits)
qed

lemma manager_started:
  assumes "manager_settings config = Some options"
  shows "\<exists>em. get_entity_manager k (Some config) None = Some em \<and> is_active em = (from_servers em \<noteq> None) \<and>
    (is_active em \<longleftrightarrow> (\<exists>c c'. kafka_create k options = Inr c \<and> kafka_subscribe k subscribed_topics c = Inr c'))"
  using assms
  by (simp add: get_entity_manager_def start_manager_def split: sum.split)

lemma manager_servers:
  "manager_settings config = Some options \<Longrightarrow> \<exists>servers. as_str (idx (idx config ''bootstrap'') ''servers'') = Some servers"
  by (auto simp: manager_settings_def split: option.splits)

text \<open>C30: the gateway with complete configuration files starts: it opens every listed service and
  announces itself once, if a producer can be made.  The manager receives exactly when its
  client could be created and subscribed.  When it could not, services and announcement are the same,
  and no later use of the manager tries again.\<close>

theorem gate_starts:
  assumes "load_config_file files parse ''config/message_receiver.json'' = Some receiver"
    and "manager_settings receiver = Some options"
    and "load_config_file files parse ''config/smsServer.json'' = Some server"
    and "map service_entry (members (idx server ''config'')) = map Some entries"
  shows "\<exists>g em. gate_main k files parse = Some (True, g) \<and> gate_services g = entries \<and> gate_manager g = Some em \<and>
    gate_published g =
      (if message_sender k files parse None = None then [] else [(TOPIC_TO_B_LOWER_COMPUTER_INIT, [], new_object)]) \<and>
    is_active em = (from_servers em \<noteq> None) \<and>
    (is_active em \<longleftrightarrow> (\<exists>c c'. kafka_create k options = Inr c \<and> kafka_subscribe k subscribed_topics c = Inr c')) \<and>
    (\<forall>config. get_entity_manager k config (gate_manager g) = Some em)"
proof -
  obtain em where em: "get_entity_manager k (Some receiver) None = Some em" "is_active em = (from_servers em \<noteq> None)"
    "is_active em \<longleftrightarrow> (\<exists>c c'. kafka_create k options = Inr c \<and> kafka_subscribe k subscribed_topics c = Inr c')"
    using manager_started [OF assms(2), of k] by (elim exE conjE) (rule that)
  let ?g = "\<lparr>gate_manager = Some em, gate_services = entries,
    gate_published = (if message_sender k files parse None = None then [] else [(TOPIC_TO_B_LOWER_COMPUTER_INIT, [], new_object)])\<rparr>"
  have s: "services_of server = (entries, Ok ())" using start_services_all [OF assms(4)] by (simp add: services_of_def)
  have "gate_main k files parse = Some (True, ?g)"
    by (simp add: gate_main_def Let_def assms(1,3) em(1) s split: option.split)
  moreover have "get_entity_manager k config (gate_manager ?g) = Some em" for config
    by (simp add: get_entity_manager_def)
  ultimately show ?thesis by (intro exI [of _ ?g] exI [of _ em] conjI allI) (rule em | simp)+
qed

definition demo_receiver_config :: json where
  "demo_receiver_config =
     JObj [(''group'', JObj [(''id'', JStr ''g''), (''instance'', JObj [(''id'', JStr ''i'')])]),
       (''bootstrap'', JObj [(''servers'', JStr ''k:9092'')])]"

definition demo_server_config :: json where
  "demo_server_config =
     JObj [(''config'', JArr [JObj [(''host'', JStr ''0.0.0.0:7890''), (''server_type'', JStr ''CMPP'')]])]"

definition demo_files :: "string \<Rightarrow> string option" where
  "demo_files name = Some name"

definition demo_configs :: "string \<Rightarrow> json option" where
  "demo_configs text =
     (if text = ''config/message_receiver.json'' then Some demo_receiver_config
      else if text = ''config/smsServer.json'' then Some demo_server_config else None)"

text \<open>A client that refuses to subscribe.\<close>

definition demo_deaf_kafka :: "(unit, unit) kafka" where
  "demo_deaf_kafka = \<lparr>kafka_create = (\<lambda>_. Inr ()), kafka_subscribe = (\<lambda>_ _. Inl ())\<rparr>"

lemma gate_starts_witness:
  "\<exists>g em. gate_main demo_deaf_kafka demo_files demo_configs = Some (True, g) \<and>
     gate_services g = [(''0.0.0.0:7890'', CMPP48)] \<and> gate_manager g = Some em \<and>
     gate_published g = [(TOPIC_TO_B_LOWER_COMPUTER_INIT, [], new_object)] \<and> \<not> is_active em"
proof -
  have c: "load_config_file demo_files demo_configs ''config/message_receiver.json'' = Some demo_receiver_config"
    "load_config_file demo_files demo_configs ''config/smsServer.json'' = Some demo_server_config"
    by (simp_all add: load_config_file_def demo_files_def demo_configs_def)
  have s: "\<exists>st. manager_settings demo_receiver_config = Some st"
    by (simp add: manager_settings_def demo_receiver_config_def)
  then obtain st where s: "manager_settings demo_receiver_config = Some st" by blast
  have e: "map service_entry (members (idx demo_server_config ''config'')) = map Some [(''0.0.0.0:7890'', CMPP48)]"
    by (simp add: demo_server_config_def) code_simp
  have m: "message_sender demo_deaf_kafka demo_files demo_configs None \<noteq> None"
    by (simp add: message_sender_def c(1) demo_receiver_config_def new_producer_def demo_deaf_kafka_def)
  have d: "\<not> (\<exists>c c'. kafka_create demo_deaf_kafka st = Inr c \<and> kafka_subscribe demo_deaf_kafka subscribed_topics c = Inr c')"
    by (simp add: demo_deaf_kafka_def)
  from gate_starts [OF c(1) s c(2) e, of demo_deaf_kafka] m d show ?thesis by auto
qed

subsection \<open>The topics\<close>

text \<open>The manager subscribes to exactly the topics it acts on: a message of any other topic changes
  nothing, and for each of the twelve there is a state and a message that does.\<close>

theorem subscribed_topics_complete:
  assumes "mpsc_ok m" and "\<not> mpsc_is_closed m q"
  shows "topic \<in> set subscribed_topics \<longleftrightarrow> (\<exists>json s. handle_queue_msg m q q topic json s \<noteq> Some s)"
proof
  have "topic \<notin> set subscribed_topics \<Longrightarrow> handle_queue_msg m q q topic json s = Some s" for json s
    by (simp add: handle_queue_msg_def subscribed_topics_def)
  moreover assume "\<exists>json s. handle_queue_msg m q q topic json s \<noteq> Some s"
  ultimately show "topic \<in> set subscribed_topics" by blast
next
  assume t: "topic \<in> set subscribed_topics"
  let ?json = "JObj [(ID, JNum 1), (ADDRESS, JStr ''a'')]"
  have i: "str_or [] (JStr ''a'') = ''a''" by (simp add: str_or_def)
  let ?s = "(new_manage q)\<lparr>senders := [(1, q)], entitys := [(1, CustomEntity (custom_of 1 ?json))]\<rparr>"
  have send: "snd (mpsc_send m v q) \<noteq> q" for v
  proof
    assume "snd (mpsc_send m v q) = q"
    then have "mpsc_send m v q = (fst (mpsc_send m v q), q)" by (metis prod.collapse)
    from mpsc_send_law(3) [OF assms(1) this] assms(2) show False by simp
  qed
  have n: "num_or 0 (JNum 1) = (1 :: u32)" by (simp add: num_or_def as_word.simps)
  have l: "num_or 200 JNull = (200 :: u32)" by (simp add: num_or_def as_word.simps)
  note defs = handle_queue_msg_def n i Let_def remove_entity_def close_task_def new_manage_def
  consider (queue) "topic \<in> {TOPIC_FROM_B_SUBMIT, TOPIC_FROM_B_DELIVER, TOPIC_FROM_B_REPORT, TOPIC_PASSAGE_REQUEST_STATE}"
    | (account) "topic \<in> {TOPIC_ACCOUNT_ADD, TOPIC_ACCOUNT_INIT, TOPIC_ACCOUNT_MODIFY}"
    | (passage) "topic \<in> {TOPIC_PASSAGE_ADD, TOPIC_PASSAGE_INIT, TOPIC_PASSAGE_MODIFY}"
    | (remove) "topic \<in> {TOPIC_ACCOUNT_REMOVE, TOPIC_PASSAGE_REMOVE}"
    using t by (simp add: subscribed_topics_def) argo
  then have "\<exists>s'. handle_queue_msg m q q topic ?json ?s = Some s' \<and> (senders s' \<noteq> senders ?s \<or> started s' \<noteq> started ?s)"
  proof cases
    case queue
    then have "handle_queue_msg m q q topic ?json ?s = Some (queue_to m 1 (setk ?json MANAGER_TYPE (JStr (if topic = TOPIC_PASSAGE_REQUEST_STATE then topic else ''send''))) ?s)"
      by (elim insertE emptyE) (simp_all add: handle_queue_msg_def n Let_def)
    moreover have "senders (queue_to m 1 v ?s) = [(1, snd (mpsc_send m v q))]" for v
      by (simp add: queue_to_def new_manage_def)
    ultimately show ?thesis using send by (simp add: new_manage_def)
  next
    case account
    then show ?thesis by (auto simp: defs add_custom_def register_def split_def)
  next
    case passage
    then have "handle_queue_msg m q q topic ?json ?s = add_server q q 1 ?json (remove_entity m 1 ?s)"
      by (elim insertE emptyE) (simp_all add: handle_queue_msg_def n Let_def)
    moreover have "started (remove_entity m 1 ?s) = []" by (simp add: remove_entity_def close_task_def new_manage_def)
    ultimately show ?thesis
      by (cases rule: add_server_cases [where json = ?json and mq = q and tx = q and i = 1 and s = "remove_entity m 1 ?s"])
        (simp_all add: i l register_def new_manage_def)
  next
    case remove
    then show ?thesis by (auto simp: defs)
  qed
  then have "handle_queue_msg m q q topic ?json ?s \<noteq> Some ?s" by auto
  then show "\<exists>json s. handle_queue_msg m q q topic json s \<noteq> Some s" by blast
qed

lemma subscribed_topics_complete_witness:
  "TOPIC_PASSAGE_REQUEST_STATE \<in> set subscribed_topics \<and> ''account.close'' \<notin> set subscribed_topics \<and>
   (\<exists>json s. handle_queue_msg demo_mpsc (True, []) (True, []) TOPIC_PASSAGE_REQUEST_STATE json s \<noteq> Some s)"
proof -
  have o: "\<not> mpsc_is_closed demo_mpsc (True, [])" by simp
  have t: "TOPIC_PASSAGE_REQUEST_STATE \<in> set subscribed_topics" "''account.close'' \<notin> set subscribed_topics"
    by (simp_all add: subscribed_topics_def)
  with subscribed_topics_complete [OF demo_mpsc_ok o] show ?thesis by blast
qed

end
