(* ===== verification/Peer.thy ===== *)
theory Peer
  imports Starting Handshake
begin

text \<open>
  \<open>main_server.rs\<close>: the test peer.  It accepts connections without a login, answers what it reads, and
  five seconds after every submit message it has accepted sends a status report for it.

  The tasks that wait five seconds are the messages they wait with, in \<open>returning\<close>.  The clock of the
  window is in nanoseconds.
\<close>

subsection \<open>State\<close>

record ('q, 'n) peer =
  peer_protocol :: protocol
  peer_codec :: protocol
  peer_framed :: 'n
  entity_to_channel_rx :: 'q
  peer_globals :: world
  peer_id :: u32
  returning :: "json list"

record peer_work =
  peer_tx :: u32
  peer_rx :: u32
  peer_idle :: u16
  peer_wait_active :: bool
  peer_timestamp :: nat

definition peer_tx_limit :: u32 where
  "peer_tx_limit = 1000"

definition peer_rx_limit :: u32 where
  "peer_rx_limit = 1000"

text \<open>\<open>start_server\<close> and \<open>start_work\<close> up to the loop; the queue is new.\<close>

definition peer_start_server :: "protocol \<Rightarrow> 'n \<Rightarrow> 'q \<Rightarrow> nat \<Rightarrow> world \<Rightarrow> peer_work \<times> ('q, 'n) peer" where
  "peer_start_server protocol stream q now w =
     (let p2 = protocol;
          (id, w) = get_sequence_id 1 w
      in (\<lparr>peer_tx = 0, peer_rx = 0, peer_idle = 0, peer_wait_active = False, peer_timestamp = now\<rparr>,
          \<lparr>peer_protocol = p2, peer_codec = protocol, peer_framed = stream, entity_to_channel_rx = q,
           peer_globals = w, peer_id = id, returning = []\<rparr>))"

subsection \<open>The report\<close>

definition return_msg :: "json \<Rightarrow> json" where
  "return_msg json =
     (let d = str_or_empty (idx_n (idx json DEST_IDS) 0)
      in JObj [(''msg_fmt'', JNum 0),
           (''src_id'', JStr (str_or_empty (idx json ''src_id''))),
           (''submit_time'', JStr ''2108052003''),
           (''serviceId'', JStr []),
           (''msg_type'', JStr ''Report''),
           (''state'', JStr ''DELIVRD''),
           (''dest_id'', JStr d),
           (''msg_id'', JStr (str_or_empty (idx json ''msg_id''))),
           (''done_time'', JStr ''2108052003'')])"

text \<open>One of the waiting tasks ends and queues its report; which one, the scheduler decides.\<close>

definition return_turn :: "'q mpsc \<Rightarrow> nat \<Rightarrow> ('q, 'n) peer \<Rightarrow> ('q, 'n) peer" where
  "return_turn m i c =
     (if i < length (returning c) then
        c\<lparr>entity_to_channel_rx := snd (mpsc_send m (return_msg (returning c ! i)) (entity_to_channel_rx c)),
          returning := take i (returning c) @ drop (Suc i) (returning c)\<rparr>
      else c)"

subsection \<open>The loop\<close>

definition peer_send :: "'n socket \<Rightarrow> buf \<Rightarrow> ('q, 'n) peer \<Rightarrow> ('q, 'n) peer" where
  "peer_send s msg c = c\<lparr>peer_framed := snd (sock_send s msg (peer_framed c))\<rparr>"

type_synonym ('q, 'n) peer_turn = "(bool \<times> peer_work \<times> ('q, 'n) peer) option"

text \<open>A message of the queue; what cannot be encoded is skipped, and the end of the queue ends nothing.\<close>

definition peer_queue_turn :: "'n socket \<Rightarrow> ext \<Rightarrow> json option \<Rightarrow> peer_work \<Rightarrow> ('q, 'n) peer \<Rightarrow> ('q, 'n) peer_turn" where
  "peer_queue_turn s x msg k c =
     (let k = k\<lparr>peer_idle := 0\<rparr>
      in case msg of
           Some send \<Rightarrow>
             (case encode_message (peer_protocol c) x send (peer_globals c) of
                None \<Rightarrow> Panic
              | Some (Inr msg, _, w) \<Rightarrow> Some (True, k, peer_send s msg (c\<lparr>peer_globals := w\<rparr>))
              | Some (Inl _, _, w) \<Rightarrow> Some (True, k, c\<lparr>peer_globals := w\<rparr>))
         | None \<Rightarrow> Some (True, k, c))"

definition peer_net_turn :: "'n socket \<Rightarrow> json \<Rightarrow> peer_work \<Rightarrow> ('q, 'n) peer \<Rightarrow> ('q, 'n) peer_turn" where
  "peer_net_turn s json k c =
     (let k = k\<lparr>peer_wait_active := False\<rparr>;
          ty = msg_type_of json;
          k = (if ty = Submit then k\<lparr>peer_rx := peer_rx k + 1\<rparr> else k);
          json = (if ty = Terminate then setk json ID (num (peer_id c)) else json)
      in if ty \<noteq> Submit \<or> peer_rx k \<le> peer_rx_limit then
           case encode_receipt (peer_protocol c) Success json (peer_globals c) of
             None \<Rightarrow> Panic
           | Some (resp, json, w) \<Rightarrow>
               (let c = c\<lparr>peer_globals := w\<rparr>;
                    c = (case resp of Some resp \<Rightarrow> peer_send s resp c | None \<Rightarrow> c)
                in Some (True, k, if ty = Submit then c\<lparr>returning := returning c @ [json]\<rparr> else c))
         else
           case encode_receipt (peer_protocol c) TrafficRestrictions json (peer_globals c) of
             None \<Rightarrow> Panic
           | Some (resp, json, w) \<Rightarrow>
               (let c = c\<lparr>peer_globals := w\<rparr>
                in Some (True, k, case resp of Some resp \<Rightarrow> peer_send s resp c | None \<Rightarrow> c)))"

text \<open>A message that does not decode is skipped; only the end of the stream ends the loop.\<close>

definition peer_read_turn ::
    "'n socket \<Rightarrow> ext \<Rightarrow> net_event \<Rightarrow> peer_work \<Rightarrow> ('q, 'n) peer \<Rightarrow> ('q, 'n) peer_turn" where
  "peer_read_turn s x ev k c =
     (case framed_next (peer_codec c) x ev of
        None \<Rightarrow> Panic
      | Some (Some (Inr json)) \<Rightarrow> peer_net_turn s json k c
      | Some (Some (Inl _)) \<Rightarrow> Some (True, k, c)
      | Some None \<Rightarrow> Some (False, k, c))"

definition peer_turn ::
    "'q mpsc \<Rightarrow> 'n socket \<Rightarrow> ext \<Rightarrow> nat \<Rightarrow> conn_wake \<Rightarrow> peer_work \<Rightarrow> ('q, 'n) peer \<Rightarrow> ('q, 'n) peer_turn" where
  "peer_turn m s x now wake k c =
     (let k = (if 1000000000 < now - peer_timestamp k
               then k\<lparr>peer_tx := 0, peer_rx := 0, peer_timestamp := now\<rparr> else k);
          (msg, q) = guarded_recv m (peer_tx k < peer_tx_limit) (entity_to_channel_rx c);
          c = c\<lparr>entity_to_channel_rx := q\<rparr>
      in case msg of
           Some msg \<Rightarrow> peer_queue_turn s x msg k c
         | None \<Rightarrow>
             (case wake of
                Net ev \<Rightarrow> peer_read_turn s x ev k c
              | WindowOver \<Rightarrow> Some (True, k, c)
              | OneSecond \<Rightarrow> Some (True, k\<lparr>peer_idle := peer_idle k + 1\<rparr>, c)))"

subsection \<open>Services\<close>

text \<open>\<open>start\<close>, the copy of the one in \<open>entity/services.rs\<close>, of a configuration that has been read.\<close>

fun peer_services :: "json list \<Rightarrow> (string \<times> protocol) list \<times> unit res" where
  "peer_services [] = ([], Ok ())"
| "peer_services (item # array) =
     (case as_str (idx item ''host'') of
        None \<Rightarrow> ([], Err NotFound)
      | Some host \<Rightarrow>
          (case as_str (idx item ''server_type'') of
             None \<Rightarrow> ([], Err NotFound)
           | Some h \<Rightarrow>
               (case protocol_from_str h of
                  None \<Rightarrow> ([], Panic)
                | Some server_type \<Rightarrow>
                    (let (spawned, r) = peer_services array in ((host, server_type) # spawned, r)))))"

definition peer_start :: "json \<Rightarrow> (string \<times> protocol) list \<times> unit res" where
  "peer_start config = peer_services (members (idx config ''config''))"

text \<open>\<open>start_service\<close>, whose loop is that of the gateway; each stream is given to a task of \<open>start_server\<close>.\<close>

definition peer_start_service :: "(io_error + unit) \<Rightarrow> (io_error + 'n) list \<Rightarrow> 'n list" where
  "peer_start_service bound accepts = (case bound of Inr _ \<Rightarrow> accept_all accepts | Inl _ \<Rightarrow> [])"

text \<open>\<open>main\<close> starts one service; the account it builds is not used.\<close>

definition peer_main :: "(string \<times> protocol) \<times> 'q custom_entity" where
  "peer_main = ((''127.0.0.1:5000'', CMPP48),
     new_custom 999
       (map char_of [0xE6 :: nat, 0xB5, 0x8B, 0xE8, 0xAF, 0x95, 0xE6, 0x9C, 0x8D, 0xE5, 0x8A, 0xA1, 0xE5, 0x99, 0xA8, 0x31])
       UNKNOWN ''999999'' [] ''999999'' ''123456'' ''0.0.0.0'' 500 500 3 (JObj []))"

subsection \<open>What the peer does with a submit message\<close>

lemma peer_services_eq: "peer_services = start_services"
proof
  show "peer_services items = start_services items" for items
    by (induction items) (simp_all split: option.split)
qed

text \<open>The count of sent messages is never raised: the limit it is compared with is never met.\<close>

lemma peer_tx_zero:
  assumes "peer_turn m s x now wake k c = Some (go, k', c')" and "peer_tx k = 0"
  shows "peer_tx k' = 0"
  using assms
  by (auto simp: peer_turn_def peer_queue_turn_def peer_read_turn_def peer_net_turn_def Let_def split_def
      split: option.splits conn_wake.splits sum.splits if_splits)

lemma clean_fits: "clean n s \<Longrightarrow> fits n s"
  by (auto simp: clean_def fits_def char_boundary_def)

lemma submit_resp_id:
  assumes "encode_receipt CMPP48 st json w = Some (Some out, json', w')"
    and "as_u32 (idx json MSG_TYPE_U32) = Some (get_type_id CMPP48 Submit)"
  shows "\<exists>mid. json' = setk json MSG_ID (JStr (cmpp_msg_id_u64_to_str mid))"
  using assms
  by (auto simp: encode_receipt_def type_back default_encode_submit_resp_def require_eq_Some bind_eq_Some reply_def no_reply_def
      split_def Let_def simp del: get_type_id.simps get_type_enum.simps split: if_splits)

lemma return_msg_encoded:
  assumes "idx r MSG_ID = JStr (cmpp_msg_id_u64_to_str mid)" and "clean 32 (str_or_empty (idx r SRC_ID))"
    and "clean 21 (str_or_empty (idx_n (idx r DEST_IDS) 0))"
  shows "\<exists>rep r' w'. encode_message CMPP48 x (return_msg r) w = Some (Inr rep, r', w')"
    and "of_type ''Report'' (return_msg r)" and "idx (return_msg r) MSG_ID = JStr (cmpp_msg_id_u64_to_str mid)"
    and "report_clean 32 (return_msg r)"
proof -
  have f: "idx (return_msg r) MSG_TYPE_STR = JStr ''Report''" "idx (return_msg r) MSG_ID = idx r MSG_ID"
    "idx (return_msg r) SERVICE_ID = JStr []" "idx (return_msg r) STATE = JStr ''DELIVRD''"
    "idx (return_msg r) SUBMIT_TIME = JStr ''2108052003''" "idx (return_msg r) DONE_TIME = JStr ''2108052003''"
    "idx (return_msg r) SRC_ID = JStr (str_or_empty (idx r SRC_ID))"
    "idx (return_msg r) DEST_ID = JStr (str_or_empty (idx_n (idx r DEST_IDS) 0))"
    using assms(1) by (simp_all add: return_msg_def Let_def str_or_empty_def)
  have t: "fits 7 ''DELIVRD''" "fits 10 ''2108052003''" "fits 10 []"
    by (auto intro!: ascii_fits ascii_example)
  show "\<exists>rep r' w'. encode_message CMPP48 x (return_msg r) w = Some (Inr rep, r', w')"
    using assms(1) t clean_fits [OF assms(2)] clean_fits [OF assms(3)]
    by (simp add: encode_message_def f default_encode_report_def cmpp_msg_id_roundtrip succeed_def Let_def split_def)
  show "of_type ''Report'' (return_msg r)" "idx (return_msg r) MSG_ID = JStr (cmpp_msg_id_u64_to_str mid)"
    using f assms(1) by (simp_all add: of_type_def)
  show "report_clean 32 (return_msg r)"
    using f assms(2,3) by (simp add: report_clean_def str_or_empty_def clean_def no_trailing_nul_def)
qed

text \<open>C22: every submit message the peer accepts is answered and reported under one id. It sends one answer,
  which decodes with the sequence number of the message and an id, and keeps the message for a report;
  whenever that is sent, it is encoded, decodes to a report about the same id, and the account task of the
  gateway publishes it under the id the answer gave.\<close>

theorem peer_reports_submit:
  assumes "peer_protocol c = CMPP48" and "of_type ''Submit'' json" and "peer_rx k + 1 \<le> peer_rx_limit"
    and "as_u32 (idx json MSG_TYPE_U32) = Some (get_type_id CMPP48 Submit)" and "as_u32 (idx json SEQ_ID) = Some sq"
    and "idx json DEST_IDS = strs ds" and "clean 32 (str_or_empty (idx json SRC_ID))" and "clean 21 (str_or_empty (idx_n (strs ds) 0))"
  shows "\<exists>k' c' answer ja r. peer_net_turn s json k c = Some (True, k', c') \<and>
    peer_framed c' = snd (sock_send s answer (peer_framed c)) \<and> returning c' = returning c @ [r] \<and>
    decode_frame CMPP48 x (drop 4 answer) = Ok ja \<and> of_type ''SubmitResp'' ja \<and> as_u32 (idx ja SEQ_ID) = Some sq \<and>
    (\<forall>w. \<exists>rep r' w' jr ctx' sent. encode_message CMPP48 x (return_msg r) w = Some (Inr rep, r', w') \<and>
       decode_frame CMPP48 x (drop 4 rep) = Ok jr \<and>
       handle_from_channel_rx m now (Some jr) save ctx = Some (True, save, ctx') \<and>
       to_queue ctx' = to_queue ctx @ [(TOPIC_TO_B_REPORT, [], sent)] \<and> idx sent MSG_ID = idx ja MSG_ID)"
proof -
  have ty: "msg_type_of json = Submit"
    using assms(2) by (simp add: msg_type_of_def of_type_def str_or_empty_def msg_type_from_str_def lookup_or_def)
  have "\<exists>answer r w. encode_receipt CMPP48 Success json (peer_globals c) = Some (Some answer, r, w)"
    using assms(4-6) by (simp add: encode_receipt_def type_back default_encode_submit_resp_def reply_def Let_def split_def
        del: get_type_id.simps get_type_enum.simps)
  then obtain answer r w where e: "encode_receipt CMPP48 Success json (peer_globals c) = Some (Some answer, r, w)" by blast
  obtain mid where r: "r = setk json MSG_ID (JStr (cmpp_msg_id_u64_to_str mid))" using submit_resp_id [OF e assms(4)] by blast
  obtain ja where ja: "decode_frame CMPP48 x (drop 4 answer) = Ok ja" "answer_read ''SubmitResp'' sq (idx r MSG_ID) (get_status_id CMPP48 Success) ja"
    using submit_answer [OF e _ _ assms(4), of x] assms(5) by auto
  let ?c = "(peer_send s answer (c\<lparr>peer_globals := w\<rparr>))\<lparr>returning := returning c @ [r]\<rparr>"
  have n: "\<exists>k'. peer_net_turn s json k c = Some (True, k', ?c)"
    using assms(1,3) e ty by (simp add: peer_net_turn_def Let_def peer_send_def)
  have mid: "idx r MSG_ID = JStr (cmpp_msg_id_u64_to_str mid)" by (simp add: r)
  have cl: "clean 32 (str_or_empty (idx r SRC_ID))" "clean 21 (str_or_empty (idx_n (idx r DEST_IDS) 0))"
    using assms(6-8) by (simp_all add: r)
  note ret = return_msg_encoded [OF mid cl]
  have rep: "\<exists>rep r' w' jr ctx' sent. encode_message CMPP48 x (return_msg r) w = Some (Inr rep, r', w') \<and>
       decode_frame CMPP48 x (drop 4 rep) = Ok jr \<and>
       handle_from_channel_rx m now (Some jr) save ctx = Some (True, save, ctx') \<and>
       to_queue ctx' = to_queue ctx @ [(TOPIC_TO_B_REPORT, [], sent)] \<and> idx sent MSG_ID = idx ja MSG_ID" for w
  proof -
    obtain rep r' w' where enc: "encode_message CMPP48 x (return_msg r) w = Some (Inr rep, r', w')" using ret(1) by blast
    obtain jr where jr: "decode_frame CMPP48 x (drop 4 rep) = Ok jr" "report_read (return_msg r) (cmpp_msg_id_u64_to_str mid) jr"
      using report_unit [OF enc ret(2) _ ret(3)] ret(4) by auto
    have "idx ja MSG_ID = JStr (cmpp_msg_id_u64_to_str mid)" using ja(2) mid by (simp add: answer_read_def)
    with report_published [OF jr(2) id_text_not_empty, of m now save ctx] enc jr(1) show ?thesis by metis
  qed
  from n obtain k' where "peer_net_turn s json k c = Some (True, k', ?c)" by blast
  moreover have "peer_framed ?c = snd (sock_send s answer (peer_framed c))" "returning ?c = returning c @ [r]"
    by (simp_all add: peer_send_def)
  ultimately show ?thesis using ja rep unfolding answer_read_def by blast
qed

definition demo_peer :: "peer_work \<times> (bool \<times> json list, bool \<times> buf list) peer" where
  "demo_peer = peer_start_server CMPP48 (True, []) (True, []) 0 demo_world"

lemma peer_reports_submit_witness:
  "\<exists>json k' c' answer ja r. idx json SRC_ID = JStr ''10690001'' \<and>
     peer_net_turn demo_socket json (fst demo_peer) (snd demo_peer) = Some (True, k', c') \<and>
     decode_frame CMPP48 demo_ext (drop 4 answer) = Ok ja \<and> as_u32 (idx ja SEQ_ID) = Some 7 \<and> returning c' = [r]"
proof -
  let ?j = "setk (setk (demo_received CMPP48 Submit []) MSG_TYPE_STR (JStr ''Submit'')) SRC_ID (JStr ''10690001'')"
  have p: "peer_protocol (snd demo_peer) = CMPP48" "peer_rx (fst demo_peer) + 1 \<le> peer_rx_limit" "returning (snd demo_peer) = []"
    by (simp_all add: demo_peer_def peer_start_server_def Let_def split_def peer_rx_limit_def)
  have t: "as_u32 (idx ?j MSG_TYPE_U32) = Some (get_type_id CMPP48 Submit)"
    by (simp add: as_word.simps)
  have j: "of_type ''Submit'' ?j" "as_u32 (idx ?j SEQ_ID) = Some 7" "idx ?j DEST_IDS = strs [''13800000000'']"
    "idx ?j SRC_ID = JStr ''10690001''" "clean 32 (str_or_empty (idx ?j SRC_ID))" "clean 21 (str_or_empty (idx_n (strs [''13800000000'']) 0))"
    by (simp_all add: of_type_def as_word.simps str_or_empty_def clean_def no_trailing_nul_def)
  from peer_reports_submit [OF p(1) j(1) p(2) t j(2,3,5,6), of demo_socket demo_ext demo_mpsc 0 "[]" "demo_context Server 0 []"]
  obtain k' c' answer ja r where "peer_net_turn demo_socket ?j (fst demo_peer) (snd demo_peer) = Some (True, k', c')"
    "decode_frame CMPP48 demo_ext (drop 4 answer) = Ok ja" "as_u32 (idx ja SEQ_ID) = Some 7" "returning c' = returning (snd demo_peer) @ [r]"
    by blast
  then show ?thesis using j(4) p(3) by (metis append_Nil)
qed

end
