(* ===== verification/Spec2Isabelle.thy ===== *)
theory Spec2Isabelle
  imports Wire Receipts Logins Registry Journey Inbound Framing Handshake Peer Starting
begin

text \<open>
  A model of the SMS gateway \<open>rust_sms_gate\<close> (directory \<open>src/src\<close>), with the theorems that make it
  correct and those that show where it is not.

  The gateway stands between customers and the operators' short message centres.  A connection
  speaks one of the protocols CMPP 3.0, CMPP 2.0, SMGP, SGIP or SMPP.  What arrives on a socket is cut
  into frames, decoded to a JSON object and handed to the account (entity) the connection belongs to;
  what an account has to send is a JSON object that is encoded to one or more units.  Each connection
  and each account is a task; they talk through bounded queues.  The manager starts and ends the tasks
  of the accounts as the business side asks it to over Kafka, and everything of interest goes back to
  Kafka.

  \<^bold>\<open>Conventions.\<close>  A \<open>BytesMut\<close> is a list of \<^typ>\<open>u8\<close>; integers keep their width and wrap as in a
  release build.  A \<open>String\<close> is its UTF-8 bytes as a \<^typ>\<open>string\<close>.  A result is an option of a sum:
  \<open>None\<close> is a panic, \<open>Some (Inl e)\<close> an error returned, \<open>Some (Inr v)\<close> a value.  The global sequence
  counter, gateway number and clock are a record (\<open>world\<close>) passed through the operations.  A
  \<open>HashMap\<close> is a list of its entries.  A task is its state and a function for one turn of its loop; what
  the scheduler, the clock and the network decide are arguments of the turn, so the theorems hold for
  every choice.  A message to Kafka is an event: topic, key and JSON object.

  \<^bold>\<open>Parameters\<close>, for what comes from crates outside the repository, each with laws as hypotheses
  and an instance in the examples that satisfies them: MD5, UTF-16 and GBK (\<open>ext\<close>, \<open>ext_ok\<close>); the
  length-delimited codec (\<open>codec\<close>; \<open>codec_ok\<close>: it does what the library says of the settings \<open>new\<close> of each
  protocol gives it - \<open>codec_ok_iff\<close>: a frame when the whole of one is there, nothing when less is, an error for
  a length below four or above \<open>max_frame\<close>); the queues of \<open>tokio\<close> (\<open>mpsc\<close>,
  \<open>mpsc_ok\<close>); the socket (\<open>socket\<close>, \<open>socket_ok\<close>); the Kafka client (\<open>kafka\<close>), the JSON parser and
  printer and the builder of the runtime, which need no laws.

  \<^bold>\<open>Theories, the data first.\<close>
  \<^item> \<open>Prelude\<close>, \<open>Json\<close>, \<open>Bytes\<close>, \<open>Text\<close>: results, the JSON values and field names
    (\<open>protocol/names.rs\<close>), byte buffers, text in fixed fields.
  \<^item> \<open>World\<close> (\<open>global.rs\<close>): the globals at the start, the sequence counter and the clock.  Locale \<open>counter\<close>: blocks of numbers do not
    overlap.
  \<^item> \<open>MsgType\<close> (\<open>protocol/msg_type.rs\<close> and the code tables of the protocols): codes are read back.
  \<^item> \<open>MsgId\<close> (\<open>protocol/implements.rs\<close>): message ids, their text and when it is read back.

  \<^bold>\<open>The protocols.\<close>
  \<^item> \<open>Content\<close>, \<open>Encoding\<close>: character sets, cutting a long text into segments, shared steps.
  \<^item> \<open>Defaults\<close> (trait \<open>ProtocolImpl\<close>: CMPP 3.0 and SMPP), \<open>Cmpp32\<close>, \<open>Smgp\<close>, \<open>Sgip\<close>: one definition for
    each encoder and decoder.  \<open>Dispatch\<close> (\<open>protocol/mod.rs\<close>): the choice among them, and \<open>decode\<close>.
  \<^item> \<open>Wire\<close>: what is written is a row of units with right length fields, one for each segment.
  \<^item> \<open>Units\<close>, \<open>Delivered\<close>, \<open>Submitted\<close>, \<open>Replies\<close>: a unit of each kind read by the decoder of the same
    protocol.  \<open>Typed\<close>: the fields every decoded message has.  \<open>Framing\<close>: \<open>new\<close> of the protocols, the
    stream of a connection, in any chunks (relation \<open>reads\<close>), and the streams that stall or stop it.

  \<^bold>\<open>The tasks.\<close>
  \<^item> \<open>Machine\<close>: runs of a machine and its invariants (locales).  \<open>Mpsc\<close>: queues, topics, and hash maps
    (locale \<open>hash_map\<close>).
  \<^item> \<open>Running\<close> (\<open>entity/entity_running.rs\<close>): the task of an account.  \<open>Sending\<close>: the choice of a
    connection.  \<open>LongSms\<close>: long messages.  \<open>Tasks\<close>: its invariant.  \<open>Receipts\<close>: receipts and resending.
  \<^item> \<open>Account\<close> (\<open>entity/mod.rs\<close>, \<open>as_custom.rs\<close>, \<open>as_server.rs\<close>): addresses, login, attaching.  \<open>Logins\<close>: what
    a login guarantees.
  \<^item> \<open>Channel\<close> (\<open>entity/channel.rs\<close>): the task of a connection.  \<open>Links\<close>, \<open>Traffic\<close>: the units it writes
    in a second, the order of its queues, its timers (\<open>timer_armed\<close>) and heartbeat, and all its ends.  \<open>Sessions\<close>: no work without a login, and messages handed back.
    \<open>Pipeline\<close>: a submit message from the queue to the list of messages that wait.
  \<^item> \<open>Manager\<close> (\<open>entity/entity_manager.rs\<close>, \<open>entity/services.rs\<close>) and \<open>Managing\<close>: one task for each
    account, replacement, messages to it, and the one message that makes the manager panic (\<open>fatal\<close>: a link
    with a read limit of zero).  \<open>Registry\<close>: a specification of the manager as a register of
    accounts (relation \<open>reg_step\<close>), which the code refines in every run without a panic (locale \<open>simulation\<close>).

  \<^bold>\<open>Two gateways and the rest of the program.\<close>
  \<^item> \<open>Cycle\<close>: a submit message from the queue of a connection to the peer, and the peer's answers back to
    the receipts the account publishes.  \<open>Journey\<close>: the same from the topic of the business side on, through
    the manager and the task of the account.
  \<^item> \<open>Travels\<close>: a long text from the encoder of one gateway to the account task of another, \<open>Inbound\<close>: through the
    task of its connection.  \<open>Handshake\<close>: logins, answers and reports between two gateways, and the only
    panics of a reading connection.
  \<^item> \<open>Consumer\<close> (\<open>message_queue/kafka\<close>): no readable message lost, no offset stored early.
  \<^item> \<open>Starting\<close> (\<open>main.rs\<close>, the start of the manager and of a service, the settings and the values \<open>global.rs\<close>
    makes at their first use): what runs after the start.
  \<^item> \<open>Peer\<close> (\<open>main_server.rs\<close>): the stand-alone test peer, against the gateway.

  \<^bold>\<open>Bounds.\<close>  The loops of the source are recursion on lists or terminate by a proved measure
  (\<open>split_frames\<close>, \<open>decode_tlvs\<close>, the digits of numbers).  The one loop with a number of rounds is
  \<open>drain\<close>, the emptying of a queue: its callers give one round more than there are messages, and
  \<open>drain_contents\<close> shows that this takes all of them.

  \<^bold>\<open>Not modelled.\<close>  The scheduler of the Tokio runtime and its threads (its settings and the names of
  the threads are), the set-up of the log, log output, and the \<open>Display\<close> and \<open>Drop\<close> code that only
  logs.  The test programs \<open>main_test.rs\<close>, \<open>test_server.rs\<close> and \<open>test\<close>.
  JSON numbers with a fraction; the texts of errors; a queue that is full suspends its sender and is
  modelled from where the sender goes on; the data race between the main thread and the manager's
  task on the uninitialised \<open>ENTITY_MANAGER\<close>.
\<close>

end
